(* ===== verification/Prelude.thy ===== *)
theory Prelude
  imports Main "HOL-Library.Monad_Syntax" "HOL-Library.Word"
begin

section \<open>Shared vocabulary of the model\<close>

text \<open>
  What every component of the model shares: the reading of Go's values in HOL, panics,
  the iteration order of maps, and the generic lemmas the components use.

  A Go \<open>string\<close> or \<open>[]byte\<close> is a \<open>string\<close>, one \<open>char\<close> per byte. A Go \<open>int\<close> is an
  \<open>int\<close> that the operations keep within 64 bits. A function that can panic returns an
  \<open>option\<close>, \<open>None\<close> being the panic; an error result is \<open>Inl\<close> of a sum.
\<close>

named_theorems inv_intro \<open>operations keep their component's invariant\<close>
named_theorems model_simps \<open>what the operations do to the fields of the state\<close>

type_synonym bytes = string
type_synonym uint16 = "16 word"

subsection \<open>Go's 64-bit int\<close>

definition max_int :: int where
  "max_int = 2 ^ 63 - 1"

definition min_int :: int where
  "min_int = - (2 ^ 63)"

definition int_ok :: "int \<Rightarrow> bool" where
  "int_ok i \<longleftrightarrow> min_int \<le> i \<and> i \<le> max_int"

text \<open>\<open>x++\<close> on an \<open>int\<close>: the largest value wraps to the smallest.\<close>

definition go_inc :: "int \<Rightarrow> int" where
  "go_inc i = (if i = max_int then min_int else i + 1)"

lemma go_inc_below [simp]: "i < max_int \<Longrightarrow> go_inc i = i + 1"
  by (simp add: go_inc_def)

lemma int_ok_go_inc: "int_ok i \<Longrightarrow> int_ok (go_inc i)"
  by (auto simp: int_ok_def go_inc_def max_int_def min_int_def)

subsection \<open>Ranging over a map\<close>

text \<open>
  \<open>for k, v := range m\<close> visits every key once, in an order the language leaves open. A
  loop over a map takes that order as an argument; its lemmas hold for every order that
  lists the map's keys without repetition.
\<close>

definition range_order :: "('k \<rightharpoonup> 'v) \<Rightarrow> 'k list \<Rightarrow> bool" where
  "range_order m ks \<longleftrightarrow> distinct ks \<and> set ks = dom m"

lemma range_order_empty [simp]: "range_order Map.empty ks \<longleftrightarrow> ks = []"
  by (auto simp: range_order_def)

lemma range_order_in: "range_order m ks \<Longrightarrow> k \<in> set ks \<longleftrightarrow> m k \<noteq> None"
  by (auto simp: range_order_def dom_def)

lemma range_order_finite: "range_order m ks \<Longrightarrow> finite (dom m)"
  unfolding range_order_def by (metis List.finite_set)

lemma range_order_length: "range_order m ks \<Longrightarrow> length ks = card (dom m)"
  unfolding range_order_def by (metis distinct_card)

lemma range_order_exists: "finite (dom m) \<Longrightarrow> \<exists>ks. range_order m ks"
  unfolding range_order_def by (metis finite_distinct_list)

definition range_values :: "('k \<rightharpoonup> 'v) \<Rightarrow> 'k list \<Rightarrow> 'v list" where
  "range_values m ks = map (\<lambda>k. the (m k)) ks"

lemma set_range_values: "range_order m ks \<Longrightarrow> set (range_values m ks) = ran m"
proof (rule set_eqI, rule iffI)
  fix v
  assume o: "range_order m ks" and "v \<in> set (range_values m ks)"
  then obtain k where "k \<in> set ks" "v = the (m k)" by (auto simp: range_values_def)
  with o show "v \<in> ran m" by (auto simp: range_order_def ran_def)
next
  fix v
  assume o: "range_order m ks" and "v \<in> ran m"
  then obtain k where "m k = Some v" by (auto simp: ran_def)
  with o show "v \<in> set (range_values m ks)"
    by (force simp: range_values_def range_order_def)
qed

lemma length_range_values [simp]: "length (range_values m ks) = length ks"
  by (simp add: range_values_def)

subsection \<open>Loops that may panic\<close>

text \<open>\<open>each f xs s\<close> runs \<open>f\<close> on the elements of \<open>xs\<close> in order; a panic ends the loop.\<close>

fun each :: "('a \<Rightarrow> 's \<Rightarrow> 's option) \<Rightarrow> 'a list \<Rightarrow> 's \<Rightarrow> 's option" where
  "each f [] s = Some s"
| "each f (x # xs) s = (case f x s of None \<Rightarrow> None | Some t \<Rightarrow> each f xs t)"

lemma each_append: "each f (xs @ ys) s = Option.bind (each f xs s) (each f ys)"
  by (induction xs arbitrary: s) (auto split: option.splits)

lemma each_invariant:
  assumes "each f xs s = Some t" and "P s"
    and "\<And>x u v. x \<in> set xs \<Longrightarrow> P u \<Longrightarrow> f x u = Some v \<Longrightarrow> P v"
  shows "P t"
  using assms
proof (induction xs arbitrary: s)
  case Nil
  then show ?case by simp
next
  case (Cons x xs)
  from Cons.prems(1) obtain u where u: "f x s = Some u" "each f xs u = Some t"
    by (auto split: option.splits)
  with Cons.prems(2,3) have "P u" by (meson list.set_intros(1))
  with u(2) Cons.IH Cons.prems(3) show ?case by (meson list.set_intros(2))
qed

lemma each_total:
  assumes "\<And>x s. x \<in> set xs \<Longrightarrow> P s \<Longrightarrow> \<exists>t. f x s = Some t \<and> P t" and "P s"
  shows "\<exists>t. each f xs s = Some t \<and> P t"
  using assms
proof (induction xs arbitrary: s)
  case Nil
  then show ?case by simp
next
  case (Cons x xs)
  from Cons.prems obtain u where "f x s = Some u" "P u" by force
  with Cons.IH[of u] Cons.prems(1) show ?case by simp
qed

subsection \<open>Loops that may not return\<close>

text \<open>
  A loop without a termination argument is a \<open>partial_function (option)\<close>: \<open>None\<close> means that
  it never returns, \<open>Some Panics\<close> that it panics, \<open>Some (Returns x)\<close> that it returns \<open>x\<close>.
\<close>

datatype 'a outcome = Returns 'a | Panics

subsection \<open>Lists\<close>

lemma last_append_take_drop:
  "k \<le> length xs \<Longrightarrow> length (drop (length xs - k) xs) = k"
  by simp

lemma drop_append_le: "k \<le> length xs \<Longrightarrow> drop k (xs @ ys) = drop k xs @ ys"
  by simp

end
