(* ===== verification/Ring_Buffer.thy ===== *)
theory Ring_Buffer
  imports Prelude
begin

section \<open>The output history of a pane: peers/buffer.go\<close>

text \<open>
  \<open>Buffer\<close> keeps the last bytes a pane has printed in a ring, and markers into it, so that
  a client that comes back gets what it missed. The model is the code's ring. Its abstract
  specification is the whole history of the pane with a position in it for each marker; the
  simulation between the two is \<open>buf_rel\<close>. The mutex makes each operation atomic.
\<close>

subsection \<open>State and operations\<close>

record buffer =
  markers :: "int \<rightharpoonup> int"
  data :: bytes
  buf_end :: int
  buf_size :: int

text \<open>\<open>NewBuffer\<close>: \<open>make([]byte, size)\<close> panics for a negative size.\<close>

definition newBuffer :: "int \<Rightarrow> buffer option" where
  "newBuffer sz =
     (if sz < 0 then None
      else Some \<lparr>markers = Map.empty, data = replicate (nat sz) (CHR 0x00),
                 buf_end = 0, buf_size = sz\<rparr>)"

text \<open>One turn of the loop of \<open>Add\<close>: an index out of range panics.\<close>

definition add_byte :: "char \<Rightarrow> buffer \<Rightarrow> buffer option" where
  "add_byte b buf =
     (if buf_end buf < 0 \<or> int (length (data buf)) \<le> buf_end buf then None
      else let d = (data buf)[nat (buf_end buf) := b];
               e = (if buf_end buf + 1 = buf_size buf then 0 else buf_end buf + 1);
               ms = (\<lambda>k. map_option (\<lambda>v. if v = e then - 1 else v) (markers buf k))
           in Some (buf\<lparr>data := d, buf_end := e, markers := ms\<rparr>))"

definition add :: "bytes \<Rightarrow> buffer \<Rightarrow> buffer option" where
  "add b buf = each add_byte b buf"

definition mark :: "int \<Rightarrow> buffer \<Rightarrow> buffer" where
  "mark mid buf = buf\<lparr>markers := (markers buf)(mid \<mapsto> buf_end buf)\<rparr>"

text \<open>\<open>buffer.markers[mid]\<close>: Go's map index yields 0 for a key that is not there.\<close>

definition marker_at :: "buffer \<Rightarrow> int \<Rightarrow> int" where
  "marker_at buf mid = (case markers buf mid of None \<Rightarrow> 0 | Some v \<Rightarrow> v)"

text \<open>The first part of \<open>GetSinceMarker\<close>: where the loop starts and where it stops.\<close>

definition window :: "buffer \<Rightarrow> int \<Rightarrow> int \<times> int" where
  "window buf mid =
     (if mid = - 1 \<or> marker_at buf mid = - 1
      then (let start = buf_end buf in
            (start, if start = 0 then buf_size buf else start - 1))
      else (marker_at buf mid, buf_end buf))"

text \<open>Its loop: \<open>for i := start; i != end; i++\<close>, with \<open>i\<close> set to 0 inside the body at the end
  of the ring.\<close>

partial_function (option) collect ::
  "bytes \<Rightarrow> int \<Rightarrow> int \<Rightarrow> int \<Rightarrow> bytes \<Rightarrow> bytes outcome option" where
  "collect d sz stop i r =
     (if i = stop then Some (Returns r)
      else let j = (if i = sz then 0 else i)
           in if j < 0 \<or> int (length d) \<le> j then Some Panics
              else collect d sz stop (j + 1) (r @ [d ! nat j]))"

definition drop_marker :: "int \<Rightarrow> buffer \<Rightarrow> buffer" where
  "drop_marker mid buf = (if mid = - 1 then buf else buf\<lparr>markers := (markers buf)(mid := None)\<rparr>)"

definition getSinceMarker :: "int \<Rightarrow> buffer \<Rightarrow> (bytes \<times> buffer) outcome option" where
  "getSinceMarker mid buf =
     (case window buf mid of (start, stop) \<Rightarrow>
        (case collect (data buf) (buf_size buf) stop start [] of
           None \<Rightarrow> None
         | Some Panics \<Rightarrow> Some Panics
         | Some (Returns r) \<Rightarrow> Some (Returns (r, drop_marker mid buf))))"

subsection \<open>The loop\<close>

text \<open>It walks forward while it meets neither its stop nor the end of the ring.\<close>

lemma collect_walk:
  assumes "\<forall>t < k. i + t \<noteq> stop" and "i + k \<le> length d"
  shows "collect d (int (length d)) (int stop) (int i) r
       = collect d (int (length d)) (int stop) (int (i + k)) (r @ take k (drop i d))"
  using assms
proof (induction k arbitrary: i r)
  case 0
  then show ?case by simp
next
  case (Suc k)
  from Suc.prems have ne: "i \<noteq> stop" and lt: "i < length d"
    by (auto dest: spec [of _ 0])
  have "collect d (int (length d)) (int stop) (int i) r
      = collect d (int (length d)) (int stop) (int (Suc i)) (r @ [d ! i])"
    using ne lt by (subst collect.simps) (simp add: add.commute)
  also have "\<dots> = collect d (int (length d)) (int stop) (int (Suc i + k))
      ((r @ [d ! i]) @ take k (drop (Suc i) d))"
  proof (rule Suc.IH)
    show "\<forall>t < k. Suc i + t \<noteq> stop"
      using Suc.prems(1) by (metis Suc_less_eq add_Suc add_Suc_right)
    show "Suc i + k \<le> length d" using Suc.prems(2) by simp
  qed
  also have "(r @ [d ! i]) @ take k (drop (Suc i) d) = r @ take (Suc k) (drop i d)"
    using lt by (simp add: Cons_nth_drop_Suc [symmetric])
  finally show ?case by simp
qed

lemma collect_stop [simp]: "collect d sz stop stop r = Some (Returns r)"
  by (subst collect.simps) simp

lemma collect_slice:
  assumes "start \<le> stop" and "stop \<le> length d"
  shows "collect d (int (length d)) (int stop) (int start) []
       = Some (Returns (take (stop - start) (drop start d)))"
proof -
  have "\<forall>t < stop - start. start + t \<noteq> stop" by auto
  from collect_walk [OF this, of d "[]"] assms show ?thesis by simp
qed

text \<open>At the end of the ring the body reads index 0 and goes on from 1.\<close>

lemma collect_wrap:
  assumes "0 < stop" and "stop < start" and "start \<le> length d"
  shows "collect d (int (length d)) (int stop) (int start) []
       = Some (Returns (drop start d @ take stop d))"
proof -
  from assms obtain c cs where d: "d = c # cs" by (cases d) auto
  have "collect d (int (length d)) (int stop) (int start) []
      = collect d (int (length d)) (int stop) (int (length d)) (drop start d)"
  proof -
    have "\<forall>t < length d - start. start + t \<noteq> stop" using assms by auto
    from collect_walk [OF this, of d "[]"] assms show ?thesis by simp
  qed
  also have "\<dots> = collect d (int (length d)) (int stop) (int 1) (drop start d @ take 1 d)"
    using assms by (subst collect.simps) (simp add: d)
  also have "\<dots> = collect d (int (length d)) (int stop) (int (1 + (stop - 1)))
      ((drop start d @ take 1 d) @ take (stop - 1) (drop 1 d))"
    using assms by (intro collect_walk) auto
  also have "(drop start d @ take 1 d) @ take (stop - 1) (drop 1 d) = drop start d @ take stop d"
    using assms(1) by (metis One_nat_def Suc_leI append.assoc le_add_diff_inverse take_add)
  finally show ?thesis using assms(1) by simp
qed

text \<open>So it never meets a stop at index 0 once it has left it: the loop does not return.\<close>

lemma collect_diverges:
  assumes "0 < start" and "start \<le> int (length d)"
  shows "collect d (int (length d)) 0 start r = None"
proof (rule ccontr)
  assume "collect d (int (length d)) 0 start r \<noteq> None"
  then obtain y where ret: "collect d (int (length d)) 0 start r = Some y" by auto
  have "\<not> (int (length d) = int (length d) \<and> (0::int) = 0 \<and> 0 < start \<and> start \<le> int (length d))"
  proof (rule collect.raw_induct [where P = "\<lambda>d sz stop i r y.
      \<not> (sz = int (length d) \<and> stop = 0 \<and> 0 < i \<and> i \<le> int (length d))", OF _ ret])
    fix f :: "bytes \<Rightarrow> int \<Rightarrow> int \<Rightarrow> int \<Rightarrow> bytes \<Rightarrow> bytes outcome option"
    fix d :: bytes and sz stop i :: int and r :: bytes and y
    assume IH: "\<And>d sz stop i r y. f d sz stop i r = Some y \<Longrightarrow>
        \<not> (sz = int (length d) \<and> stop = 0 \<and> 0 < i \<and> i \<le> int (length d))"
      and step: "(if i = stop then Some (Returns r)
        else let j = if i = sz then 0 else i
             in if j < 0 \<or> int (length d) \<le> j then Some Panics
                else f d sz stop (j + 1) (r @ [d ! nat j])) = Some y"
    show "\<not> (sz = int (length d) \<and> stop = 0 \<and> 0 < i \<and> i \<le> int (length d))"
    proof
      assume a: "sz = int (length d) \<and> stop = 0 \<and> 0 < i \<and> i \<le> int (length d)"
      define j where "j = (if i = sz then 0 else i)"
      have j: "0 \<le> j" "j < int (length d)" using a by (auto simp: j_def)
      have "f d sz stop (j + 1) (r @ [d ! nat j]) = Some y"
      proof (cases "i = sz")
        case True
        with step a j show ?thesis by (simp add: j_def)
      next
        case False
        with step a j show ?thesis by (simp add: j_def)
      qed
      from IH [OF this] a j show False by simp
    qed
  qed
  with assms show False by simp
qed

subsection \<open>The specification: a history and positions in it\<close>

text \<open>
  \<open>buf_rel N buf h ps\<close>: the ring \<open>buf\<close> of \<open>N\<close> bytes stands for the history \<open>h\<close>, which is the
  \<open>N\<close> zero bytes of a new buffer and then everything the pane has printed, with the marker
  \<open>mid\<close> set when the history was \<open>ps mid\<close> bytes long. A marker is lost when \<open>N\<close> bytes or more
  have been printed since.
\<close>

definition marker_val :: "nat \<Rightarrow> nat \<Rightarrow> nat \<Rightarrow> int" where
  "marker_val N printed p = (if printed < p + N then int (p mod N) else - 1)"

definition buf_rel :: "nat \<Rightarrow> buffer \<Rightarrow> bytes \<Rightarrow> (int \<rightharpoonup> nat) \<Rightarrow> bool" where
  "buf_rel N buf h ps \<longleftrightarrow>
     0 < N \<and> N \<le> length h \<and> length (data buf) = N \<and> buf_size buf = int N \<and>
     buf_end buf = int (length h mod N) \<and>
     (\<forall>p < length h. length h < p + N + 1 \<longrightarrow> data buf ! (p mod N) = h ! p) \<and>
     (\<forall>mid p. ps mid = Some p \<longrightarrow> p \<le> length h) \<and>
     markers buf = (\<lambda>mid. map_option (marker_val N (length h)) (ps mid))"

definition blank :: "nat \<Rightarrow> bytes" where
  "blank N = replicate N (CHR 0x00)"

lemma length_blank [simp]: "length (blank N) = N"
  by (simp add: blank_def)

definition keep_last :: "nat \<Rightarrow> bytes \<Rightarrow> bytes" where
  "keep_last n h = drop (length h - n) h"

lemma mod_eq_within:
  assumes "p \<le> q" and "q < p + (N::nat)" and "q mod N = p mod N"
  shows "q = p"
proof -
  from assms(1,3) have "N dvd q - p" by (metis mod_eq_dvd_iff_nat)
  moreover have "q - p < N" using assms(1,2) by linarith
  ultimately have "q - p = 0" by (metis dvd_imp_le gr0I not_less)
  with assms(1) show ?thesis by simp
qed

lemma newBuffer_rel: "0 < N \<Longrightarrow> \<exists>buf. newBuffer (int N) = Some buf \<and> buf_rel N buf (blank N) Map.empty"
  by (auto simp: newBuffer_def buf_rel_def blank_def)

lemma lost_after_step:
  assumes "p \<le> L" and "L < p + N" and "0 < (N::nat)"
  shows "p mod N = Suc L mod N \<longleftrightarrow> Suc L = p + N"
proof
  assume e: "p mod N = Suc L mod N"
  show "Suc L = p + N"
  proof (rule ccontr)
    assume "Suc L \<noteq> p + N"
    with assms have "Suc L < p + N" by simp
    with mod_eq_within [of p "Suc L" N] assms e show False by simp
  qed
next
  assume "Suc L = p + N"
  then show "p mod N = Suc L mod N" by simp
qed

lemma add_byte_rel:
  assumes R: "buf_rel N buf h ps"
  shows "\<exists>buf'. add_byte c buf = Some buf' \<and> buf_rel N buf' (h @ [c]) ps"
proof -
  define L where "L = length h"
  define e where "e = L mod N"
  from R have N: "0 < N" and NL: "N \<le> L" and len: "length (data buf) = N" and sz: "buf_size buf = int N"
    and en: "buf_end buf = int e"
    and dat: "\<And>p. p < L \<Longrightarrow> L < p + N + 1 \<Longrightarrow> data buf ! (p mod N) = h ! p"
    and le: "\<And>mid p. ps mid = Some p \<Longrightarrow> p \<le> L"
    and mk: "markers buf = (\<lambda>mid. map_option (marker_val N L) (ps mid))"
    unfolding buf_rel_def L_def e_def by auto
  have elt: "e < N" using N by (simp add: e_def)
  define e' where "e' = Suc L mod N"
  have e'_int: "(if int e + 1 = int N then 0 else int e + 1) = int e'"
    using N by (auto simp: e'_def e_def mod_Suc)
  define buf' where "buf' = buf\<lparr>data := (data buf)[e := c], buf_end := int e',
      markers := (\<lambda>k. map_option (\<lambda>v. if v = int e' then - 1 else v) (markers buf k))\<rparr>"
  have step: "add_byte c buf = Some buf'"
    using elt by (simp only: add_byte_def len en sz e'_int buf'_def Let_def) simp
  have "data buf' ! (p mod N) = (h @ [c]) ! p"
    if p: "p < Suc L" "Suc L < p + N + 1" for p
  proof (cases "p = L")
    case True
    with elt len show ?thesis by (simp add: buf'_def e_def L_def)
  next
    case False
    with p have lt: "p < L" by simp
    have "p mod N \<noteq> e"
    proof
      assume "p mod N = e"
      then have "L = p" using mod_eq_within [of p L N] lt p(2) by (simp add: e_def)
      with lt show False by simp
    qed
    with dat [OF lt] p(2) lt show ?thesis by (simp add: buf'_def nth_append L_def)
  qed
  moreover have "markers buf' = (\<lambda>mid. map_option (marker_val N (Suc L)) (ps mid))"
  proof
    fix mid
    show "markers buf' mid = map_option (marker_val N (Suc L)) (ps mid)"
    proof (cases "ps mid")
      case (Some p)
      from le [OF this] lost_after_step [of p L N] N
      have "(if marker_val N L p = int e' then - 1 else marker_val N L p) = marker_val N (Suc L) p"
        by (auto simp: marker_val_def e'_def)
      with Some show ?thesis by (simp add: buf'_def mk)
    qed (simp add: buf'_def mk)
  qed
  moreover have "\<And>mid p. ps mid = Some p \<Longrightarrow> p \<le> Suc L" using le by (meson le_SucI)
  ultimately have "buf_rel N buf' (h @ [c]) ps"
    using N NL len sz by (simp add: buf_rel_def buf'_def e'_def L_def)
  with step show ?thesis by blast
qed

lemma add_rel:
  "buf_rel N buf h ps \<Longrightarrow> \<exists>buf'. add b buf = Some buf' \<and> buf_rel N buf' (h @ b) ps"
  unfolding add_def
proof (induction b arbitrary: buf h)
  case Nil
  then show ?case by simp
next
  case (Cons c b)
  from add_byte_rel [OF Cons.prems, of c] obtain buf1
    where s: "add_byte c buf = Some buf1" and r: "buf_rel N buf1 (h @ [c]) ps" by blast
  from Cons.IH [OF r] s show ?case by simp
qed

lemma mark_rel:
  "buf_rel N buf h ps \<Longrightarrow> buf_rel N (mark mid buf) h (ps(mid \<mapsto> length h))"
  by (auto simp: buf_rel_def mark_def marker_val_def)

lemma drop_marker_rel:
  "buf_rel N buf h ps \<Longrightarrow> mid \<noteq> - 1 \<Longrightarrow> buf_rel N (drop_marker mid buf) h (ps(mid := None))"
  by (auto simp: buf_rel_def drop_marker_def)

subsection \<open>What the ring holds\<close>

lemma buf_rel_nth:
  assumes "buf_rel N buf h ps" and "length h \<le> p + N" and "p < length h"
  shows "data buf ! (p mod N) = h ! p"
  using assms by (simp add: buf_rel_def)

lemma mod_add_below: "p mod N + i < (N::nat) \<Longrightarrow> (p + i) mod N = p mod N + i"
  by (metis mod_add_left_eq mod_less)

lemma mod_add_above:
  assumes "N \<le> p mod N + i" and "i \<le> N" and "0 < (N::nat)"
  shows "(p + i) mod N = p mod N + i - N"
proof -
  have "(p + i) mod N = (p mod N + i) mod N" by (simp add: mod_simps)
  also have "\<dots> = (p mod N + i - N) mod N" using assms(1) by (rule le_mod_geq)
  also have "\<dots> = p mod N + i - N" using assms mod_less_divisor [of N p] by (intro mod_less) linarith
  finally show ?thesis .
qed

text \<open>The last \<open>k\<close> bytes of the history, \<open>k \<le> N\<close>, read from the ring: contiguous when they do
  not cross its end, in two pieces when they do.\<close>

lemma ring_contiguous:
  assumes R: "buf_rel N buf h ps" and p: "p \<le> length h" "length h \<le> p + N"
    and nowrap: "p mod N + (length h - p) \<le> N"
  shows "take (length h - p) (drop (p mod N) (data buf)) = drop p h"
proof (rule nth_equalityI)
  have len: "length (data buf) = N" using R by (simp add: buf_rel_def)
  then show "length (take (length h - p) (drop (p mod N) (data buf))) = length (drop p h)"
    using nowrap by simp
  fix i assume "i < length (take (length h - p) (drop (p mod N) (data buf)))"
  then have i: "i < length h - p" by simp
  then have "(p + i) mod N = p mod N + i" using nowrap by (intro mod_add_below) simp
  with buf_rel_nth [OF R, of "p + i"] i p
  show "take (length h - p) (drop (p mod N) (data buf)) ! i = drop p h ! i"
    using nowrap len by simp
qed

lemma ring_wrapped:
  assumes R: "buf_rel N buf h ps" and p: "p \<le> length h" "length h \<le> p + N"
    and wrap: "N < p mod N + (length h - p)"
  shows "drop (p mod N) (data buf) @ take (p mod N + (length h - p) - N) (data buf) = drop p h"
proof (rule nth_equalityI)
  have len: "length (data buf) = N" and N: "0 < N" using R by (simp_all add: buf_rel_def)
  define a where "a = p mod N"
  define k where "k = length h - p"
  have aN: "a < N" using N by (simp add: a_def)
  have kN: "k \<le> N" using p by (simp add: k_def)
  show "length (drop (p mod N) (data buf) @ take (p mod N + (length h - p) - N) (data buf))
      = length (drop p h)"
    using len wrap p aN by (simp add: a_def)
  fix i
  assume "i < length (drop (p mod N) (data buf) @ take (p mod N + (length h - p) - N) (data buf))"
  then have i: "i < k" using len wrap kN aN by (simp add: a_def k_def)
  have m: "(p + i) mod N = (if a + i < N then a + i else a + i - N)"
    using mod_add_below [of p N i] mod_add_above [of N p i] i kN N by (simp add: a_def)
  have "data buf ! ((p + i) mod N) = h ! (p + i)"
    using buf_rel_nth [OF R, of "p + i"] i p by (simp add: k_def)
  then show "(drop (p mod N) (data buf) @ take (p mod N + (length h - p) - N) (data buf)) ! i
      = drop p h ! i"
  proof (cases "a + i < N")
    case True
    then have "i < N - a" by simp
    with \<open>data buf ! ((p + i) mod N) = h ! (p + i)\<close> True m i len p show ?thesis
      by (simp add: nth_append flip: a_def)
  next
    case False
    then have "\<not> i < N - a" "i - (N - a) = a + i - N" using aN by simp_all
    with \<open>data buf ! ((p + i) mod N) = h ! (p + i)\<close> False m i len p aN show ?thesis
      by (simp add: nth_append k_def flip: a_def)
  qed
qed

subsection \<open>GetSinceMarker against the history\<close>

text \<open>
  What \<open>GetSinceMarker\<close> delivers, read off the history: nothing (it never returns) when the
  ring's end is at index 0 and the marker elsewhere, or when the marker is lost and the end at
  index 1. A key without a marker reads from index 0.
\<close>

definition spec_whole :: "nat \<Rightarrow> bytes \<Rightarrow> bytes option" where
  "spec_whole N h =
     (if length h mod N = 0 then Some (keep_last N h)
      else if length h mod N = 1 then None
      else Some (butlast (keep_last N h)))"

definition spec_recent :: "nat \<Rightarrow> bytes \<Rightarrow> nat \<Rightarrow> bytes option" where
  "spec_recent N h p = (if p < length h \<and> length h mod N = 0 then None else Some (drop p h))"

definition spec_get :: "nat \<Rightarrow> bytes \<Rightarrow> (int \<rightharpoonup> nat) \<Rightarrow> int \<Rightarrow> bytes option" where
  "spec_get N h ps mid =
     (if mid = - 1 then spec_whole N h
      else case ps mid of
             None \<Rightarrow> Some (keep_last (length h mod N) h)
           | Some p \<Rightarrow> if length h < p + N then spec_recent N h p else spec_whole N h)"

abbreviation ring_read :: "buffer \<Rightarrow> int \<Rightarrow> int \<Rightarrow> bytes outcome option" where
  "ring_read buf start stop \<equiv> collect (data buf) (buf_size buf) stop start []"

lemma buf_rel_ring:
  assumes "buf_rel N buf h ps"
  shows "buf_size buf = int (length (data buf))" "length (data buf) = N" "0 < N" "N \<le> length h"
    "buf_end buf = int (length h mod N)"
  using assms by (simp_all add: buf_rel_def)

lemma read_recent:
  assumes R: "buf_rel N buf h ps" and p: "p \<le> length h" "length h < p + N"
  shows "ring_read buf (int (p mod N)) (int (length h mod N)) = map_option Returns (spec_recent N h p)"
proof -
  note ring = buf_rel_ring [OF R]
  define k where "k = length h - p"
  have L: "length h = p + k" using p by (simp add: k_def)
  have kN: "k < N" using p by (simp add: k_def)
  have aN: "p mod N < N" using ring by simp
  consider "k = 0" | "0 < k" "p mod N + k < N" | "0 < k" "p mod N + k = N" | "N < p mod N + k"
    by linarith
  then show ?thesis
  proof cases
    case 1
    with L show ?thesis by (simp add: spec_recent_def)
  next
    case 2
    then have m: "length h mod N = p mod N + k" by (simp add: L mod_add_below)
    have "ring_read buf (int (p mod N)) (int (length h mod N))
        = Some (Returns (take k (drop (p mod N) (data buf))))"
      using ring 2 m collect_slice [of "p mod N" "length h mod N" "data buf"] by simp
    with ring_contiguous [OF R p(1)] p 2 m show ?thesis by (simp add: spec_recent_def k_def)
  next
    case 3
    then have m: "length h mod N = 0" using mod_add_above [of N p k] kN ring L by simp
    have "p mod N \<noteq> 0" using 3 kN by simp
    then have "ring_read buf (int (p mod N)) 0 = None"
      using ring aN collect_diverges [of "int (p mod N)" "data buf"] by simp
    with m 3 L show ?thesis by (simp add: spec_recent_def)
  next
    case 4
    then have m: "length h mod N = p mod N + k - N" using mod_add_above [of N p k] kN ring L by simp
    have "ring_read buf (int (p mod N)) (int (length h mod N))
        = Some (Returns (drop (p mod N) (data buf) @ take (p mod N + k - N) (data buf)))"
      using ring m 4 kN aN collect_wrap [of "length h mod N" "p mod N" "data buf"] by simp
    moreover have "drop (p mod N) (data buf) @ take (p mod N + k - N) (data buf) = drop p h"
      using ring_wrapped [OF R p(1)] p 4 by (simp add: k_def)
    moreover have "length h mod N \<noteq> 0" using m 4 by simp
    ultimately show ?thesis by (simp add: spec_recent_def)
  qed
qed

lemma read_whole:
  assumes R: "buf_rel N buf h ps"
  defines "e \<equiv> buf_end buf"
  shows "ring_read buf e (if e = 0 then buf_size buf else e - 1) = map_option Returns (spec_whole N h)"
proof -
  note ring = buf_rel_ring [OF R]
  define p where "p = length h - N"
  have p: "p \<le> length h" "length h \<le> p + N" "length h - p = N" using ring by (simp_all add: p_def)
  have a: "p mod N = length h mod N" using ring by (simp add: p_def le_mod_geq [symmetric])
  have e: "e = int (length h mod N)" using ring by (simp add: e_def)
  have aN: "length h mod N < N" using ring by simp
  consider "length h mod N = 0" | "length h mod N = 1" | "1 < length h mod N" by linarith
  then show ?thesis
  proof cases
    case 1
    have "ring_read buf 0 (int N) = Some (Returns (drop 0 (data buf)))"
      using ring collect_slice [of 0 N "data buf"] by simp
    with ring_contiguous [OF R p(1,2)] p(3) 1 a e ring show ?thesis
      by (simp add: spec_whole_def keep_last_def p_def)
  next
    case 2
    with e aN ring collect_diverges [of 1 "data buf"] show ?thesis by (simp add: spec_whole_def)
  next
    case 3
    define q where "q = length h mod N"
    have q: "1 < q" "q < N" using 3 aN by (simp_all add: q_def)
    have "ring_read buf (int q) (int (q - 1))
        = Some (Returns (drop q (data buf) @ take (q - 1) (data buf)))"
      using ring q collect_wrap [of "q - 1" q "data buf"] by simp
    also have "drop q (data buf) @ take (q - 1) (data buf)
        = butlast (drop q (data buf) @ take q (data buf))"
      using q ring by (simp add: butlast_append butlast_take)
    also have "drop q (data buf) @ take q (data buf) = keep_last N h"
      using ring_wrapped [OF R p(1,2)] p(3) a q by (simp add: q_def keep_last_def p_def)
    finally show ?thesis using q e by (simp add: spec_whole_def q_def)
  qed
qed

lemma read_unmarked:
  assumes R: "buf_rel N buf h ps"
  shows "ring_read buf 0 (buf_end buf)
       = map_option Returns (Some (keep_last (length h mod N) h))"
proof -
  note ring = buf_rel_ring [OF R]
  define p where "p = length h - length h mod N"
  have aN: "length h mod N < N" using ring by simp
  have p: "p \<le> length h" "length h \<le> p + N" "length h - p = length h mod N"
    using aN mod_less_eq_dividend [of "length h" N] by (simp_all add: p_def)
  have p0: "p mod N = 0" by (simp add: p_def minus_mod_eq_mult_div)
  have "ring_read buf 0 (buf_end buf) = Some (Returns (take (length h mod N) (data buf)))"
    using ring aN collect_slice [of 0 "length h mod N" "data buf"] by simp
  with ring_contiguous [OF R p(1,2)] p p0 aN show ?thesis by (simp add: keep_last_def p_def)
qed

lemma getSinceMarker_read:
  "window buf mid = (start, stop) \<Longrightarrow> ring_read buf start stop = map_option Returns x \<Longrightarrow>
   getSinceMarker mid buf = map_option (\<lambda>r. Returns (r, drop_marker mid buf)) x"
  by (cases x) (simp_all add: getSinceMarker_def)

theorem getSinceMarker_rel:
  assumes R: "buf_rel N buf h ps"
  shows "getSinceMarker mid buf
       = map_option (\<lambda>r. Returns (r, drop_marker mid buf)) (spec_get N h ps mid)"
proof -
  have mk: "markers buf mid = map_option (marker_val N (length h)) (ps mid)"
    and le: "\<And>p. ps mid = Some p \<Longrightarrow> p \<le> length h"
    using R by (auto simp: buf_rel_def)
  show ?thesis
  proof (cases "mid = - 1")
    case True
    with getSinceMarker_read [OF _ read_whole [OF R], of mid] show ?thesis
      by (simp add: window_def spec_get_def Let_def)
  next
    case False
    show ?thesis
    proof (cases "ps mid")
      case None
      with False mk getSinceMarker_read [OF _ read_unmarked [OF R], of mid] show ?thesis
        by (simp add: window_def marker_at_def spec_get_def)
    next
      case (Some p)
      show ?thesis
      proof (cases "length h < p + N")
        case True
        note read = read_recent [OF R le [OF Some] True]
        from True False Some mk getSinceMarker_read [OF _ read, of mid] buf_rel_ring [OF R]
        show ?thesis
          by (simp add: window_def marker_at_def marker_val_def spec_get_def)
      next
        case lost: False
        with False Some mk getSinceMarker_read [OF _ read_whole [OF R], of mid] show ?thesis
          by (simp add: window_def marker_at_def marker_val_def spec_get_def Let_def)
      qed
    qed
  qed
qed

subsection \<open>The contract of an output history\<close>

text \<open>
  What the panes rely on. \<open>reads h ps m\<close> is what a read of marker \<open>m\<close> delivers when the
  history is \<open>h\<close> and the markers stand at \<open>ps\<close>, \<open>None\<close> when it does not return. A client runs
  a sequence of operations; \<open>run_ops\<close> collects what its reads deliver.
\<close>

datatype history_op = Print bytes | Mark int | Fetch int

fun run_ops ::
  "(bytes \<Rightarrow> 'b \<Rightarrow> 'b option) \<Rightarrow> (int \<Rightarrow> 'b \<Rightarrow> 'b) \<Rightarrow>
   (int \<Rightarrow> 'b \<Rightarrow> (bytes \<times> 'b) outcome option) \<Rightarrow>
   history_op list \<Rightarrow> 'b \<Rightarrow> bytes list outcome option" where
  "run_ops ad mk gt [] b = Some (Returns [])"
| "run_ops ad mk gt (Print x # ops) b =
     (case ad x b of None \<Rightarrow> Some Panics | Some c \<Rightarrow> run_ops ad mk gt ops c)"
| "run_ops ad mk gt (Mark m # ops) b = run_ops ad mk gt ops (mk m b)"
| "run_ops ad mk gt (Fetch m # ops) b =
     (case gt m b of
        None \<Rightarrow> None
      | Some Panics \<Rightarrow> Some Panics
      | Some (Returns (r, c)) \<Rightarrow>
          (case run_ops ad mk gt ops c of
             None \<Rightarrow> None
           | Some Panics \<Rightarrow> Some Panics
           | Some (Returns rs) \<Rightarrow> Some (Returns (r # rs))))"

definition forget :: "int \<Rightarrow> (int \<rightharpoonup> nat) \<Rightarrow> (int \<rightharpoonup> nat)" where
  "forget m ps = (if m = - 1 then ps else ps(m := None))"

fun spec_run ::
  "(bytes \<Rightarrow> (int \<rightharpoonup> nat) \<Rightarrow> int \<Rightarrow> bytes option) \<Rightarrow>
   history_op list \<Rightarrow> bytes \<Rightarrow> (int \<rightharpoonup> nat) \<Rightarrow> bytes list option" where
  "spec_run reads [] h ps = Some []"
| "spec_run reads (Print x # ops) h ps = spec_run reads ops (h @ x) ps"
| "spec_run reads (Mark m # ops) h ps = spec_run reads ops h (ps(m \<mapsto> length h))"
| "spec_run reads (Fetch m # ops) h ps =
     (case reads h ps m of
        None \<Rightarrow> None
      | Some r \<Rightarrow> map_option ((#) r) (spec_run reads ops h (forget m ps)))"

locale output_history =
  fixes ad :: "bytes \<Rightarrow> 'b \<Rightarrow> 'b option"
    and mk :: "int \<Rightarrow> 'b \<Rightarrow> 'b"
    and gt :: "int \<Rightarrow> 'b \<Rightarrow> (bytes \<times> 'b) outcome option"
    and rel :: "'b \<Rightarrow> bytes \<Rightarrow> (int \<rightharpoonup> nat) \<Rightarrow> bool"
    and reads :: "bytes \<Rightarrow> (int \<rightharpoonup> nat) \<Rightarrow> int \<Rightarrow> bytes option"
  assumes print_law: "rel b h ps \<Longrightarrow> \<exists>c. ad x b = Some c \<and> rel c (h @ x) ps"
    and mark_law: "rel b h ps \<Longrightarrow> rel (mk m b) h (ps(m \<mapsto> length h))"
    and fetch_none: "rel b h ps \<Longrightarrow> reads h ps m = None \<Longrightarrow> gt m b = None"
    and fetch_some: "rel b h ps \<Longrightarrow> reads h ps m = Some r \<Longrightarrow>
      \<exists>c. gt m b = Some (Returns (r, c)) \<and> rel c h (forget m ps)"
begin

lemma run_refines:
  "rel b h ps \<Longrightarrow> run_ops ad mk gt ops b = map_option Returns (spec_run reads ops h ps)"
proof (induction ops arbitrary: b h ps)
  case Nil
  then show ?case by simp
next
  case (Cons x ops)
  show ?case
  proof (cases x)
    case (Print y)
    from print_law [OF Cons.prems, of y] obtain c where "ad y b = Some c" "rel c (h @ y) ps"
      by blast
    with Print Cons.IH [of c "h @ y" ps] show ?thesis by simp
  next
    case (Mark m)
    with Cons.IH [OF mark_law [OF Cons.prems, of m]] show ?thesis
      by (simp del: fun_upd_apply)
  next
    case (Fetch m)
    show ?thesis
    proof (cases "reads h ps m")
      case None
      with Fetch fetch_none [OF Cons.prems] show ?thesis by simp
    next
      case (Some r)
      from fetch_some [OF Cons.prems Some] obtain c
        where "gt m b = Some (Returns (r, c))" "rel c h (forget m ps)" by blast
      with Fetch Some Cons.IH [of c h "forget m ps"] show ?thesis
        by (cases "spec_run reads ops h (forget m ps)") simp_all
    qed
  qed
qed

lemma prints_law:
  "rel b h ps \<Longrightarrow> \<exists>c. each ad xs b = Some c \<and> rel c (h @ concat xs) ps"
proof (induction xs arbitrary: b h)
  case Nil
  then show ?case by simp
next
  case (Cons x xs)
  from print_law [OF Cons.prems, of x] obtain c where "ad x b = Some c" "rel c (h @ x) ps"
    by blast
  with Cons.IH [of c "h @ x"] show ?case by simp
qed

lemma since_mark:
  assumes "rel b h ps" and "each ad xs (mk m b) = Some c"
  shows "rel c (h @ concat xs) (ps(m \<mapsto> length h))"
  using prints_law [OF mark_law [OF assms(1)], of xs m] assms(2) by auto

end

lemma ring_fetch_some:
  "buf_rel N b h ps \<Longrightarrow> spec_get N h ps m = Some r \<Longrightarrow>
   \<exists>c. getSinceMarker m b = Some (Returns (r, c)) \<and> buf_rel N c h (forget m ps)"
  using getSinceMarker_rel [of N b h ps m] drop_marker_rel [of N b h ps m]
  by (auto simp: forget_def drop_marker_def)

interpretation ring: output_history add mark getSinceMarker "buf_rel N" "spec_get N"
  for N
proof unfold_locales
  show "\<And>b h ps x. buf_rel N b h ps \<Longrightarrow> \<exists>c. add x b = Some c \<and> buf_rel N c (h @ x) ps"
    by (rule add_rel)
  show "\<And>b h ps m. buf_rel N b h ps \<Longrightarrow> buf_rel N (mark m b) h (ps(m \<mapsto> length h))"
    by (rule mark_rel)
  show "\<And>b h ps m. buf_rel N b h ps \<Longrightarrow> spec_get N h ps m = None \<Longrightarrow> getSinceMarker m b = None"
    by (simp add: getSinceMarker_rel)
  show "\<And>b h ps m r. buf_rel N b h ps \<Longrightarrow> spec_get N h ps m = Some r \<Longrightarrow>
      \<exists>c. getSinceMarker m b = Some (Returns (r, c)) \<and> buf_rel N c h (forget m ps)"
    by (rule ring_fetch_some)
qed

subsection \<open>Properties\<close>

text \<open>C22. Refinement: whatever a pane prints, marks and fetches, in any order, from a new buffer
  of \<open>N > 0\<close> bytes, the ring never panics and its reads deliver exactly what the history
  specification says, a read that never returns included.\<close>

theorem ring_refines_history:
  assumes "0 < N" and "newBuffer (int N) = Some b"
  shows "run_ops add mark getSinceMarker ops b
       = map_option Returns (spec_run (spec_get N) ops (blank N) Map.empty)"
  using ring.run_refines newBuffer_rel [OF assms(1)] assms(2) by fastforce

theorem ring_refines_history_witness:
  "run_ops add mark getSinceMarker [Print ''ab'', Mark 1, Print ''cd'', Fetch 1]
     \<lparr>markers = Map.empty, data = replicate 3 (CHR 0x00), buf_end = 0, buf_size = 3\<rparr>
   = Some (Returns [''cd''])"
proof -
  have n: "newBuffer (int 3) = Some \<lparr>markers = Map.empty, data = replicate 3 (CHR 0x00),
      buf_end = 0, buf_size = 3\<rparr>"
    by (simp add: newBuffer_def)
  have "(0::nat) < 3" by simp
  from ring_refines_history [OF this n, of "[Print ''ab'', Mark 1, Print ''cd'', Fetch 1]"]
  show ?thesis
    by (simp add: spec_get_def spec_recent_def blank_def)
qed

lemma marked_ring:
  assumes "0 < N" and "newBuffer (int N) = Some b" and "each add pre b = Some b1"
    and "each add post (mark m b1) = Some b2"
  shows "buf_rel N b2 (blank N @ concat pre @ concat post) [m \<mapsto> N + length (concat pre)]"
proof -
  have "buf_rel N b (blank N) Map.empty" using newBuffer_rel [OF assms(1)] assms(2) by auto
  then have "buf_rel N b1 (blank N @ concat pre) Map.empty"
    using ring.prints_law [of N b "blank N" Map.empty pre] assms(3) by auto
  from ring.since_mark [OF this assms(4)] show ?thesis by simp
qed

lemma marked_ring_exists:
  assumes "0 < N"
  obtains b b1 b2 where "newBuffer (int N) = Some b" "each add pre b = Some b1"
    "each add post (mark m b1) = Some b2"
proof -
  from newBuffer_rel [OF assms] obtain b
    where b: "newBuffer (int N) = Some b" "buf_rel N b (blank N) Map.empty" by blast
  from ring.prints_law [OF b(2)] obtain b1
    where b1: "each add pre b = Some b1" "buf_rel N b1 (blank N @ concat pre) Map.empty" by blast
  from ring.prints_law [OF ring.mark_law [OF b1(2), of m]] obtain b2
    where "each add post (mark m b1) = Some b2" by blast
  with b b1 that show thesis by blast
qed

text \<open>C23. A marker gives back what was printed since: with fewer than \<open>N\<close> bytes printed after
  the mark, \<open>GetSinceMarker\<close> returns exactly those bytes, unless the ring's end came to stand
  at index 0, that is, unless the number of bytes printed in all is a multiple of \<open>N\<close>.\<close>

theorem restore_exact:
  assumes "0 < N" and "newBuffer (int N) = Some b" and "each add pre b = Some b1"
    and "each add post (mark m b1) = Some b2" and "m \<noteq> - 1"
    and "length (concat post) < N"
    and "concat post = [] \<or> (length (concat pre) + length (concat post)) mod N \<noteq> 0"
  shows "\<exists>b3. getSinceMarker m b2 = Some (Returns (concat post, b3))"
proof -
  note R = marked_ring [OF assms(1-4)]
  show ?thesis
    using assms(5-7) getSinceMarker_rel [OF R, of m]
    by (auto simp: spec_get_def spec_recent_def)
qed

theorem restore_exact_witness:
  "\<exists>b b1 b2 b3. newBuffer (int 3) = Some b \<and> each add [''ab''] b = Some b1 \<and>
     each add [''c'', ''d''] (mark 7 b1) = Some b2 \<and>
     getSinceMarker 7 b2 = Some (Returns (''cd'', b3))"
proof -
  have "(0::nat) < 3" by simp
  then obtain b b1 b2 where b: "newBuffer (int 3) = Some b" "each add [''ab''] b = Some b1"
    "each add [''c'', ''d''] (mark 7 b1) = Some b2" by (rule marked_ring_exists)
  have "\<exists>b3. getSinceMarker 7 b2 = Some (Returns (concat [''c'', ''d''], b3))"
    by (rule restore_exact [OF _ b]) simp_all
  with b show ?thesis by auto
qed

text \<open>C24. Exactly when a read of a marker never returns: the loop of \<open>GetSinceMarker\<close> runs
  forever (with the buffer's mutex held) iff something was printed since, less than \<open>N\<close> bytes,
  and the total is a multiple of \<open>N\<close>, or the marker is lost and the total is one more than a
  multiple of \<open>N > 1\<close>.\<close>

theorem restore_hangs_iff:
  assumes "0 < N" and "newBuffer (int N) = Some b" and "each add pre b = Some b1"
    and "each add post (mark m b1) = Some b2" and "m \<noteq> - 1"
  defines "printed \<equiv> length (concat pre) + length (concat post)"
  shows "getSinceMarker m b2 = None \<longleftrightarrow>
    (if length (concat post) < N then concat post \<noteq> [] \<and> printed mod N = 0
     else printed mod N = 1)"
  using assms(5) getSinceMarker_rel [OF marked_ring [OF assms(1-4)], of m]
  by (auto simp: spec_get_def spec_recent_def spec_whole_def printed_def)

theorem restore_hangs_iff_witness:
  "\<exists>b b1 b2. newBuffer (int 3) = Some b \<and> each add [''ab''] b = Some b1 \<and>
     each add [''c''] (mark 7 b1) = Some b2 \<and> getSinceMarker 7 b2 = None"
proof -
  have "(0::nat) < 3" by simp
  then obtain b b1 b2 where b: "newBuffer (int 3) = Some b" "each add [''ab''] b = Some b1"
    "each add [''c''] (mark 7 b1) = Some b2" by (rule marked_ring_exists)
  have "getSinceMarker 7 b2 = None" using restore_hangs_iff [OF _ b] by simp
  with b show ?thesis by blast
qed

text \<open>A lost marker: when \<open>N\<close> bytes or more were printed since, a read that returns gives
  the last \<open>N\<close> bytes printed if the ring's end stands at index 0, and otherwise the last \<open>N\<close>
  bytes without the newest one, not all the buffer's data.\<close>

lemma lost_marker_read:
  assumes "0 < N" and "newBuffer (int N) = Some b" and "each add pre b = Some b1"
    and "each add post (mark m b1) = Some b2" and "N \<le> length (concat post)"
    and "getSinceMarker m b2 = Some (Returns (r, b3))"
  shows "r = (if (length (concat pre) + length (concat post)) mod N = 0
              then keep_last N (concat post) else butlast (keep_last N (concat post)))"
proof -
  have k: "keep_last N (blank N @ concat pre @ concat post) = keep_last N (concat post)"
    using assms(5) by (simp add: keep_last_def)
  show ?thesis
    using assms(5,6) k getSinceMarker_rel [OF marked_ring [OF assms(1-4)], of m]
    by (auto simp: spec_get_def spec_whole_def split: if_splits)
qed

lemma lost_marker_read_example:
  "\<exists>b b1 b2 b3. newBuffer (int 4) = Some b \<and> each add [''z''] b = Some b1 \<and>
     each add [''abcdef''] (mark 7 b1) = Some b2 \<and>
     getSinceMarker 7 b2 = Some (Returns (''cde'', b3))"
proof -
  have N: "(0::nat) < 4" by simp
  then obtain b b1 b2 where b: "newBuffer (int 4) = Some b" "each add [''z''] b = Some b1"
    "each add [''abcdef''] (mark 7 b1) = Some b2" by (rule marked_ring_exists)
  obtain r b3 where r: "getSinceMarker 7 b2 = Some (Returns (r, b3))"
    using getSinceMarker_rel [OF marked_ring [OF N b], of 7]
    by (auto simp: spec_get_def spec_whole_def)
  have "r = ''cde''" using lost_marker_read [OF N b _ r] by (simp add: keep_last_def)
  with b r show ?thesis by blast
qed

end
