(* ===== verification/Registries.thy ===== *)
theory Registries
  imports Prelude
begin

section \<open>The tables of panes and clients: peers/panes_db.go and peers/clients_db.go\<close>

text \<open>
  \<open>PanesDB\<close> maps pane ids to panes, \<open>ClientsDB\<close> client ids to clients, a client being a data
  channel with the pane and the peer it belongs to. Pointers are references (\<open>nat\<close>): panes and
  peers live in the stores of the agent's state, data channels are objects of the WebRTC
  library. Two facts about objects outside the tables are arguments of the operations that use
  them: \<open>pid\<close>, the \<open>ID\<close> field of a pane, and \<open>dcid\<close>, the value of \<open>DataChannel.ID()\<close>, which is a
  pointer and compared as one (\<open>None\<close> for nil).
\<close>

type_synonym pane_ref = nat
type_synonym peer_ref = nat
type_synonym dc = nat

subsection \<open>What a table with generated ids promises\<close>

text \<open>\<open>left db\<close> is the number of ids the table can still give out before its counter wraps.\<close>

fun put_all :: "('v \<Rightarrow> 'db \<Rightarrow> 'db \<times> int) \<Rightarrow> 'v list \<Rightarrow> 'db \<Rightarrow> 'db \<times> int list" where
  "put_all pt [] db = (db, [])"
| "put_all pt (v # vs) db =
     (let (db1, i) = pt v db; (db2, is) = put_all pt vs db1 in (db2, i # is))"

locale id_registry =
  fixes pt :: "'v \<Rightarrow> 'db \<Rightarrow> 'db \<times> int"
    and look :: "'db \<Rightarrow> int \<Rightarrow> 'v option"
    and inv :: "'db \<Rightarrow> bool"
    and left :: "'db \<Rightarrow> nat"
  assumes put_fresh: "inv db \<Longrightarrow> 0 < left db \<Longrightarrow> pt v db = (db', i) \<Longrightarrow> look db i = None"
    and put_look: "inv db \<Longrightarrow> 0 < left db \<Longrightarrow> pt v db = (db', i) \<Longrightarrow> look db' = (look db)(i \<mapsto> v)"
    and put_inv: "inv db \<Longrightarrow> 0 < left db \<Longrightarrow> pt v db = (db', i) \<Longrightarrow> inv db'"
    and put_left: "inv db \<Longrightarrow> 0 < left db \<Longrightarrow> pt v db = (db', i) \<Longrightarrow> left db' = left db - 1"
begin

lemmas put_laws = put_fresh put_look put_inv put_left

lemma put_all_laws:
  assumes "inv db" and "length vs \<le> left db" and "put_all pt vs db = (db', is)"
  shows "length is = length vs" and "distinct is" and "\<forall>i \<in> set is. look db i = None"
    and "look db' = (look db)(is [\<mapsto>] vs)" and "inv db'"
proof -
  have "length is = length vs \<and> distinct is \<and> (\<forall>i \<in> set is. look db i = None) \<and>
      look db' = (look db)(is [\<mapsto>] vs) \<and> inv db'"
    using assms
  proof (induction vs arbitrary: db "is")
    case Nil
    then show ?case by simp
  next
    case (Cons v vs)
    obtain db1 i where p: "pt v db = (db1, i)" by fastforce
    obtain js where q: "put_all pt vs db1 = (db', js)" and "is": "is = i # js"
      using Cons.prems(3) p by (auto split: prod.splits)
    have room: "0 < left db" using Cons.prems(2) by simp
    note laws = put_laws [OF Cons.prems(1) room p]
    have IH: "length js = length vs \<and> distinct js \<and> (\<forall>j \<in> set js. look db1 j = None) \<and>
        look db' = (look db1)(js [\<mapsto>] vs) \<and> inv db'"
      using Cons.prems(2) laws q by (intro Cons.IH) simp_all
    have "\<forall>j \<in> set js. j \<noteq> i \<and> look db j = None"
      using IH laws(2) by (metis fun_upd_apply option.distinct(1))
    with IH laws "is" show ?case by auto
  qed
  then show "length is = length vs" "distinct is" "\<forall>i \<in> set is. look db i = None"
    "look db' = (look db)(is [\<mapsto>] vs)" "inv db'" by auto
qed

end

subsection \<open>PanesDB\<close>

record panesDB =
  panes :: "int \<rightharpoonup> pane_ref"
  nextID :: int

definition newPanesDB :: panesDB where
  "newPanesDB = \<lparr>panes = Map.empty, nextID = 0\<rparr>"

text \<open>\<open>Add\<close> also stores the id it returns here in the \<open>ID\<close> field of the pane.\<close>

definition panes_add :: "pane_ref \<Rightarrow> panesDB \<Rightarrow> panesDB \<times> int" where
  "panes_add p pd =
     (let n = go_inc (nextID pd) in (pd\<lparr>nextID := n, panes := (panes pd)(n \<mapsto> p)\<rparr>, n))"

definition panes_all :: "int list \<Rightarrow> panesDB \<Rightarrow> pane_ref list" where
  "panes_all ks pd = range_values (panes pd) ks"

text \<open>The error is \<open>pane id not found\<close>.\<close>

definition panes_delete :: "int \<Rightarrow> panesDB \<Rightarrow> int + panesDB" where
  "panes_delete i pd =
     (if panes pd i = None then Inl i else Inr (pd\<lparr>panes := (panes pd)(i := None)\<rparr>))"

definition panes_get :: "int \<Rightarrow> panesDB \<Rightarrow> pane_ref option" where
  "panes_get i pd = panes pd i"

definition panes_inv :: "panesDB \<Rightarrow> bool" where
  "panes_inv pd \<longleftrightarrow> 0 \<le> nextID pd \<and> nextID pd \<le> max_int \<and>
     (\<forall>i p. panes pd i = Some p \<longrightarrow> 1 \<le> i \<and> i \<le> nextID pd)"

definition panes_left :: "panesDB \<Rightarrow> nat" where
  "panes_left pd = nat (max_int - nextID pd)"

lemma newPanesDB_inv [inv_intro]: "panes_inv newPanesDB"
  by (simp add: panes_inv_def newPanesDB_def max_int_def)

lemma panes_add_inv [inv_intro]:
  "panes_inv pd \<Longrightarrow> 0 < panes_left pd \<Longrightarrow> panes_inv (fst (panes_add p pd))"
  by (auto simp: panes_inv_def panes_left_def panes_add_def Let_def split: if_splits)

lemma panes_delete_inv [inv_intro]:
  "panes_inv pd \<Longrightarrow> panes_delete i pd = Inr pd' \<Longrightarrow> panes_inv pd'"
  by (auto simp: panes_inv_def panes_delete_def split: if_splits)

interpretation pane_table: id_registry panes_add "\<lambda>pd i. panes_get i pd" panes_inv panes_left
proof unfold_locales
  fix pd pd' :: panesDB and p i
  assume inv: "panes_inv pd" and room: "0 < panes_left pd" and add: "panes_add p pd = (pd', i)"
  show "panes_get i pd = None"
  proof (cases "panes pd i")
    case (Some q)
    have "i = nextID pd + 1" using room add by (auto simp: panes_left_def panes_add_def Let_def)
    with inv Some show ?thesis by (force simp: panes_inv_def)
  qed (simp add: panes_get_def)
  show "(\<lambda>j. panes_get j pd') = (\<lambda>j. panes_get j pd)(i \<mapsto> p)"
    using add by (auto simp: panes_add_def panes_get_def Let_def)
  show "panes_inv pd'" using panes_add_inv [OF inv room, of p] add by simp
  show "panes_left pd' = panes_left pd - 1"
    using room add by (auto simp: panes_left_def panes_add_def Let_def)
qed

subsection \<open>ClientsDB\<close>

record client =
  c_dc :: dc
  c_pane :: pane_ref
  c_peer :: peer_ref
  c_id :: int

record clientsDB =
  clients :: "int \<rightharpoonup> client"
  lastID :: int

definition newClientsDB :: clientsDB where
  "newClientsDB = \<lparr>clients = Map.empty, lastID = 0\<rparr>"

definition clients_add :: "dc \<Rightarrow> pane_ref \<Rightarrow> peer_ref \<Rightarrow> clientsDB \<Rightarrow> clientsDB \<times> client" where
  "clients_add d pane peer db =
     (let i = lastID db;
          c = \<lparr>c_dc = d, c_pane = pane, c_peer = peer, c_id = i\<rparr>
      in (db\<lparr>lastID := go_inc i, clients := (clients db)(i \<mapsto> c)\<rparr>, c))"

definition clients_len :: "clientsDB \<Rightarrow> nat" where
  "clients_len db = card (dom (clients db))"

definition all4Peer :: "int list \<Rightarrow> peer_ref \<Rightarrow> clientsDB \<Rightarrow> client list" where
  "all4Peer ks peer db = filter (\<lambda>c. c_peer c = peer) (range_values (clients db) ks)"

definition all4Pane :: "(pane_ref \<Rightarrow> int) \<Rightarrow> int list \<Rightarrow> pane_ref \<Rightarrow> clientsDB \<Rightarrow> client list" where
  "all4Pane pid ks pane db = filter (\<lambda>c. pid (c_pane c) = pid pane) (range_values (clients db) ks)"

text \<open>\<open>Delete\<close> ranges over the table and removes the first client whose channel has the same
  \<open>ID()\<close> pointer and whose pane has the same id as the client it is given.\<close>

definition same_client :: "(dc \<Rightarrow> nat option) \<Rightarrow> (pane_ref \<Rightarrow> int) \<Rightarrow> client \<Rightarrow> client \<Rightarrow> bool" where
  "same_client dcid pid v c \<longleftrightarrow> dcid (c_dc v) = dcid (c_dc c) \<and> pid (c_pane v) = pid (c_pane c)"

fun first_key :: "('k \<Rightarrow> bool) \<Rightarrow> 'k list \<Rightarrow> 'k option" where
  "first_key P [] = None"
| "first_key P (k # ks) = (if P k then Some k else first_key P ks)"

definition clients_delete ::
  "(dc \<Rightarrow> nat option) \<Rightarrow> (pane_ref \<Rightarrow> int) \<Rightarrow> int list \<Rightarrow> client \<Rightarrow> clientsDB \<Rightarrow> client + clientsDB" where
  "clients_delete dcid pid ks c db =
     (case first_key (\<lambda>k. case clients db k of None \<Rightarrow> False | Some v \<Rightarrow> same_client dcid pid v c) ks of
        None \<Rightarrow> Inl c
      | Some k \<Rightarrow> Inr (db\<lparr>clients := (clients db)(k := None)\<rparr>))"

lemma first_key_Some: "first_key P ks = Some k \<Longrightarrow> k \<in> set ks \<and> P k"
  by (induction ks) (auto split: if_splits)

lemma first_key_None: "first_key P ks = None \<longleftrightarrow> (\<forall>k \<in> set ks. \<not> P k)"
  by (induction ks) auto

definition clients_inv :: "clientsDB \<Rightarrow> bool" where
  "clients_inv db \<longleftrightarrow> finite (dom (clients db)) \<and> 0 \<le> lastID db \<and> lastID db \<le> max_int \<and>
     (\<forall>i c. clients db i = Some c \<longrightarrow> c_id c = i \<and> 0 \<le> i \<and> i < lastID db)"

definition clients_left :: "clientsDB \<Rightarrow> nat" where
  "clients_left db = nat (max_int - lastID db)"

lemma newClientsDB_inv [inv_intro]: "clients_inv newClientsDB"
  by (simp add: clients_inv_def newClientsDB_def max_int_def)

lemma clients_add_inv [inv_intro]:
  "clients_inv db \<Longrightarrow> 0 < clients_left db \<Longrightarrow> clients_inv (fst (clients_add d pane peer db))"
  by (fastforce simp: clients_inv_def clients_left_def clients_add_def Let_def split: if_splits)

lemma clients_delete_Inr:
  assumes "clients_delete dcid pid ks c db = Inr db'" and "range_order (clients db) ks"
  obtains k v where "clients db k = Some v" "same_client dcid pid v c"
    "db' = db\<lparr>clients := (clients db)(k := None)\<rparr>"
  using assms first_key_Some
  by (fastforce simp: clients_delete_def split: option.splits dest!: first_key_Some)

lemma clients_delete_Inl:
  assumes "clients_delete dcid pid ks c db = Inl e" and "range_order (clients db) ks"
    and "clients db k = Some v"
  shows "\<not> same_client dcid pid v c"
  using assms range_order_in [OF assms(2), of k]
  by (fastforce simp: clients_delete_def first_key_None split: option.splits)

lemma clients_delete_inv [inv_intro]:
  assumes "clients_inv db" and "clients_delete dcid pid ks c db = Inr db'"
  shows "clients_inv db'"
  using assms by (auto simp: clients_inv_def clients_delete_def split: option.splits if_splits)

text \<open>The table as its users see it: who is on which channel.\<close>

definition client_put :: "dc \<times> pane_ref \<times> peer_ref \<Rightarrow> clientsDB \<Rightarrow> clientsDB \<times> int" where
  "client_put v db = (case v of (d, pane, peer) \<Rightarrow>
     (case clients_add d pane peer db of (db', c) \<Rightarrow> (db', c_id c)))"

definition client_look :: "clientsDB \<Rightarrow> int \<Rightarrow> (dc \<times> pane_ref \<times> peer_ref) option" where
  "client_look db i = map_option (\<lambda>c. (c_dc c, c_pane c, c_peer c)) (clients db i)"

interpretation client_table: id_registry client_put client_look clients_inv clients_left
proof unfold_locales
  fix db db' :: clientsDB and v i
  assume inv: "clients_inv db" and room: "0 < clients_left db" and add: "client_put v db = (db', i)"
  obtain d pane peer where v: "v = (d, pane, peer)" by (cases v)
  from add v have db': "db' = fst (clients_add d pane peer db)" and i: "i = lastID db"
    by (auto simp: client_put_def clients_add_def Let_def)
  show "client_look db i = None"
    using inv i by (cases "clients db i") (auto simp: client_look_def clients_inv_def)
  show "client_look db' = (client_look db)(i \<mapsto> v)"
    using db' i v by (auto simp: client_look_def clients_add_def Let_def)
  show "clients_inv db'" using clients_add_inv [OF inv room] db' by simp
  show "clients_left db' = clients_left db - 1"
    using room db' by (auto simp: clients_left_def clients_add_def Let_def)
qed

subsection \<open>Removing the clients of a pane\<close>

text \<open>
  \<open>Kill\<close> asks for all the clients of a pane and deletes them one by one. Each \<open>Delete\<close> may
  remove another client than the one it is given, if their channels have the same \<open>ID()\<close>
  pointer (two channels whose id is not negotiated yet: both nil). All the same, nobody is
  left. The orders of the ranges are given by \<open>ord\<close>.
\<close>

definition good_order :: "(('k \<rightharpoonup> 'v) \<Rightarrow> 'k list) \<Rightarrow> bool" where
  "good_order ord \<longleftrightarrow> (\<forall>m. finite (dom m) \<longrightarrow> range_order m (ord m))"

fun delete_clients ::
  "(dc \<Rightarrow> nat option) \<Rightarrow> (pane_ref \<Rightarrow> int) \<Rightarrow> ((int \<rightharpoonup> client) \<Rightarrow> int list) \<Rightarrow>
   client list \<Rightarrow> clientsDB \<Rightarrow> clientsDB" where
  "delete_clients dcid pid ord [] db = db"
| "delete_clients dcid pid ord (c # cs) db =
     (case clients_delete dcid pid (ord (clients db)) c db of
        Inl _ \<Rightarrow> delete_clients dcid pid ord cs db
      | Inr db' \<Rightarrow> delete_clients dcid pid ord cs db')"

definition alike :: "(dc \<Rightarrow> nat option) \<Rightarrow> (pane_ref \<Rightarrow> int) \<Rightarrow> client \<Rightarrow> clientsDB \<Rightarrow> int set" where
  "alike dcid pid c db = {k. \<exists>v. clients db k = Some v \<and> same_client dcid pid v c}"

lemma alike_subset: "alike dcid pid c db \<subseteq> dom (clients db)"
  by (auto simp: alike_def)

lemma same_client_trans:
  "same_client dcid pid a b \<Longrightarrow> same_client dcid pid a c \<longleftrightarrow> same_client dcid pid b c"
  by (auto simp: same_client_def)

lemma delete_alike:
  assumes o: "range_order (clients db) ks" and c: "same_client dcid pid c x"
    and ne: "alike dcid pid x db \<noteq> {}"
  shows "\<exists>db' k. clients_delete dcid pid ks c db = Inr db' \<and> k \<in> alike dcid pid x db \<and>
    db' = db\<lparr>clients := (clients db)(k := None)\<rparr>"
proof (cases "clients_delete dcid pid ks c db")
  case (Inl e)
  from ne obtain k v where "clients db k = Some v" "same_client dcid pid v x"
    by (auto simp: alike_def)
  with clients_delete_Inl [OF Inl o] c show ?thesis by (auto simp: same_client_def)
next
  case (Inr db')
  then obtain k v where "clients db k = Some v" "same_client dcid pid v c"
    "db' = db\<lparr>clients := (clients db)(k := None)\<rparr>"
    using o by (rule clients_delete_Inr)
  with c Inr show ?thesis by (auto simp: alike_def same_client_def)
qed

lemma delete_other:
  assumes o: "range_order (clients db) ks" and c: "\<not> same_client dcid pid c x"
    and del: "clients_delete dcid pid ks c db = Inr db'"
  shows "alike dcid pid x db' = alike dcid pid x db"
proof -
  from del o obtain k v where "clients db k = Some v" "same_client dcid pid v c"
    "db' = db\<lparr>clients := (clients db)(k := None)\<rparr>" by (rule clients_delete_Inr)
  with c show ?thesis by (auto simp: alike_def same_client_def)
qed

lemma card_alike_delete_clients:
  assumes "good_order ord" and "clients_inv db"
  shows "card (alike dcid pid x (delete_clients dcid pid ord cs db))
       = card (alike dcid pid x db) - length (filter (\<lambda>c. same_client dcid pid c x) cs)"
  using assms(2)
proof (induction cs arbitrary: db)
  case Nil
  then show ?case by simp
next
  case (Cons c cs)
  define ks where "ks = ord (clients db)"
  have fin: "finite (dom (clients db))" using Cons.prems by (simp add: clients_inv_def)
  with assms(1) have o: "range_order (clients db) ks" by (simp add: good_order_def ks_def)
  have finx: "finite (alike dcid pid x db)" using alike_subset fin by (rule finite_subset)
  show ?case
  proof (cases "clients_delete dcid pid ks c db")
    case (Inl e)
    have "alike dcid pid x db = {}" if "same_client dcid pid c x"
      using delete_alike [OF o that] Inl by auto
    with Inl Cons.IH [OF Cons.prems] show ?thesis by (auto simp: ks_def)
  next
    case (Inr db')
    have inv': "clients_inv db'" by (rule clients_delete_inv [OF Cons.prems Inr])
    show ?thesis
    proof (cases "same_client dcid pid c x")
      case True
      have "card (alike dcid pid x db') = card (alike dcid pid x db) - 1"
      proof (cases "alike dcid pid x db = {}")
        case empty: True
        from Inr o obtain k v where "clients db k = Some v" "same_client dcid pid v c"
          by (rule clients_delete_Inr)
        with True empty show ?thesis by (auto simp: alike_def same_client_def)
      next
        case False
        from delete_alike [OF o True False] Inr obtain k
          where k: "k \<in> alike dcid pid x db" "db' = db\<lparr>clients := (clients db)(k := None)\<rparr>" by auto
        then have "alike dcid pid x db' = alike dcid pid x db - {k}" by (auto simp: alike_def)
        with k finx show ?thesis by simp
      qed
      with Inr Cons.IH [OF inv'] True show ?thesis by (simp add: ks_def)
    next
      case False
      with Inr Cons.IH [OF inv'] delete_other [OF o False Inr] show ?thesis by (simp add: ks_def)
    qed
  qed
qed

lemma delete_clients_inv [inv_intro]:
  "clients_inv db \<Longrightarrow> clients_inv (delete_clients dcid pid ord cs db)"
proof (induction cs arbitrary: db)
  case (Cons c cs)
  then show ?case
    by (cases "clients_delete dcid pid (ord (clients db)) c db") (auto dest: clients_delete_inv)
qed simp

lemma delete_clients_subset:
  "clients (delete_clients dcid pid ord cs db) k = Some v \<Longrightarrow> clients db k = Some v"
proof (induction cs arbitrary: db)
  case (Cons c cs)
  then show ?case
    by (cases "clients_delete dcid pid (ord (clients db)) c db")
      (fastforce simp: clients_delete_def split: option.splits if_splits)+
qed simp

lemma length_filter_range_values:
  assumes "range_order m ks"
  shows "length (filter P (range_values m ks)) = card {k. \<exists>v. m k = Some v \<and> P v}"
proof -
  have "length (filter P (range_values m ks)) = length (filter (\<lambda>k. P (the (m k))) ks)"
    by (simp add: range_values_def filter_map o_def)
  also have "\<dots> = card (set (filter (\<lambda>k. P (the (m k))) ks))"
    using assms distinct_card [OF distinct_filter] by (metis range_order_def)
  also have "set (filter (\<lambda>k. P (the (m k))) ks) = {k. \<exists>v. m k = Some v \<and> P v}"
    using assms by (auto simp: range_order_def)
  finally show ?thesis .
qed

lemma all4Pane_cleared:
  assumes "good_order ord" and "clients_inv db"
    and "clients (delete_clients dcid pid ord (all4Pane pid (ord (clients db)) p db) db) k = Some v"
  shows "pid (c_pane v) \<noteq> pid p"
proof
  assume same: "pid (c_pane v) = pid p"
  define db' where "db' = delete_clients dcid pid ord (all4Pane pid (ord (clients db)) p db) db"
  have o: "range_order (clients db) (ord (clients db))"
    using assms(1,2) by (simp add: good_order_def clients_inv_def)
  have "filter (\<lambda>c. same_client dcid pid c v) (all4Pane pid (ord (clients db)) p db)
      = filter (\<lambda>c. same_client dcid pid c v) (range_values (clients db) (ord (clients db)))"
    using same by (auto simp: all4Pane_def same_client_def filter_filter intro!: filter_cong)
  then have "length (filter (\<lambda>c. same_client dcid pid c v) (all4Pane pid (ord (clients db)) p db))
      = card (alike dcid pid v db)"
    using length_filter_range_values [OF o] by (simp add: alike_def)
  then have "card (alike dcid pid v db') = 0"
    using card_alike_delete_clients [OF assms(1,2)] by (simp add: db'_def)
  moreover have "finite (alike dcid pid v db')"
  proof (rule finite_subset [OF alike_subset])
    show "finite (dom (clients db'))"
      using delete_clients_inv [OF assms(2)] by (simp add: clients_inv_def db'_def)
  qed
  ultimately have "alike dcid pid v db' = {}" by simp
  with assms(3) show False by (auto simp: alike_def db'_def same_client_def)
qed

subsection \<open>Properties\<close>

text \<open>The ids of the tables are fresh: while a counter has room, adding any number of clients (or
  of panes) gives each its own id, none of them in use before; each is found under its id, and
  whoever was in the table is still found under his.\<close>

lemma generated_ids_fresh:
  assumes "clients_inv db" and "length vs \<le> clients_left db" and "put_all client_put vs db = (db', is)"
    and "panes_inv pd" and "length ps \<le> panes_left pd" and "put_all panes_add ps pd = (pd', js)"
  shows "distinct is \<and> (\<forall>i \<in> set is. client_look db i = None) \<and>
    client_look db' = (client_look db)(is [\<mapsto>] vs) \<and>
    distinct js \<and> (\<forall>j \<in> set js. panes_get j pd = None) \<and>
    (\<lambda>j. panes_get j pd') = (\<lambda>j. panes_get j pd)(js [\<mapsto>] ps)"
  using client_table.put_all_laws [OF assms(1-3)] pane_table.put_all_laws [OF assms(4-6)] by blast

lemma generated_ids_fresh_example:
  "put_all panes_add [5, 6] newPanesDB = (\<lparr>panes = [1 \<mapsto> 5, 2 \<mapsto> 6], nextID = 2\<rparr>, [1, 2]) \<and>
   distinct [1, 2 :: int]"
proof -
  have p: "put_all panes_add [5, 6] newPanesDB = (\<lparr>panes = [1 \<mapsto> 5, 2 \<mapsto> 6], nextID = 2\<rparr>, [1, 2])"
    by (simp add: panes_add_def newPanesDB_def Let_def max_int_def)
  have "put_all client_put [(0, 0, 0)] newClientsDB
      = (fst (put_all client_put [(0, 0, 0)] newClientsDB), [0])"
    by (simp add: client_put_def clients_add_def newClientsDB_def Let_def)
  from generated_ids_fresh [OF newClientsDB_inv _ this newPanesDB_inv _ p] p show ?thesis
    by (simp add: clients_left_def panes_left_def newClientsDB_def newPanesDB_def max_int_def)
qed

end
