(* ===== verification/Go_Strings.thy ===== *)
theory Go_Strings
  imports Prelude
begin

section \<open>The string functions of the standard library\<close>

text \<open>
  The functions of Go's \<open>strings\<close>, \<open>strconv\<close>, \<open>fmt\<close> and \<open>bufio\<close> the program uses, on
  byte strings, with the round trips between printing and parsing decimal numbers.
\<close>

subsection \<open>strings\<close>

text \<open>\<open>strings.Split(s, sep)\<close> for a separator of one byte: always at least one field.\<close>

fun split_on :: "char \<Rightarrow> bytes \<Rightarrow> bytes list" where
  "split_on sep [] = [[]]"
| "split_on sep (c # cs) =
     (if c = sep then [] # split_on sep cs
      else (case split_on sep cs of [] \<Rightarrow> [[c]] | f # fs \<Rightarrow> (c # f) # fs))"

lemma split_on_nonempty [simp]: "split_on sep s \<noteq> []"
  by (cases s) (auto split: list.splits)

lemma split_on_no_sep: "sep \<notin> set s \<Longrightarrow> split_on sep s = [s]"
  by (induction s) auto

lemma split_on_append:
  "sep \<notin> set a \<Longrightarrow> split_on sep (a @ sep # b) = a # split_on sep b"
  by (induction a) auto

lemma split_on_fields: "f \<in> set (split_on sep s) \<Longrightarrow> sep \<notin> set f"
proof (induction s arbitrary: f)
  case Nil
  then show ?case by simp
next
  case (Cons c cs)
  obtain g gs where gs: "split_on sep cs = g # gs"
    by (cases "split_on sep cs") auto
  with Cons show ?case by (auto split: if_splits)
qed

text \<open>\<open>strings.Index(s, " ")\<close> followed by \<open>s[:i]\<close>: the text before the first \<open>sep\<close>.\<close>

definition before :: "char \<Rightarrow> bytes \<Rightarrow> bytes" where
  "before sep s = takeWhile (\<lambda>c. c \<noteq> sep) s"

lemma before_no_sep [simp]: "sep \<notin> set s \<Longrightarrow> before sep s = s"
  by (auto simp: before_def takeWhile_eq_all_conv)

lemma before_append [simp]: "sep \<notin> set s \<Longrightarrow> before sep (s @ sep # t) = s"
  by (induction s) (auto simp: before_def)

lemma sep_notin_before: "sep \<notin> set (before sep s)"
  by (auto simp: before_def dest: set_takeWhileD)

text \<open>\<open>strings.Replace(s, c, "", -1)\<close> for one byte, and \<open>strings.ToUpper\<close> on ASCII.\<close>

definition remove_all :: "char \<Rightarrow> bytes \<Rightarrow> bytes" where
  "remove_all c s = filter (\<lambda>d. d \<noteq> c) s"

definition is_lower :: "char \<Rightarrow> bool" where
  "is_lower c \<longleftrightarrow> 97 \<le> (of_char c :: nat) \<and> (of_char c :: nat) \<le> 122"

definition upper :: "char \<Rightarrow> char" where
  "upper c = (if is_lower c then char_of (of_char c - (32 :: nat)) else c)"

definition to_upper :: "bytes \<Rightarrow> bytes" where
  "to_upper s = map upper s"

lemma upper_code: "of_char (upper c) =
    (if is_lower c then (of_char c :: nat) - 32 else of_char c)"
proof -
  have "(of_char c :: nat) - 32 < 256" using nat_of_char_less_256 [of c] by linarith
  then show ?thesis by (simp add: upper_def of_char_of)
qed

lemma not_is_lower_upper [simp]: "\<not> is_lower (upper c)"
  by (auto simp: is_lower_def upper_code)

lemma upper_upper [simp]: "upper (upper c) = upper c"
  by (simp add: upper_def [of "upper c"])

lemma to_upper_to_upper [simp]: "to_upper (to_upper s) = to_upper s"
  by (simp add: to_upper_def)

lemma upper_colon [simp]: "upper c = CHR '':'' \<longleftrightarrow> c = CHR '':''"
proof
  assume u: "upper c = CHR '':''"
  then have "(of_char (upper c) :: nat) = 58" by simp
  then have "\<not> is_lower c" by (auto simp: upper_code is_lower_def split: if_splits)
  with u show "c = CHR '':''" by (simp add: upper_def)
qed (simp add: upper_def is_lower_def)

subsection \<open>Decimal numbers: strconv.Itoa, strconv.Atoi and the verb d\<close>

definition is_digit :: "char \<Rightarrow> bool" where
  "is_digit c \<longleftrightarrow> 48 \<le> (of_char c :: nat) \<and> (of_char c :: nat) \<le> 57"

definition digit :: "nat \<Rightarrow> char" where
  "digit d = char_of (48 + d)"

definition digit_val :: "char \<Rightarrow> nat" where
  "digit_val c = of_char c - 48"

lemma digit_val_digit [simp]: "d < 10 \<Longrightarrow> digit_val (digit d) = d"
  by (simp add: digit_val_def digit_def of_char_of)

lemma is_digit_digit [simp]: "d < 10 \<Longrightarrow> is_digit (digit d)"
  by (simp add: is_digit_def digit_def of_char_of)

fun show_nat :: "nat \<Rightarrow> bytes" where
  "show_nat n = (if n < 10 then [digit n] else show_nat (n div 10) @ [digit (n mod 10)])"

declare show_nat.simps [simp del]

definition show_int :: "int \<Rightarrow> bytes" where
  "show_int i = (if i < 0 then CHR ''-'' # show_nat (nat (- i)) else show_nat (nat i))"

definition digits_val :: "bytes \<Rightarrow> nat" where
  "digits_val ds = foldl (\<lambda>a c. 10 * a + digit_val c) 0 ds"

lemma digits_val_snoc: "digits_val (ds @ [c]) = 10 * digits_val ds + digit_val c"
  by (simp add: digits_val_def)

lemma show_nat_digits: "list_all is_digit (show_nat n)"
proof (induction n rule: show_nat.induct)
  case (1 n)
  then show ?case by (cases "n < 10") (simp_all add: show_nat.simps [of n])
qed

lemma show_nat_nonempty [simp]: "show_nat n \<noteq> []"
  by (simp add: show_nat.simps [of n])

lemma digits_val_show_nat [simp]: "digits_val (show_nat n) = n"
proof (induction n rule: show_nat.induct)
  case (1 n)
  then show ?case
    by (cases "n < 10") (simp_all add: show_nat.simps [of n] digits_val_snoc,
      simp add: digits_val_def)
qed

lemma show_nat_inject: "show_nat m = show_nat n \<longleftrightarrow> m = n"
  by (metis digits_val_show_nat)

definition atoi :: "bytes \<Rightarrow> int option" where
  "atoi s =
     (let neg = (take 1 s = ''-'');
          ds = (if neg \<or> take 1 s = ''+'' then drop 1 s else s);
          v = (if neg then - int (digits_val ds) else int (digits_val ds))
      in if ds = [] \<or> \<not> list_all is_digit ds \<or> \<not> int_ok v then None else Some v)"

lemma is_digit_not_sign [simp]: "\<not> is_digit CHR ''-''" "\<not> is_digit CHR ''+''"
  "\<not> is_digit CHR '',''" "\<not> is_digit CHR ''x''" "\<not> is_digit CHR '':''"
  "\<not> is_digit CHR ''>''" "\<not> is_digit CHR ''%''"
  by (simp_all add: is_digit_def)

lemma show_nat_hd: obtains c cs where "show_nat n = c # cs" "is_digit c"
proof -
  obtain c cs where "show_nat n = c # cs" by (cases "show_nat n") auto
  moreover from this have "is_digit c" using show_nat_digits [of n] by simp
  ultimately show ?thesis using that by blast
qed

theorem atoi_show_int: "int_ok i \<Longrightarrow> atoi (show_int i) = Some i"
proof (cases "i < 0")
  case True
  assume "int_ok i"
  with True show ?thesis
    by (simp add: atoi_def show_int_def show_nat_digits)
next
  case False
  assume ok: "int_ok i"
  obtain c cs where s: "show_nat (nat i) = c # cs" and d: "is_digit c"
    by (rule show_nat_hd)
  from d have "c \<noteq> CHR ''-''" "c \<noteq> CHR ''+''" by auto
  with False ok s show_nat_digits [of "nat i"] digits_val_show_nat [of "nat i"]
  show ?thesis by (simp add: atoi_def show_int_def Let_def)
qed

subsection \<open>White space and TrimSpace\<close>

text \<open>
  The length in bytes of the UTF-8 white space character a string starts with, 0 when it
  does not start with one: the characters of \<open>unicode.IsSpace\<close>, which are those \<open>fmt\<close>
  skips.
\<close>

definition ascii_space :: "char \<Rightarrow> bool" where
  "ascii_space c \<longleftrightarrow> (of_char c :: nat) \<in> {9, 10, 11, 12, 13, 32}"

definition wide_spaces :: "nat list list" where
  "wide_spaces = [[0xC2, 0x85], [0xC2, 0xA0], [0xE1, 0x9A, 0x80]]
     @ map (\<lambda>i. [0xE2, 0x80, 0x80 + i]) [0 ..< 11]
     @ [[0xE2, 0x80, 0xA8], [0xE2, 0x80, 0xA9], [0xE2, 0x80, 0xAF], [0xE2, 0x81, 0x9F],
        [0xE3, 0x80, 0x80]]"

definition space_len :: "bytes \<Rightarrow> nat" where
  "space_len s =
     (case s of [] \<Rightarrow> 0
      | c # cs \<Rightarrow> if ascii_space c then 1
                  else case filter (\<lambda>w. take (length w) (map of_char s) = w) wide_spaces of
                         [] \<Rightarrow> 0 | w # ws \<Rightarrow> length w)"

definition space_len_end :: "bytes \<Rightarrow> nat" where
  "space_len_end s =
     (case rev s of [] \<Rightarrow> 0
      | c # cs \<Rightarrow> if ascii_space c then 1
                  else case filter (\<lambda>w. take (length w) (map of_char (c # cs)) = rev w)
                              wide_spaces of
                         [] \<Rightarrow> 0 | w # ws \<Rightarrow> length w)"

fun trim_left :: "bytes \<Rightarrow> bytes" where
  "trim_left [] = []"
| "trim_left (c # cs) =
     (case space_len (c # cs) of 0 \<Rightarrow> c # cs | Suc n \<Rightarrow> trim_left (drop n cs))"

function trim_right :: "bytes \<Rightarrow> bytes" where
  "trim_right s =
     (if s = [] \<or> space_len_end s = 0 then s
      else trim_right (take (length s - space_len_end s) s))"
  by pat_completeness auto
termination
  by (relation "measure length") auto

declare trim_right.simps [simp del]

definition trim_space :: "bytes \<Rightarrow> bytes" where
  "trim_space s = trim_right (trim_left s)"

lemma not_space_digit: "is_digit c \<Longrightarrow> \<not> ascii_space c"
  by (auto simp: is_digit_def ascii_space_def)

lemma wide_spaces_high: "w \<in> set wide_spaces \<Longrightarrow> w \<noteq> [] \<and> 128 \<le> hd w \<and> 128 \<le> last w"
  by (auto simp: wide_spaces_def)

lemma space_len_digit [simp]:
  assumes "is_digit c" shows "space_len (c # cs) = 0"
proof -
  have low: "(of_char c :: nat) < 128" using assms by (simp add: is_digit_def)
  have "filter (\<lambda>w. take (length w) (map of_char (c # cs)) = w) wide_spaces = []"
  proof (rule filter_False, rule ballI)
    fix w assume "w \<in> set wide_spaces"
    then obtain b bs where "w = b # bs" "128 \<le> b"
      using wide_spaces_high by (metis list.collapse)
    with low show "take (length w) (map of_char (c # cs)) \<noteq> w" by auto
  qed
  with assms show ?thesis by (simp add: space_len_def not_space_digit)
qed

lemma space_len_end_digit [simp]:
  assumes "is_digit c" shows "space_len_end (cs @ [c]) = 0"
proof -
  have low: "(of_char c :: nat) < 128" using assms by (simp add: is_digit_def)
  have "filter (\<lambda>w. take (length w) (map of_char (c # rev cs)) = rev w) wide_spaces = []"
  proof (rule filter_False, rule ballI)
    fix w assume "w \<in> set wide_spaces"
    then have "w \<noteq> []" "128 \<le> last w" using wide_spaces_high by auto
    then obtain b bs where "rev w = b # bs" "128 \<le> b"
      by (cases w rule: rev_cases) auto
    moreover from this have "length w = Suc (length bs)"
      by (metis length_Cons length_rev)
    ultimately show "take (length w) (map of_char (c # rev cs)) \<noteq> rev w"
      using low by auto
  qed
  with assms show ?thesis by (simp add: space_len_end_def not_space_digit)
qed

lemma trim_left_digit [simp]: "is_digit c \<Longrightarrow> trim_left (c # cs) = c # cs"
  by simp

lemma trim_right_digit [simp]: "is_digit c \<Longrightarrow> trim_right (cs @ [c]) = cs @ [c]"
  by (subst trim_right.simps) simp

lemma trim_right_newline:
  "trim_right (s @ [CHR 0x0A]) = trim_right s"
  by (subst trim_right.simps) (simp add: space_len_end_def ascii_space_def)

subsection \<open>bufio.Scanner over lines\<close>

text \<open>
  \<open>bufio.Scanner\<close> with its default split function: lines end at \<open>\n\<close>, one trailing \<open>\r\<close> is
  dropped, an unterminated last line counts unless it is empty. The scanner gives up with
  \<open>ErrTooLong\<close> at the first line that does not fit its 64 KiB buffer; the lines before it
  have been delivered. The second component says whether that happened.
\<close>

abbreviation newline :: char where
  "newline \<equiv> CHR 0x0A"

definition max_scan_token :: nat where
  "max_scan_token = 65536"

definition drop_cr :: "bytes \<Rightarrow> bytes" where
  "drop_cr s = (if s \<noteq> [] \<and> last s = CHR 0x0D then butlast s else s)"

definition raw_lines :: "bytes \<Rightarrow> bytes list" where
  "raw_lines s = (let ps = split_on newline s in if last ps = [] then butlast ps else ps)"

definition scan_lines :: "bytes \<Rightarrow> bytes list \<times> bool" where
  "scan_lines s =
     (let ok = takeWhile (\<lambda>l. length l < max_scan_token) (raw_lines s)
      in (map drop_cr ok, length ok < length (raw_lines s)))"

lemma split_on_Cons_newline: "split_on newline (newline # s) = [] # split_on newline s"
  by simp

lemma raw_lines_Nil [simp]: "raw_lines [] = []"
  by (simp add: raw_lines_def)

lemma raw_lines_line:
  "newline \<notin> set l \<Longrightarrow> raw_lines (l @ newline # s) = l # raw_lines s"
  by (simp add: raw_lines_def split_on_append Let_def)

lemma raw_lines_unterminated:
  "newline \<notin> set l \<Longrightarrow> l \<noteq> [] \<Longrightarrow> raw_lines l = [l]"
  by (simp add: raw_lines_def split_on_no_sep)

lemma raw_lines_no_newline: "l \<in> set (raw_lines s) \<Longrightarrow> newline \<notin> set l"
  by (auto simp: raw_lines_def Let_def split_on_fields split: if_splits dest: in_set_butlastD)

text \<open>The text of a list of lines, as the program writes them: each with its newline.\<close>

definition write_lines :: "bytes list \<Rightarrow> bytes" where
  "write_lines ls = concat (map (\<lambda>l. l @ [newline]) ls)"

lemma write_lines_simps [simp]:
  "write_lines [] = []"
  "write_lines (l # ls) = l @ newline # write_lines ls"
  "write_lines (ls @ ms) = write_lines ls @ write_lines ms"
  by (simp_all add: write_lines_def)

lemma raw_lines_write_lines:
  "\<forall>l \<in> set ls. newline \<notin> set l \<Longrightarrow> raw_lines (write_lines ls @ s) = ls @ raw_lines s"
  by (induction ls) (simp_all add: raw_lines_line)

text \<open>A file that is empty or ends in a newline is the text of its raw lines.\<close>

definition terminated :: "bytes \<Rightarrow> bool" where
  "terminated s \<longleftrightarrow> s = [] \<or> last s = newline"

lemma split_on_concat:
  "concat (map (\<lambda>l. l @ [sep]) (butlast (split_on sep s))) @ last (split_on sep s) = s"
proof (induction s)
  case Nil
  then show ?case by simp
next
  case (Cons c cs)
  obtain f fs where "split_on sep cs = f # fs" by (cases "split_on sep cs") auto
  with Cons show ?case by (cases fs) auto
qed

lemma split_on_snoc:
  "split_on sep (t @ [sep]) = butlast (split_on sep t) @ [last (split_on sep t), []]"
proof (induction t)
  case Nil
  then show ?case by simp
next
  case (Cons c t)
  obtain f fs where "split_on sep t = f # fs" by (cases "split_on sep t") auto
  with Cons show ?case by (cases fs) auto
qed

lemma terminated_last_empty: "terminated s \<Longrightarrow> last (split_on newline s) = []"
proof (cases s rule: rev_cases)
  case (snoc t c)
  assume "terminated s"
  with snoc have c: "c = newline" by (simp add: terminated_def)
  have "split_on newline (t @ [newline]) = butlast (split_on newline t) @ [last (split_on newline t), []]"
    by (rule split_on_snoc)
  with snoc c show ?thesis by simp
qed simp

lemma terminated_write_lines: "terminated s \<Longrightarrow> write_lines (raw_lines s) = s"
  using split_on_concat [of newline s] terminated_last_empty [of s]
  by (simp add: raw_lines_def write_lines_def Let_def)

lemma raw_lines_append:
  "terminated s \<Longrightarrow> raw_lines (s @ t) = raw_lines s @ raw_lines t"
  using raw_lines_write_lines [of "raw_lines s" t] raw_lines_no_newline [of _ s]
  by (metis terminated_write_lines)

lemma raw_lines_drop_cr:
  "CHR 0x0D \<notin> set s \<Longrightarrow> l \<in> set (raw_lines s) \<Longrightarrow> drop_cr l = l"
proof -
  assume cr: "CHR 0x0D \<notin> set s" and l: "l \<in> set (raw_lines s)"
  have "set l \<subseteq> set s"
  proof -
    have "l \<in> set (split_on newline s)"
      using l by (auto simp: raw_lines_def Let_def split: if_splits dest: in_set_butlastD)
    then have "set l \<subseteq> set (concat (map (\<lambda>l. l @ [newline]) (butlast (split_on newline s)))
        @ last (split_on newline s))"
      by (cases "split_on newline s" rule: rev_cases) auto
    then show ?thesis by (simp only: split_on_concat)
  qed
  with cr have "CHR 0x0D \<notin> set l" by auto
  then show "drop_cr l = l" by (cases l rule: rev_cases) (auto simp: drop_cr_def)
qed

lemma scan_lines_short:
  assumes "\<forall>l \<in> set (raw_lines s). length l < max_scan_token"
  shows "scan_lines s = (map drop_cr (raw_lines s), False)"
  using assms by (simp add: scan_lines_def takeWhile_eq_all_conv [THEN iffD2])

lemma scan_lines_long:
  "snd (scan_lines s) \<longleftrightarrow> (\<exists>l \<in> set (raw_lines s). max_scan_token \<le> length l)"
proof (cases "\<forall>l \<in> set (raw_lines s). length l < max_scan_token")
  case True
  with scan_lines_short [OF this] show ?thesis by auto
next
  case False
  then have "takeWhile (\<lambda>l. length l < max_scan_token) (raw_lines s) \<noteq> raw_lines s"
    by (metis (no_types, lifting) takeWhile_eq_all_conv)
  then have "length (takeWhile (\<lambda>l. length l < max_scan_token) (raw_lines s)) < length (raw_lines s)"
    by (metis length_takeWhile_le le_neq_implies_less takeWhile_eq_take take_all_iff order_refl)
  with False show ?thesis by (auto simp: scan_lines_def Let_def not_less)
qed

lemma scan_lines_ok:
  "scan_lines s = (ls, False) \<Longrightarrow>
   ls = map drop_cr (raw_lines s) \<and> (\<forall>l \<in> set (raw_lines s). length l < max_scan_token)"
  using scan_lines_long [of s] scan_lines_short [of s] by (auto simp: not_le)

subsection \<open>path/filepath\<close>

text \<open>\<open>Clean\<close>, \<open>Join\<close> and \<open>Dir\<close> on Unix paths. The elements of a path are read with a stack.\<close>

fun join_with :: "char \<Rightarrow> bytes list \<Rightarrow> bytes" where
  "join_with sep [] = []"
| "join_with sep [x] = x"
| "join_with sep (x # y # xs) = x @ sep # join_with sep (y # xs)"

lemma split_on_join:
  "\<forall>f \<in> set fs. sep \<notin> set f \<Longrightarrow> fs \<noteq> [] \<Longrightarrow> split_on sep (join_with sep fs) = fs"
proof (induction sep fs rule: join_with.induct)
  case (3 sep x y xs)
  then show ?case by (simp add: split_on_append)
qed (auto simp: split_on_no_sep)

fun clean_elems :: "bool \<Rightarrow> bytes list \<Rightarrow> bytes list \<Rightarrow> bytes list" where
  "clean_elems rooted [] st = rev st"
| "clean_elems rooted (e # es) st =
     (if e = [] \<or> e = ''.'' then clean_elems rooted es st
      else if e = ''..'' then
        (if st \<noteq> [] \<and> hd st \<noteq> ''..'' then clean_elems rooted es (tl st)
         else if rooted then clean_elems rooted es st
         else clean_elems rooted es (e # st))
      else clean_elems rooted es (e # st))"

definition path_clean :: "bytes \<Rightarrow> bytes" where
  "path_clean p =
     (let rooted = (take 1 p = ''/'');
          body = join_with (CHR ''/'') (clean_elems rooted (split_on (CHR ''/'') p) [])
      in if rooted then CHR ''/'' # body else if body = [] then ''.'' else body)"

definition path_join :: "bytes list \<Rightarrow> bytes" where
  "path_join es =
     (let fs = filter (\<lambda>e. e \<noteq> []) es
      in if fs = [] then [] else path_clean (join_with (CHR ''/'') fs))"

text \<open>\<open>Dir\<close>: everything up to the last slash, cleaned.\<close>

definition path_dir :: "bytes \<Rightarrow> bytes" where
  "path_dir p = path_clean (rev (dropWhile (\<lambda>c. c \<noteq> CHR ''/'') (rev p)))"

end
