(* ===== verification/File_Auth.thy ===== *)
theory File_Auth
  imports Go_Strings
begin

section \<open>Authorized clients: auth.go and clients.go\<close>

text \<open>
  The agent accepts a client whose fingerprint or token stands in the file
  \<open>authorized_fingerprints\<close>. \<open>auth.go\<close> reads that file on every request; the commands
  \<open>client add\<close>, \<open>client remove\<close> and \<open>client list\<close> of \<open>clients.go\<close> edit it. The file system is
  a map from paths to contents; a path outside it does not exist. Writes to an open file
  succeed.
\<close>

type_synonym files = "bytes \<rightharpoonup> bytes"

subsection \<open>FileAuth\<close>

record fileAuth =
  tokensFilePath :: bytes

datatype auth_error = OpenFailed | ReadFailed

text \<open>\<open>NewFileAuth\<close>: a missing file is created, or no backend is returned. \<open>conf_path\<close> is what
  \<open>ConfPath("authorized_fingerprints")\<close> returns and \<open>may_create\<close> whether \<open>os.Create\<close> succeeds.\<close>

definition newFileAuth ::
  "bytes \<Rightarrow> (bytes \<Rightarrow> bool) \<Rightarrow> bytes \<Rightarrow> files \<Rightarrow> files \<times> fileAuth option" where
  "newFileAuth conf_path may_create path fs =
     (let p = (if path = [] then conf_path else path)
      in if fs p = None
         then if may_create p then (fs(p \<mapsto> []), Some \<lparr>tokensFilePath = p\<rparr>) else (fs, None)
         else (fs, Some \<lparr>tokensFilePath = p\<rparr>))"

text \<open>One turn of the loop of \<open>ReadAuthorizedTokens\<close>: comments and empty lines give nothing, the
  part after the first space is dropped.\<close>

definition token_of :: "bytes \<Rightarrow> bytes option" where
  "token_of line =
     (if line \<noteq> [] \<and> hd line = CHR ''#'' then None
      else let l = before (CHR '' '') line in if l = [] then None else Some l)"

definition readAuthorizedTokens :: "files \<Rightarrow> fileAuth \<Rightarrow> auth_error + bytes list" where
  "readAuthorizedTokens fs a =
     (case fs (tokensFilePath a) of
        None \<Rightarrow> Inl OpenFailed
      | Some content \<Rightarrow>
          (case scan_lines content of (ls, too_long) \<Rightarrow>
             if too_long then Inl ReadFailed else Inr (List.map_filter token_of ls)))"

definition isAuthorized :: "files \<Rightarrow> fileAuth \<Rightarrow> bytes list \<Rightarrow> bool" where
  "isAuthorized fs a clientTokens =
     (case readAuthorizedTokens fs a of
        Inl _ \<Rightarrow> False
      | Inr tokens \<Rightarrow> list_ex (\<lambda>ct. list_ex (\<lambda>token. token = ct) tokens) clientTokens)"

subsection \<open>The client commands\<close>

definition addClients :: "bytes \<Rightarrow> bytes list \<Rightarrow> files \<Rightarrow> auth_error + files" where
  "addClients path args fs =
     (case fs path of
        None \<Rightarrow> Inl OpenFailed
      | Some content \<Rightarrow> Inr (fs(path \<mapsto> content @ write_lines args)))"

definition removeClients :: "bytes \<Rightarrow> bytes list \<Rightarrow> files \<Rightarrow> auth_error + files" where
  "removeClients path args fs =
     (case fs path of
        None \<Rightarrow> Inl OpenFailed
      | Some content \<Rightarrow>
          (case scan_lines content of (fps, too_long) \<Rightarrow>
             if too_long then Inl ReadFailed
             else let post = filter (\<lambda>t. \<not> list_ex (\<lambda>arg. t = arg) args) fps
                  in Inr (fs(path \<mapsto> write_lines post))))"

text \<open>\<open>listClients\<close>: the lines printed, and the error if the file could not be read to its end.\<close>

definition listClients :: "bytes \<Rightarrow> files \<Rightarrow> bytes list \<times> auth_error option" where
  "listClients path fs =
     (case fs path of
        None \<Rightarrow> ([], Some OpenFailed)
      | Some content \<Rightarrow>
          (case scan_lines content of (ls, too_long) \<Rightarrow>
             (''Authorized fingerprints:'' # filter (\<lambda>l. l \<noteq> [] \<and> hd l \<noteq> CHR ''#'') ls,
              if too_long then Some ReadFailed else None)))"

subsection \<open>What an authentication backend promises\<close>

text \<open>
  \<open>httpserver\<close> knows the file only through its interface \<open>AuthBackend\<close>. It passes the
  fingerprint of the offer and the bearer token, which is empty when the request has none, and
  relies on two things: a list of tokens is accepted because of one of them, and never because
  of an empty one.
\<close>

locale auth_backend =
  fixes authorized :: "bytes list \<Rightarrow> bool"
  assumes one_token: "authorized cts \<longleftrightarrow> (\<exists>ct \<in> set cts. authorized [ct])"
    and empty_token: "\<not> authorized [[]]"
begin

lemma no_tokens: "\<not> authorized []"
  using one_token [of "[]"] by simp

lemma two_tokens: "authorized [fp, bearer] \<longleftrightarrow> authorized [fp] \<or> authorized [bearer]"
  using one_token [of "[fp, bearer]"] by simp

lemma no_bearer: "authorized [fp, []] \<longleftrightarrow> authorized [fp]"
  using empty_token by (simp add: two_tokens)

lemma all_empty: "\<forall>ct \<in> set cts. ct = [] \<Longrightarrow> \<not> authorized cts"
  using one_token [of cts] empty_token by auto

end

lemma token_of_Some:
  "token_of line = Some t \<longleftrightarrow>
   t \<noteq> [] \<and> hd line \<noteq> CHR ''#'' \<and> before (CHR '' '') line = t"
  by (cases line) (auto simp: token_of_def Let_def before_def)

lemma token_of_plain:
  "t \<noteq> [] \<Longrightarrow> CHR '' '' \<notin> set t \<Longrightarrow> hd t \<noteq> CHR ''#'' \<Longrightarrow> token_of t = Some t"
  by (simp add: token_of_Some)

lemma isAuthorized_iff:
  "isAuthorized fs a cts \<longleftrightarrow>
   (\<exists>content. fs (tokensFilePath a) = Some content \<and>
      (\<forall>l \<in> set (raw_lines content). length l < max_scan_token) \<and>
      (\<exists>ct \<in> set cts. \<exists>l \<in> set (raw_lines content). token_of (drop_cr l) = Some ct))"
proof (cases "fs (tokensFilePath a)")
  case None
  then show ?thesis by (simp add: isAuthorized_def readAuthorizedTokens_def)
next
  case (Some content)
  show ?thesis
  proof (cases "\<forall>l \<in> set (raw_lines content). length l < max_scan_token")
    case True
    with Some show ?thesis
      by (auto simp: isAuthorized_def readAuthorizedTokens_def scan_lines_short list_ex_iff
          List.map_filter_def Bex_def image_iff) (metis option.sel)+
  next
    case False
    then have "snd (scan_lines content)" by (auto simp: scan_lines_long not_less)
    with Some False show ?thesis
      by (auto simp: isAuthorized_def readAuthorizedTokens_def split: prod.splits)
  qed
qed

interpretation file_backend: auth_backend "isAuthorized fs a" for fs a
proof unfold_locales
  show "\<And>cts. isAuthorized fs a cts \<longleftrightarrow> (\<exists>ct \<in> set cts. isAuthorized fs a [ct])"
    by (auto simp: isAuthorized_iff)
  show "\<not> isAuthorized fs a [[]]"
    by (auto simp: isAuthorized_iff token_of_Some)
qed

subsection \<open>Editing the file\<close>

text \<open>A fingerprint or token as the commands expect it: one word on one line.\<close>

definition plain_token :: "bytes \<Rightarrow> bool" where
  "plain_token t \<longleftrightarrow> t \<noteq> [] \<and> hd t \<noteq> CHR ''#'' \<and> CHR '' '' \<notin> set t \<and> newline \<notin> set t \<and>
     CHR 0x0D \<notin> set t \<and> length t < max_scan_token"

definition readable :: "bytes \<Rightarrow> bool" where
  "readable content \<longleftrightarrow> (\<forall>l \<in> set (raw_lines content). length l < max_scan_token)"

definition listed :: "bytes \<Rightarrow> bytes \<Rightarrow> bool" where
  "listed content ct \<longleftrightarrow> (\<exists>l \<in> set (raw_lines content). token_of (drop_cr l) = Some ct)"

lemma isAuthorized_content:
  "fs (tokensFilePath a) = Some content \<Longrightarrow>
   isAuthorized fs a [ct] \<longleftrightarrow> readable content \<and> listed content ct"
  by (simp add: isAuthorized_iff readable_def listed_def)

lemma drop_cr_plain [simp]: "CHR 0x0D \<notin> set t \<Longrightarrow> drop_cr t = t"
  by (cases t rule: rev_cases) (auto simp: drop_cr_def)

lemma token_of_plain_token [simp]: "plain_token t \<Longrightarrow> token_of (drop_cr t) = Some t"
  by (simp add: plain_token_def token_of_Some)

lemma raw_lines_plain:
  "\<forall>t \<in> set ts. plain_token t \<Longrightarrow> raw_lines (write_lines ts) = ts"
  using raw_lines_write_lines [of ts "[]"] by (simp add: plain_token_def)

lemma listed_append:
  "terminated content \<Longrightarrow> listed (content @ extra) ct \<longleftrightarrow> listed content ct \<or> listed extra ct"
  by (auto simp: listed_def raw_lines_append)

lemma readable_append:
  "terminated content \<Longrightarrow> readable (content @ extra) \<longleftrightarrow> readable content \<and> readable extra"
  by (auto simp: readable_def raw_lines_append)

lemma listed_plain:
  "\<forall>t \<in> set ts. plain_token t \<Longrightarrow> listed (write_lines ts) ct \<longleftrightarrow> ct \<in> set ts"
  by (force simp: listed_def raw_lines_plain)

lemma readable_plain: "\<forall>t \<in> set ts. plain_token t \<Longrightarrow> readable (write_lines ts)"
  by (simp add: readable_def raw_lines_plain plain_token_def)

lemma removeClients_Inr:
  assumes "fs path = Some content" and "removeClients path args fs = Inr fs'"
  shows "readable content"
    and "fs' = fs(path \<mapsto> write_lines (filter (\<lambda>t. t \<notin> set args) (map drop_cr (raw_lines content))))"
proof -
  obtain ls b where s: "scan_lines content = (ls, b)" by fastforce
  with assms have b: "\<not> b" by (auto simp: removeClients_def split: if_splits)
  from s b show "readable content" using scan_lines_ok [of content ls] by (simp add: readable_def)
  have "(\<lambda>t. \<not> list_ex (\<lambda>arg. t = arg) args) = (\<lambda>t. t \<notin> set args)" by (auto simp: list_ex_iff)
  with assms s b scan_lines_ok [of content ls]
  show "fs' = fs(path \<mapsto> write_lines (filter (\<lambda>t. t \<notin> set args) (map drop_cr (raw_lines content))))"
    by (auto simp: removeClients_def Let_def)
qed

lemma raw_lines_remaining:
  assumes "CHR 0x0D \<notin> set content"
  shows "raw_lines (write_lines (filter P (map drop_cr (raw_lines content))))
       = filter P (raw_lines content)"
proof -
  have "map drop_cr (raw_lines content) = raw_lines content"
    using assms by (simp add: raw_lines_drop_cr map_idI)
  then show ?thesis
    using raw_lines_write_lines [of "filter P (raw_lines content)" "[]"] raw_lines_no_newline
    by auto
qed

lemma label_token:
  assumes "plain_token fp"
  shows "token_of l = Some fp \<longleftrightarrow> l = fp \<or> (\<exists>label. l = fp @ CHR '' '' # label)"
proof
  assume t: "token_of l = Some fp"
  define rest where "rest = dropWhile (\<lambda>c. c \<noteq> CHR '' '') l"
  have l: "l = fp @ rest"
    using t takeWhile_dropWhile_id [of "\<lambda>c. c \<noteq> CHR '' ''" l]
    by (simp add: token_of_Some before_def rest_def)
  show "l = fp \<or> (\<exists>label. l = fp @ CHR '' '' # label)"
  proof (cases rest)
    case (Cons c cs)
    then have "c = CHR '' ''" using hd_dropWhile [of "\<lambda>c. c \<noteq> CHR '' ''" l] by (simp add: rest_def)
    with l Cons show ?thesis by simp
  qed (simp add: l)
next
  assume "l = fp \<or> (\<exists>label. l = fp @ CHR '' '' # label)"
  then show "token_of l = Some fp"
    using assms by (auto simp: plain_token_def token_of_Some hd_append)
qed

subsection \<open>Properties\<close>

text \<open>C25. The gate: a list of client tokens is authorized exactly when the tokens file exists, has
  no line of 64 KiB or more, and has a line that is not a comment and whose first word is one of
  the tokens, a non-empty one. Every other case, errors included, is a refusal.\<close>

theorem authorized_iff_listed:
  "isAuthorized fs a cts \<longleftrightarrow>
   (\<exists>content. fs (tokensFilePath a) = Some content \<and>
      (\<forall>l \<in> set (raw_lines content). length l < 65536) \<and>
      (\<exists>l \<in> set (map drop_cr (raw_lines content)).
         hd l \<noteq> CHR ''#'' \<and> before (CHR '' '') l \<noteq> [] \<and> before (CHR '' '') l \<in> set cts))"
  by (auto simp: isAuthorized_iff token_of_Some max_scan_token_def)

theorem authorized_iff_listed_witness:
  "isAuthorized [''f'' \<mapsto> ''#x'' @ [newline] @ ''AB laptop'' @ [newline]] \<lparr>tokensFilePath = ''f''\<rparr> [''AB'', []]
   \<and> \<not> isAuthorized [''f'' \<mapsto> ''#x'' @ [newline] @ ''AB laptop'' @ [newline]] \<lparr>tokensFilePath = ''f''\<rparr> [''#x'', []]"
  by (simp add: authorized_iff_listed raw_lines_def before_def drop_cr_def)

text \<open>\<open>client add\<close> on a tokens file that is empty or ends in a newline authorizes exactly the
  tokens added, on top of those authorized before.\<close>

lemma add_authorizes:
  assumes "fs path = Some content" and "readable content" and "terminated content"
    and "\<forall>t \<in> set args. plain_token t"
    and "addClients path args fs = Inr fs'"
  shows "isAuthorized fs' \<lparr>tokensFilePath = path\<rparr> [ct] \<longleftrightarrow>
    isAuthorized fs \<lparr>tokensFilePath = path\<rparr> [ct] \<or> ct \<in> set args"
proof -
  have fs': "fs' path = Some (content @ write_lines args)"
    using assms(1,5) by (auto simp: addClients_def)
  show ?thesis
    using assms(1-4) fs' isAuthorized_content [of fs "\<lparr>tokensFilePath = path\<rparr>" content ct]
      isAuthorized_content [of fs' "\<lparr>tokensFilePath = path\<rparr>" "content @ write_lines args" ct]
    by (simp add: listed_append readable_append listed_plain readable_plain)
qed

lemma add_authorizes_example:
  "isAuthorized [''f'' \<mapsto> ''A'' @ [newline] @ ''B'' @ [newline]] \<lparr>tokensFilePath = ''f''\<rparr> [''B'']"
proof -
  have "isAuthorized [''f'' \<mapsto> ''A'' @ [newline] @ ''B'' @ [newline]] \<lparr>tokensFilePath = ''f''\<rparr> [''B''] \<longleftrightarrow>
      isAuthorized [''f'' \<mapsto> ''A'' @ [newline]] \<lparr>tokensFilePath = ''f''\<rparr> [''B''] \<or> ''B'' \<in> set [''B'']"
    by (rule add_authorizes [where content = "''A'' @ [newline]"])
      (simp_all add: addClients_def terminated_def readable_def raw_lines_def plain_token_def
        max_scan_token_def)
  then show ?thesis by simp
qed

text \<open>\<open>client add\<close> does not check how the file ends: if its last line lacks a newline, the
  first token added is glued to it. Neither the new token nor the client of that last line is
  authorized afterwards, unless an earlier line lists it.\<close>

lemma add_after_unterminated:
  assumes "fs path = Some (write_lines ls @ last_line)" and "\<forall>l \<in> set ls. newline \<notin> set l"
    and "plain_token last_line" and "plain_token fp"
    and "addClients path [fp] fs = Inr fs'" and "ct = fp \<or> ct = last_line"
    and "\<not> listed (write_lines ls) ct"
  shows "\<not> isAuthorized fs' \<lparr>tokensFilePath = path\<rparr> [ct]"
proof -
  have fs': "fs' path = Some (write_lines ls @ (last_line @ fp @ [newline]))"
    using assms(1,5) by (auto simp: addClients_def)
  have "raw_lines (last_line @ fp @ [newline]) = [last_line @ fp]"
    using assms(3,4) raw_lines_line [of "last_line @ fp" "[]"] by (simp add: plain_token_def)
  moreover have "token_of (drop_cr (last_line @ fp)) = Some (last_line @ fp)"
    using assms(3,4) by (simp add: plain_token_def token_of_Some)
  moreover have "last_line @ fp \<noteq> ct" using assms(3,4,6) by (auto simp: plain_token_def)
  ultimately have "\<not> listed (write_lines ls @ (last_line @ fp @ [newline])) ct"
    using assms(2,7) raw_lines_write_lines [of ls "[]"] raw_lines_write_lines [of ls "last_line @ fp @ [newline]"]
    by (auto simp: listed_def)
  then show ?thesis using isAuthorized_content [of fs' "\<lparr>tokensFilePath = path\<rparr>"] fs' by simp
qed

lemma add_after_unterminated_example:
  "isAuthorized [''f'' \<mapsto> ''A''] \<lparr>tokensFilePath = ''f''\<rparr> [''A''] \<and>
   addClients ''f'' [''B''] [''f'' \<mapsto> ''A''] = Inr [''f'' \<mapsto> ''AB'' @ [newline]] \<and>
   \<not> isAuthorized [''f'' \<mapsto> ''AB'' @ [newline]] \<lparr>tokensFilePath = ''f''\<rparr> [''A'']"
proof -
  have a: "addClients ''f'' [''B''] [''f'' \<mapsto> ''A''] = Inr [''f'' \<mapsto> ''AB'' @ [newline]]"
    by (simp add: addClients_def)
  have "\<not> isAuthorized [''f'' \<mapsto> ''AB'' @ [newline]] \<lparr>tokensFilePath = ''f''\<rparr> [''A'']"
    by (rule add_after_unterminated [OF _ _ _ _ a, of "[]" "''A''"])
      (simp_all add: plain_token_def listed_def max_scan_token_def)
  moreover have "isAuthorized [''f'' \<mapsto> ''A''] \<lparr>tokensFilePath = ''f''\<rparr> [''A'']"
    using isAuthorized_content [of "[''f'' \<mapsto> ''A'']" "\<lparr>tokensFilePath = ''f''\<rparr>" "''A''" "''A''"]
    by (simp add: readable_def listed_def raw_lines_unterminated max_scan_token_def token_of_def
        before_def drop_cr_def)
  ultimately show ?thesis using a by simp
qed

text \<open>\<open>client remove\<close> compares whole lines, while \<open>IsAuthorized\<close> reads the first word of a
  line: after \<open>client remove fp\<close> the client \<open>fp\<close> is still authorized exactly when the file has a
  line for it with a label after the fingerprint.\<close>

lemma remove_keeps_labelled:
  assumes "fs path = Some content" and "CHR 0x0D \<notin> set content" and "plain_token fp"
    and "removeClients path [fp] fs = Inr fs'"
  shows "isAuthorized fs' \<lparr>tokensFilePath = path\<rparr> [fp] \<longleftrightarrow>
    (\<exists>label. fp @ CHR '' '' # label \<in> set (raw_lines content))"
proof -
  define rest where "rest = write_lines (filter (\<lambda>t. t \<noteq> fp) (map drop_cr (raw_lines content)))"
  have rd: "readable content" and fs': "fs' path = Some rest"
    using removeClients_Inr [OF assms(1,4)] by (simp_all add: rest_def)
  have lines: "raw_lines rest = filter (\<lambda>t. t \<noteq> fp) (raw_lines content)"
    unfolding rest_def by (rule raw_lines_remaining [OF assms(2)])
  have "readable rest" using rd by (simp add: readable_def lines)
  moreover have "listed rest fp \<longleftrightarrow> (\<exists>l \<in> set (raw_lines content). l \<noteq> fp \<and> token_of l = Some fp)"
    using raw_lines_drop_cr [OF assms(2)] by (auto simp: listed_def lines)
  ultimately show ?thesis
    using isAuthorized_content [of fs' "\<lparr>tokensFilePath = path\<rparr>" rest fp] fs'
    by (auto simp: label_token [OF assms(3)])
qed

lemma remove_keeps_labelled_example:
  "removeClients ''f'' [''AB''] [''f'' \<mapsto> ''AB laptop'' @ [newline]] = Inr [''f'' \<mapsto> ''AB laptop'' @ [newline]]
   \<and> isAuthorized [''f'' \<mapsto> ''AB laptop'' @ [newline]] \<lparr>tokensFilePath = ''f''\<rparr> [''AB'']"
proof -
  have r: "removeClients ''f'' [''AB''] [''f'' \<mapsto> ''AB laptop'' @ [newline]]
      = Inr [''f'' \<mapsto> ''AB laptop'' @ [newline]]"
    by (simp add: removeClients_def scan_lines_def raw_lines_def max_scan_token_def drop_cr_def)
  have "isAuthorized [''f'' \<mapsto> ''AB laptop'' @ [newline]] \<lparr>tokensFilePath = ''f''\<rparr> [''AB''] \<longleftrightarrow>
      (\<exists>label. ''AB'' @ CHR '' '' # label \<in> set (raw_lines (''AB laptop'' @ [newline])))"
    by (rule remove_keeps_labelled [OF _ _ _ r]) (simp_all add: plain_token_def max_scan_token_def)
  with r show ?thesis by (simp add: raw_lines_def)
qed

text \<open>C26. Round trip: of a file that ends in a newline, can be read (no line of 64 KiB) and has no
  carriage return, adding tokens (one line each, without a space) and removing them again leaves the
  lines that are not one of these tokens, in their order, and if none was there it gives back the file,
  byte for byte.\<close>

theorem add_remove_roundtrip:
  assumes "fs path = Some content" and "readable content" and "terminated content"
    and "CHR 0x0D \<notin> set content" and "\<forall>fp \<in> set args. plain_token fp"
    and "addClients path args fs = Inr fs'"
  shows "removeClients path args fs' =
      Inr (fs(path \<mapsto> write_lines (filter (\<lambda>l. l \<notin> set args) (raw_lines content)))) \<and>
    (set args \<inter> set (raw_lines content) = {} \<longrightarrow> removeClients path args fs' = Inr fs)"
proof -
  define c where "c = content @ write_lines args"
  have fs': "fs' = fs(path \<mapsto> c)" using assms(1,6) by (auto simp: addClients_def c_def)
  have lines: "raw_lines c = raw_lines content @ args"
    using assms(3,5) raw_lines_plain [of args] by (simp add: c_def raw_lines_append)
  have "CHR 0x0D \<notin> set (write_lines args)" using assms(5)
    by (auto simp: write_lines_def plain_token_def)
  then have cr: "map drop_cr (raw_lines c) = raw_lines c"
    using assms(4) by (intro map_idI raw_lines_drop_cr [of c]) (auto simp: c_def)
  have "\<forall>l \<in> set (raw_lines c). length l < max_scan_token"
    using assms(2,5) lines by (auto simp: readable_def plain_token_def)
  then have scan: "scan_lines c = (raw_lines c, False)" using scan_lines_short cr by metis
  have "filter (\<lambda>t. \<not> list_ex (\<lambda>arg. t = arg) args) (raw_lines c) = filter (\<lambda>l. l \<notin> set args) (raw_lines content)"
    by (auto simp: lines list_ex_iff intro: filter_cong)
  then have removed: "removeClients path args fs' =
      Inr (fs(path \<mapsto> write_lines (filter (\<lambda>l. l \<notin> set args) (raw_lines content))))"
    using fs' scan by (simp add: removeClients_def)
  have "filter (\<lambda>l. l \<notin> set args) (raw_lines content) = raw_lines content"
    if "set args \<inter> set (raw_lines content) = {}"
    using that by (intro filter_True) auto
  with removed show ?thesis using assms(1,3) by (simp add: terminated_write_lines fun_upd_idem)
qed

theorem add_remove_roundtrip_witness:
  "removeClients ''f'' [''B'', ''C''] [''f'' \<mapsto> ''A x'' @ [newline] @ ''B'' @ [newline] @ ''C'' @ [newline]]
   = Inr [''f'' \<mapsto> ''A x'' @ [newline]]"
proof -
  have "''A x'' @ [newline] @ ''B'' @ [newline] @ ''C'' @ [newline] = ''A x'' @ [newline] @ write_lines [''B'', ''C'']"
    by (simp add: write_lines_def)
  then have a: "addClients ''f'' [''B'', ''C''] [''f'' \<mapsto> ''A x'' @ [newline]] =
      Inr [''f'' \<mapsto> ''A x'' @ [newline] @ ''B'' @ [newline] @ ''C'' @ [newline]]"
    by (simp add: addClients_def)
  have "raw_lines (''A x'' @ [newline]) = [''A x'']" by (simp add: raw_lines_def)
  with add_remove_roundtrip [OF _ _ _ _ _ a, of "''A x'' @ [newline]"] show ?thesis
    by (simp add: terminated_def readable_def plain_token_def max_scan_token_def)
qed

end
