(* ===== verification/Pidfile.thy ===== *)
theory Pidfile
  imports File_Auth
begin

section \<open>The PID file: pidfile/pidfile.go and pidfile/pidfile\_linux.go\<close>

text \<open>
  The file that keeps a second agent from starting. The operating system comes in as three
  arguments: \<open>stat_ok\<close>, the paths \<open>os.Stat\<close> finds; \<open>self\<close>, the caller's \<open>os.Getpid()\<close>; and
  \<open>mkdir_ok\<close>, the directories \<open>os.MkdirAll\<close> can provide. A path outside the file map does not
  exist; a path in it can be read and written.
\<close>

datatype pid_error = ErrProcessRunning | ErrFileInvalid | NotExist | MkdirFailed

record pidFile =
  pf_path :: bytes
  pf_pid :: int

text \<open>\<open>processExists\<close> of the Linux build looks for \<open>/proc/<pid>\<close>.\<close>

definition processExists :: "(bytes \<Rightarrow> bool) \<Rightarrow> int \<Rightarrow> bool" where
  "processExists stat_ok pid = stat_ok (path_join [''/proc'', show_int pid])"

text \<open>That of the other Unix builds sends the null signal. A process of another user is not permitted to
  be signalled, and so counts as dead there.\<close>

datatype signal_answer = Delivered | NoSuchProcess | NotPermitted

definition processExists_unix :: "(int \<Rightarrow> signal_answer) \<Rightarrow> int \<Rightarrow> bool" where
  "processExists_unix signal pid \<longleftrightarrow> signal pid = Delivered"

definition pid_read :: "files \<Rightarrow> pidFile \<Rightarrow> pid_error + int" where
  "pid_read fs file =
     (case fs (pf_path file) of
        None \<Rightarrow> Inl NotExist
      | Some contents \<Rightarrow>
          (case atoi (trim_space contents) of None \<Rightarrow> Inl ErrFileInvalid | Some pid \<Rightarrow> Inr pid))"

definition pid_open :: "files \<Rightarrow> bytes \<Rightarrow> pid_error + pidFile" where
  "pid_open fs path =
     (case pid_read fs \<lparr>pf_path = path, pf_pid = 0\<rparr> of
        Inl e \<Rightarrow> Inl e
      | Inr pid \<Rightarrow> Inr \<lparr>pf_path = path, pf_pid = pid\<rparr>)"

definition pid_write_file ::
  "int \<Rightarrow> (bytes \<Rightarrow> bool) \<Rightarrow> pidFile \<Rightarrow> files \<Rightarrow> files \<times> pid_error option" where
  "pid_write_file self mkdir_ok file fs =
     (if mkdir_ok (path_dir (pf_path file))
      then (fs(pf_path file \<mapsto> show_int self @ [newline]), None)
      else (fs, Some MkdirFailed))"

definition pid_write ::
  "(bytes \<Rightarrow> bool) \<Rightarrow> int \<Rightarrow> (bytes \<Rightarrow> bool) \<Rightarrow> pidFile \<Rightarrow> files \<Rightarrow> files \<times> pid_error option" where
  "pid_write stat_ok self mkdir_ok file fs =
     (case pid_read fs file of
        Inl e \<Rightarrow> if e \<noteq> NotExist then (fs, Some e) else pid_write_file self mkdir_ok file fs
      | Inr oldPid \<Rightarrow>
          if processExists stat_ok oldPid then (fs, Some ErrProcessRunning)
          else pid_write_file self mkdir_ok file fs)"

definition pid_new ::
  "(bytes \<Rightarrow> bool) \<Rightarrow> int \<Rightarrow> (bytes \<Rightarrow> bool) \<Rightarrow> bytes \<Rightarrow> files \<Rightarrow> files \<times> (pid_error + pidFile)" where
  "pid_new stat_ok self mkdir_ok path fs =
     (let file = \<lparr>pf_path = path, pf_pid = self\<rparr>;
          running = (case pid_read fs file of Inl _ \<Rightarrow> False | Inr pid \<Rightarrow> processExists stat_ok pid)
      in if running then (fs, Inl ErrProcessRunning)
         else case pid_write stat_ok self mkdir_ok file fs of
                (fs', Some e) \<Rightarrow> (fs', Inl e)
              | (fs', None) \<Rightarrow> (fs', Inr file))"

definition pid_remove :: "pidFile \<Rightarrow> files \<Rightarrow> files \<times> pid_error option" where
  "pid_remove file fs =
     (if fs (pf_path file) = None then (fs, Some NotExist) else (fs(pf_path file := None), None))"

definition pid_running :: "(bytes \<Rightarrow> bool) \<Rightarrow> pidFile \<Rightarrow> bool" where
  "pid_running stat_ok file = processExists stat_ok (pf_pid file)"

subsection \<open>What a written file says\<close>

lemma show_int_last: obtains cs c where "show_int i = cs @ [c]" "is_digit c"
proof -
  have "show_nat n \<noteq> [] \<and> is_digit (last (show_nat n))" for n
    using show_nat_digits [of n] by (simp add: list_all_iff)
  then have "show_int i \<noteq> [] \<and> is_digit (last (show_int i))" by (simp add: show_int_def)
  with that show thesis by (metis append_butlast_last_id)
qed

lemma trim_left_show_int: "trim_left (show_int i @ s) = show_int i @ s"
proof (cases "i < 0")
  case True
  have "space_len (CHR ''-'' # cs) = 0" for cs
  proof -
    have "filter (\<lambda>w. take (length w) (map of_char (CHR ''-'' # cs)) = w) wide_spaces = []"
    proof (rule filter_False, rule ballI)
      fix w assume "w \<in> set wide_spaces"
      then obtain b bs where "w = b # bs" "128 \<le> b"
        using wide_spaces_high by (metis list.collapse)
      then show "take (length w) (map of_char (CHR ''-'' # cs)) \<noteq> w" by auto
    qed
    then show ?thesis by (simp add: space_len_def ascii_space_def)
  qed
  with True show ?thesis by (simp add: show_int_def)
next
  case False
  obtain c cs where "show_nat (nat i) = c # cs" "is_digit c" by (rule show_nat_hd)
  with False show ?thesis by (simp add: show_int_def)
qed

lemma trim_space_pid: "trim_space (show_int i @ [newline]) = show_int i"
proof -
  obtain cs c where "show_int i = cs @ [c]" "is_digit c" by (rule show_int_last)
  then have "trim_right (show_int i) = show_int i" by simp
  then show ?thesis
    by (simp only: trim_space_def trim_left_show_int trim_right_newline)
qed

lemma pid_read_written:
  "int_ok pid \<Longrightarrow> fs (pf_path file) = Some (show_int pid @ [newline]) \<Longrightarrow> pid_read fs file = Inr pid"
  by (simp add: pid_read_def trim_space_pid atoi_show_int)

lemma pid_read_path: "pf_path f = pf_path g \<Longrightarrow> pid_read fs f = pid_read fs g"
  by (simp add: pid_read_def)

lemma pid_write_file_Inr:
  "pid_write_file self mk file fs = (fs', None) \<Longrightarrow> fs' = fs(pf_path file \<mapsto> show_int self @ [newline])"
  by (auto simp: pid_write_file_def split: if_splits)

lemma pid_new_Inr:
  assumes "pid_new stat_ok self mk path fs = (fs', Inr f)"
  shows "fs' = fs(path \<mapsto> show_int self @ [newline])" and "f = \<lparr>pf_path = path, pf_pid = self\<rparr>"
    and "\<And>q. pid_read fs \<lparr>pf_path = path, pf_pid = self\<rparr> = Inr q \<Longrightarrow> \<not> processExists stat_ok q"
  using assms
  by (auto simp: pid_new_def pid_write_def Let_def dest: pid_write_file_Inr
      split: sum.splits if_splits prod.splits option.splits)

text \<open>\<open>New\<close> on every kind of file: none, one with another content than a number, the number of a
  running process, the number of a process that is gone.\<close>

datatype pid_state = NoFile | Garbage | Live int | Dead int

definition pid_state :: "(bytes \<Rightarrow> bool) \<Rightarrow> bytes \<Rightarrow> files \<Rightarrow> pid_state" where
  "pid_state stat_ok path fs =
     (case pid_read fs \<lparr>pf_path = path, pf_pid = 0\<rparr> of
        Inl NotExist \<Rightarrow> NoFile
      | Inl _ \<Rightarrow> Garbage
      | Inr pid \<Rightarrow> if processExists stat_ok pid then Live pid else Dead pid)"

text \<open>What \<open>New\<close> does in each of the four states of the file. A file with invalid contents
  is an error that no later \<open>New\<close> repairs; the file of a dead process is overwritten.\<close>

lemma pid_new_cases:
  assumes "int_ok self" and "mkdir_ok (path_dir path)"
  shows "case pid_state stat_ok path fs of
      NoFile \<Rightarrow> pid_new stat_ok self mkdir_ok path fs =
        (fs(path \<mapsto> show_int self @ [newline]), Inr \<lparr>pf_path = path, pf_pid = self\<rparr>)
    | Garbage \<Rightarrow> pid_new stat_ok self mkdir_ok path fs = (fs, Inl ErrFileInvalid)
    | Live q \<Rightarrow> pid_new stat_ok self mkdir_ok path fs = (fs, Inl ErrProcessRunning)
    | Dead q \<Rightarrow> pid_new stat_ok self mkdir_ok path fs =
        (fs(path \<mapsto> show_int self @ [newline]), Inr \<lparr>pf_path = path, pf_pid = self\<rparr>)"
proof -
  have same: "pid_read fs \<lparr>pf_path = path, pf_pid = self\<rparr> = pid_read fs \<lparr>pf_path = path, pf_pid = 0\<rparr>"
    by (rule pid_read_path) simp
  have "e = NotExist \<or> e = ErrFileInvalid" if "pid_read fs \<lparr>pf_path = path, pf_pid = 0\<rparr> = Inl e" for e
    using that by (auto simp: pid_read_def split: option.splits)
  then show ?thesis
    using assms(2) same
    by (cases "pid_read fs \<lparr>pf_path = path, pf_pid = 0\<rparr>")
      (auto simp: pid_state_def pid_new_def pid_write_def pid_write_file_def Let_def
        split: pid_error.splits)
qed

lemma pid_new_cases_example:
  "pid_new (\<lambda>p. p = ''/proc/7'') 9 (\<lambda>_. True) ''run'' [''run'' \<mapsto> ''7'' @ [newline]]
     = ([''run'' \<mapsto> ''7'' @ [newline]], Inl ErrProcessRunning)"
proof -
  have seven: "show_int 7 = ''7''" by code_simp
  have r: "pid_read [''run'' \<mapsto> ''7'' @ [newline]] \<lparr>pf_path = ''run'', pf_pid = 0\<rparr> = Inr 7"
    by (rule pid_read_written) (simp_all add: seven int_ok_def min_int_def max_int_def)
  have p: "processExists (\<lambda>p. p = ''/proc/7'') 7"
    by (simp add: processExists_def seven path_join_def path_clean_def Let_def)
  have "pid_state (\<lambda>p. p = ''/proc/7'') ''run'' [''run'' \<mapsto> ''7'' @ [newline]] = Live 7"
    using r p by (simp add: pid_state_def)
  then show ?thesis
    using pid_new_cases [of 9 "\<lambda>_. True" "''run''" "\<lambda>p. p = ''/proc/7''" "[''run'' \<mapsto> ''7'' @ [newline]]"]
    by (simp add: int_ok_def min_int_def max_int_def)
qed

end
