(* ===== verification/Agent_Process.thy ===== *)
theory Agent_Process
  imports Pidfile
begin

section \<open>One agent per user: the process commands of webexec.go\<close>

text \<open>
  \<open>start\<close>, \<open>stop\<close>, \<open>restart\<close> and \<open>status\<close> find the agent through the PID file. The certificates,
  the configuration and \<open>initCMD\<close> belong to other components and are arguments here, as are the
  operating system's answers. The last part is the life of the agents of one user as a step
  relation: processes come and go, and work on the PID file one system call at a time. Where they do
  not do so at the same time at most one of them is the agent; where they do, two can be.
\<close>

datatype cli_error =
    CertsFailed
  | ConfFailed
  | ErrAgentNotRunning
  | AlreadyRunning
  | PidCreation pid_error
  | PidOpen pid_error
  | PidRead pid_error
  | SignalFailed
  | NoExecutable
  | ForkFailed

subsection \<open>The commands\<close>

text \<open>The error of \<open>pidfile.New\<close> decides the message of \<open>createPIDFile\<close>. This is what the function does when
  no other process touches the file meanwhile; its single reads, checks and writes, between which
  others can act, are the steps of \<open>new_turn\<close> below.\<close>

definition createPIDFile ::
  "(bytes \<Rightarrow> bool) \<Rightarrow> int \<Rightarrow> (bytes \<Rightarrow> bool) \<Rightarrow> bytes \<Rightarrow> files \<Rightarrow> files \<times> cli_error option" where
  "createPIDFile stat_ok self mkdir_ok path fs =
     (case pid_new stat_ok self mkdir_ok path fs of
        (fs', Inl e) \<Rightarrow> (fs', Some (if e = ErrProcessRunning then AlreadyRunning else PidCreation e))
      | (fs', Inr _) \<Rightarrow> (fs', None))"

text \<open>\<open>getAgentPid\<close>: 0 when no agent runs; the file of a dead process is removed.\<close>

definition getAgentPid :: "(bytes \<Rightarrow> bool) \<Rightarrow> bytes \<Rightarrow> files \<Rightarrow> files \<times> (cli_error + int)" where
  "getAgentPid stat_ok fp fs =
     (case pid_open fs fp of
        Inl e \<Rightarrow> if e = NotExist then (fs, Inr 0) else (fs, Inl (PidOpen e))
      | Inr pidf \<Rightarrow>
          if \<not> pid_running stat_ok pidf
          then (fst (pid_remove \<lparr>pf_path = fp, pf_pid = 0\<rparr> fs), Inr 0)
          else (case pid_read fs pidf of
                  Inl e \<Rightarrow> (fs, Inl (PidRead e)) | Inr pid \<Rightarrow> (fs, Inr pid)))"

text \<open>\<open>stop\<close>: the processes sent a SIGINT, and the error. \<open>certs\<close> and \<open>conf\<close> are the errors of
  \<open>GetCerts\<close> and \<open>LoadConf\<close>, if any; \<open>can_signal\<close> says whether \<open>process.Signal\<close> succeeds. On Unix
  \<open>os.FindProcess\<close> always does.\<close>

definition stop ::
  "bool \<Rightarrow> bool \<Rightarrow> (bytes \<Rightarrow> bool) \<Rightarrow> (int \<Rightarrow> bool) \<Rightarrow> bytes \<Rightarrow> files \<Rightarrow> int list \<times> cli_error option" where
  "stop certs_ok conf_ok stat_ok can_signal path fs =
     (if \<not> certs_ok then ([], Some CertsFailed)
      else if \<not> conf_ok then ([], Some ConfFailed)
      else case pid_open fs path of
             Inl e \<Rightarrow> if e = NotExist then ([], Some ErrAgentNotRunning) else ([], Some (PidOpen e))
           | Inr pidf \<Rightarrow>
               if \<not> pid_running stat_ok pidf then ([], Some ErrAgentNotRunning)
               else (case pid_read fs pidf of
                       Inl e \<Rightarrow> ([], Some (PidRead e))
                     | Inr pid \<Rightarrow> ([pid], if can_signal pid then None else Some SignalFailed)))"

text \<open>\<open>restart\<close> goes on to \<open>start\<close> unless \<open>stop\<close> failed for another reason than no agent running.\<close>

definition restart_starts :: "cli_error option \<Rightarrow> bool" where
  "restart_starts err \<longleftrightarrow> \<not> (err \<noteq> None \<and> err \<noteq> Some ErrAgentNotRunning)"

text \<open>\<open>forkAgent\<close>: the shell command it launches, if any, and the process id or 0. \<open>exec_path\<close> is
  the answer of \<open>osext.Executable\<close>, \<open>started\<close> that of \<open>cmd.Start\<close>.\<close>

definition fork_command :: "bytes \<Rightarrow> bytes \<Rightarrow> bytes \<Rightarrow> bytes" where
  "fork_command execPath address log =
     execPath @ '' start --agent --address '' @ address @ '' >> '' @ log"

definition launch ::
  "bytes option \<Rightarrow> (bytes \<Rightarrow> int option) \<Rightarrow> bytes \<Rightarrow> bytes \<Rightarrow> bytes option \<times> (cli_error + int)" where
  "launch exec_path started address log =
     (case exec_path of
        None \<Rightarrow> (None, Inl NoExecutable)
      | Some execPath \<Rightarrow>
          let cmd = fork_command execPath address log
          in case started cmd of None \<Rightarrow> (None, Inl ForkFailed) | Some pid \<Rightarrow> (Some cmd, Inr pid))"

definition forkAgent ::
  "(bytes \<Rightarrow> bool) \<Rightarrow> bytes option \<Rightarrow> (bytes \<Rightarrow> int option) \<Rightarrow> bytes \<Rightarrow> bytes \<Rightarrow> bytes \<Rightarrow> files \<Rightarrow>
   bytes option \<times> (cli_error + int)" where
  "forkAgent stat_ok exec_path started path address log fs =
     (case pid_open fs path of
        Inl _ \<Rightarrow> launch exec_path started address log
      | Inr pidf \<Rightarrow>
          if pid_running stat_ok pidf then (None, Inr 0)
          else launch exec_path started address log)"

text \<open>The part of \<open>start\<close> that decides who runs: \<open>--debug\<close> and \<open>--agent\<close> take the PID file and run
  in this process, anything else forks the agent and returns. \<open>certs_ok\<close> and \<open>conf\<close> are the
  results of \<open>GetCerts\<close> and \<open>LoadConf\<close> (the address to listen to), \<open>flag\<close> the \<open>--address\<close> option. The
  option goes to the command line of the forked agent; an agent itself listens where \<open>LoadConf\<close>,
  which the dependency injection calls again, tells it to.\<close>

datatype start_result =
    StartFailed cli_error
  | RunsHere bytes
  | Forked "bytes option" int

definition start_address :: "bytes option \<Rightarrow> bytes \<Rightarrow> bytes" where
  "start_address flag address = (case flag of None \<Rightarrow> address | Some a \<Rightarrow> a)"

definition start ::
  "bool \<Rightarrow> bytes option \<Rightarrow> bytes option \<Rightarrow> bool \<Rightarrow> bool \<Rightarrow> (bytes \<Rightarrow> bool) \<Rightarrow> int \<Rightarrow> (bytes \<Rightarrow> bool) \<Rightarrow>
   bytes option \<Rightarrow> (bytes \<Rightarrow> int option) \<Rightarrow> bytes \<Rightarrow> bytes \<Rightarrow> files \<Rightarrow> files \<times> start_result" where
  "start certs_ok conf flag debug agent stat_ok self mkdir_ok exec_path started path log fs =
     (if \<not> certs_ok then (fs, StartFailed CertsFailed)
      else case conf of
        None \<Rightarrow> (fs, StartFailed ConfFailed)
      | Some conf_address \<Rightarrow>
          let address = start_address flag conf_address in
          if debug \<or> agent
          then (case createPIDFile stat_ok self mkdir_ok path fs of
                  (fs', Some e) \<Rightarrow> (fs', StartFailed e)
                | (fs', None) \<Rightarrow> (fs', RunsHere conf_address))
          else (case forkAgent stat_ok exec_path started path address log fs of
                  (_, Inl e) \<Rightarrow> (fs, StartFailed e)
                | (cmd, Inr pid) \<Rightarrow> (fs, Forked cmd pid)))"

subsection \<open>Paths under /proc\<close>

lemma show_int_chars: "c \<in> set (show_int i) \<Longrightarrow> is_digit c \<or> c = CHR ''-''"
  using show_nat_digits by (auto simp: show_int_def list_all_iff split: if_splits)

lemma show_int_inject: "show_int i = show_int j \<longleftrightarrow> i = j"
proof
  assume e: "show_int i = show_int j"
  have sign: "k < 0 \<longleftrightarrow> hd (show_int k) = CHR ''-''" for k
  proof (cases "k < 0")
    case False
    obtain c cs where "show_nat (nat k) = c # cs" "is_digit c" by (rule show_nat_hd)
    with False show ?thesis by (auto simp: show_int_def)
  qed (simp add: show_int_def)
  from e have "i < 0 \<longleftrightarrow> j < 0" using sign by metis
  with e show "i = j" by (auto simp: show_int_def show_nat_inject split: if_splits)
qed simp

lemma proc_path: "path_join [''/proc'', show_int i] = ''/proc/'' @ show_int i"
proof -
  have ne: "show_int i \<noteq> []" by (auto simp: show_int_def)
  have chars: "CHR ''/'' \<notin> set (show_int i)" "CHR ''.'' \<notin> set (show_int i)"
    using show_int_chars [of "CHR ''/''" i] show_int_chars [of "CHR ''.''" i]
    by (auto simp: is_digit_def)
  then have dots: "show_int i \<noteq> ''.''" "show_int i \<noteq> ''..''" by auto
  from chars(1) have "split_on (CHR ''/'') (''/proc/'' @ show_int i) = [[], ''proc'', show_int i]"
    by (simp add: split_on_no_sep)
  with ne dots show ?thesis by (simp add: path_join_def path_clean_def Let_def)
qed

definition proc_stat :: "int set \<Rightarrow> bytes \<Rightarrow> bool" where
  "proc_stat live p \<longleftrightarrow> (\<exists>q \<in> live. p = path_join [''/proc'', show_int q])"

lemma processExists_proc_stat [simp]: "processExists (proc_stat live) p \<longleftrightarrow> p \<in> live"
  by (auto simp: processExists_def proc_stat_def proc_path show_int_inject)

subsection \<open>Taking the PID file, call by call\<close>

text \<open>
  \<open>pidfile.New\<close> is a read and a check, then in \<open>Write\<close> a second read and check, and the write. There is
  no lock and no \<open>O_EXCL\<close>, so other processes can act in between. \<open>new_turn\<close> is the next call of a
  process that is somewhere in \<open>New\<close>, \<open>None\<close> being before its first one; \<open>WriteFile\<close> is one call.
\<close>

datatype new_phase =
    ReadOnce "pid_error + int"
  | Passed
  | ReadAgain "pid_error + int"
  | Clear

datatype new_outcome = Goes new_phase | Taken | Fails pid_error

fun new_turn ::
  "(bytes \<Rightarrow> bool) \<Rightarrow> int \<Rightarrow> (bytes \<Rightarrow> bool) \<Rightarrow> bytes \<Rightarrow> files \<Rightarrow> new_phase option \<Rightarrow> files \<times> new_outcome" where
  "new_turn st self mk path fs None = (fs, Goes (ReadOnce (pid_read fs \<lparr>pf_path = path, pf_pid = self\<rparr>)))"
| "new_turn st self mk path fs (Some (ReadOnce r)) =
     (fs, if (case r of Inl _ \<Rightarrow> False | Inr pid \<Rightarrow> processExists st pid) then Fails ErrProcessRunning
          else Goes Passed)"
| "new_turn st self mk path fs (Some Passed) =
     (fs, Goes (ReadAgain (pid_read fs \<lparr>pf_path = path, pf_pid = self\<rparr>)))"
| "new_turn st self mk path fs (Some (ReadAgain r)) =
     (fs, case r of
            Inl e \<Rightarrow> if e \<noteq> NotExist then Fails e else Goes Clear
          | Inr pid \<Rightarrow> if processExists st pid then Fails ErrProcessRunning else Goes Clear)"
| "new_turn st self mk path fs (Some Clear) =
     (case pid_write_file self mk \<lparr>pf_path = path, pf_pid = self\<rparr> fs of
        (fs', None) \<Rightarrow> (fs', Taken)
      | (fs', Some e) \<Rightarrow> (fs', Fails e))"

text \<open>\<open>getAgentPid\<close> in the same way: it reads the file, checks the process, and removes the file of a
  dead one. \<open>None\<close> is that it is done.\<close>

datatype look_phase = Found int | Stale

fun look_turn :: "(bytes \<Rightarrow> bool) \<Rightarrow> bytes \<Rightarrow> files \<Rightarrow> look_phase option \<Rightarrow> files \<times> look_phase option" where
  "look_turn st path fs None =
     (fs, case pid_open fs path of Inl _ \<Rightarrow> None | Inr f \<Rightarrow> Some (Found (pf_pid f)))"
| "look_turn st path fs (Some (Found pid)) = (fs, if processExists st pid then None else Some Stale)"
| "look_turn st path fs (Some Stale) = (fst (pid_remove \<lparr>pf_path = path, pf_pid = 0\<rparr> fs), None)"

subsection \<open>The agents of one user\<close>

text \<open>
  \<open>live\<close> are the processes of the machine, \<open>agents\<close> those of them that have taken the PID file at
  \<open>path\<close> and run as agent, \<open>taking\<close> and \<open>looking\<close> those that are in \<open>New\<close> and in \<open>getAgentPid\<close>. A
  process can die at any time and leave the file behind.
\<close>

record host =
  h_files :: files
  live :: "int set"
  agents :: "int set"
  taking :: "int \<rightharpoonup> new_phase"
  looking :: "int \<rightharpoonup> look_phase"

definition busy :: "host \<Rightarrow> int set" where
  "busy s = dom (taking s) \<union> dom (looking s)"

definition host_die :: "int \<Rightarrow> host \<Rightarrow> host" where
  "host_die p s = s\<lparr>live := live s - {p}, agents := agents s - {p},
     taking := (taking s)(p := None), looking := (looking s)(p := None)\<rparr>"

inductive host_step :: "bytes \<Rightarrow> host \<Rightarrow> host \<Rightarrow> bool" for path where
  spawn: "p \<notin> live s \<Longrightarrow> 0 < p \<Longrightarrow> int_ok p \<Longrightarrow>
    host_step path s (s\<lparr>live := insert p (live s)\<rparr>)"
| new_goes: "p \<in> live s \<Longrightarrow> p \<notin> agents s \<Longrightarrow> looking s p = None \<Longrightarrow>
    new_turn (proc_stat (live s)) p mkdir_ok path (h_files s) (taking s p) = (fs', Goes ph) \<Longrightarrow>
    host_step path s (s\<lparr>h_files := fs', taking := (taking s)(p \<mapsto> ph)\<rparr>)"
| new_takes: "p \<in> live s \<Longrightarrow> p \<notin> agents s \<Longrightarrow> looking s p = None \<Longrightarrow>
    new_turn (proc_stat (live s)) p mkdir_ok path (h_files s) (taking s p) = (fs', Taken) \<Longrightarrow>
    host_step path s (s\<lparr>h_files := fs', taking := (taking s)(p := None), agents := insert p (agents s)\<rparr>)"
| new_fails: "p \<in> live s \<Longrightarrow> p \<notin> agents s \<Longrightarrow> looking s p = None \<Longrightarrow>
    new_turn (proc_stat (live s)) p mkdir_ok path (h_files s) (taking s p) = (fs', Fails e) \<Longrightarrow>
    host_step path s (s\<lparr>h_files := fs', taking := (taking s)(p := None)\<rparr>)"
| look: "p \<in> live s \<Longrightarrow> p \<notin> agents s \<Longrightarrow> taking s p = None \<Longrightarrow>
    look_turn (proc_stat (live s)) path (h_files s) (looking s p) = (fs', ph) \<Longrightarrow>
    host_step path s (s\<lparr>h_files := fs', looking := (looking s)(p := ph)\<rparr>)"
| leave: "p \<in> agents s \<Longrightarrow>
    host_step path s (s\<lparr>h_files := fst (pid_remove \<lparr>pf_path = path, pf_pid = p\<rparr> (h_files s)),
                       agents := agents s - {p}\<rparr>)"
| die: "p \<in> live s \<Longrightarrow> host_step path s (host_die p s)"

definition no_process :: "files \<Rightarrow> host" where
  "no_process fs = \<lparr>h_files = fs, live = {}, agents = {}, taking = Map.empty, looking = Map.empty\<rparr>"

inductive host_reachable :: "bytes \<Rightarrow> host \<Rightarrow> bool" for path where
  boot: "host_reachable path (no_process fs)"
| step: "host_reachable path s \<Longrightarrow> host_step path s t \<Longrightarrow> host_reachable path t"

text \<open>A step is calm when nobody begins to work on the PID file while another process does. In a calm
  run \<open>start\<close>, \<open>status\<close> and \<open>accept\<close> get through with the file one after the other; agents may end
  and processes die at any moment.\<close>

definition calm :: "host \<Rightarrow> host \<Rightarrow> bool" where
  "calm s t \<longleftrightarrow> busy t \<subseteq> busy s \<or> busy s = {}"

inductive calm_reachable :: "bytes \<Rightarrow> host \<Rightarrow> bool" for path where
  boot: "calm_reachable path (no_process fs)"
| step: "calm_reachable path s \<Longrightarrow> host_step path s t \<Longrightarrow> calm s t \<Longrightarrow> calm_reachable path t"

lemma calm_reachable_host: "calm_reachable path s \<Longrightarrow> host_reachable path s"
  by (induction rule: calm_reachable.induct) (auto intro: host_reachable.intros)



subsection \<open>At most one agent in a calm run\<close>

text \<open>While an agent runs, the file names it, and a process that is working on the file has read just
  that, so that its check will find the agent alive.\<close>

definition host_inv :: "bytes \<Rightarrow> host \<Rightarrow> bool" where
  "host_inv path s \<longleftrightarrow> (\<forall>p \<in> live s. int_ok p) \<and>
     (\<forall>p \<in> agents s. p \<in> live s \<and> p \<notin> busy s \<and> pid_open (h_files s) path = Inr \<lparr>pf_path = path, pf_pid = p\<rparr>) \<and>
     (\<forall>p \<in> busy s. \<forall>q \<in> busy s. p = q) \<and>
     (\<forall>q ph. taking s q = Some ph \<longrightarrow> (\<forall>p \<in> agents s. ph = ReadOnce (Inr p))) \<and>
     (\<forall>q ph. looking s q = Some ph \<longrightarrow> (\<forall>p \<in> agents s. ph = Found p))"

lemma host_invD:
  assumes "host_inv path s"
  shows "p \<in> live s \<Longrightarrow> int_ok p"
    and "p \<in> agents s \<Longrightarrow> p \<in> live s"
    and "p \<in> agents s \<Longrightarrow> p \<notin> busy s"
    and "p \<in> agents s \<Longrightarrow> pid_open (h_files s) path = Inr \<lparr>pf_path = path, pf_pid = p\<rparr>"
    and "p \<in> busy s \<Longrightarrow> q \<in> busy s \<Longrightarrow> p = q"
    and "taking s q = Some nph \<Longrightarrow> p \<in> agents s \<Longrightarrow> nph = ReadOnce (Inr p)"
    and "looking s q = Some lph \<Longrightarrow> p \<in> agents s \<Longrightarrow> lph = Found p"
  using assms unfolding host_inv_def by blast+

lemma host_inv_unique:
  assumes "host_inv path s" and "p \<in> agents s"
  shows "agents s = {p}"
proof -
  have "q = p" if "q \<in> agents s" for q
    using host_invD(4) [OF assms(1) that] host_invD(4) [OF assms] by simp
  with assms(2) show ?thesis by blast
qed

lemma pid_open_Inr:
  "pid_open fs path = Inr f \<longleftrightarrow>
   pid_read fs \<lparr>pf_path = path, pf_pid = k\<rparr> = Inr (pf_pid f) \<and> pf_path f = path"
proof -
  have same: "pid_read fs \<lparr>pf_path = path, pf_pid = k\<rparr> = pid_read fs \<lparr>pf_path = path, pf_pid = 0\<rparr>"
    by (rule pid_read_path) simp
  show ?thesis
    by (cases f, cases "pid_read fs \<lparr>pf_path = path, pf_pid = 0\<rparr>") (auto simp: pid_open_def same)
qed

lemma createPIDFile_None:
  assumes "createPIDFile st p mk path fs = (fs', None)" and "int_ok p"
  shows "pid_open fs' path = Inr \<lparr>pf_path = path, pf_pid = p\<rparr>"
    and "\<And>q. pid_open fs path = Inr q \<Longrightarrow> \<not> pid_running st q"
proof -
  from assms(1) obtain f where new: "pid_new st p mk path fs = (fs', Inr f)"
    by (auto simp: createPIDFile_def split: prod.splits sum.splits)
  from pid_new_Inr(1) [OF new] assms(2)
  show "pid_open fs' path = Inr \<lparr>pf_path = path, pf_pid = p\<rparr>"
    by (simp add: pid_open_Inr [of _ _ _ 0] pid_read_written)
  show "\<And>q. pid_open fs path = Inr q \<Longrightarrow> \<not> pid_running st q"
    using pid_new_Inr(3) [OF new] by (simp add: pid_open_Inr [of _ _ _ p] pid_running_def)
qed

lemma pid_new_Inl_files: "pid_new st p mk path fs = (fs', Inl e) \<Longrightarrow> fs' = fs"
  by (auto simp: pid_new_def pid_write_def pid_write_file_def Let_def
      split: sum.splits if_splits prod.splits option.splits)

lemma createPIDFile_Some: "createPIDFile st p mk path fs = (fs', Some e) \<Longrightarrow> fs' = fs"
  by (auto simp: createPIDFile_def dest: pid_new_Inl_files split: prod.splits sum.splits)

lemma new_turn_Goes:
  assumes "new_turn st p mk path fs ph = (fs', Goes ph')"
  shows "fs' = fs"
    and "ph = None \<and> ph' = ReadOnce (pid_read fs \<lparr>pf_path = path, pf_pid = p\<rparr>) \<or>
      (\<exists>r. ph = Some (ReadOnce r) \<and> (\<forall>q. r = Inr q \<longrightarrow> \<not> processExists st q)) \<or>
      ph = Some Passed \<or> (\<exists>r. ph = Some (ReadAgain r))"
  using assms by (cases "(st, p, mk, path, fs, ph)" rule: new_turn.cases;
      auto split: sum.splits if_splits prod.splits option.splits)+

lemma new_turn_Taken:
  assumes "new_turn st p mk path fs ph = (fs', Taken)"
  shows "ph = Some Clear" and "fs' = fs(path \<mapsto> show_int p @ [newline])"
  using assms by (cases "(st, p, mk, path, fs, ph)" rule: new_turn.cases;
      auto dest: pid_write_file_Inr split: sum.splits if_splits prod.splits option.splits)+

lemma new_turn_Fails: "new_turn st p mk path fs ph = (fs', Fails e) \<Longrightarrow> fs' = fs"
  by (cases "(st, p, mk, path, fs, ph)" rule: new_turn.cases;
      auto simp: pid_write_file_def split: sum.splits if_splits prod.splits option.splits)

lemma busy_empty: "busy s = {} \<longleftrightarrow> taking s = Map.empty \<and> looking s = Map.empty"
  by (simp add: busy_def dom_eq_empty_conv)

lemma busy_update:
  "busy (s\<lparr>h_files := fs, taking := (taking s)(p := x)\<rparr>) \<subseteq> insert p (busy s)"
  "busy (s\<lparr>h_files := fs, looking := (looking s)(p := y)\<rparr>) \<subseteq> insert p (busy s)"
  by (auto simp: busy_def split: if_splits)

text \<open>The one process that works on the file, when a calm step lets \<open>p\<close> do so.\<close>

lemma calm_busy:
  assumes "host_inv path s" and "calm s t" and "busy t \<subseteq> insert p (busy s)" and "p \<in> busy t"
  shows "busy t \<subseteq> {p}"
proof (cases "busy s = {}")
  case False
  with assms have "p \<in> busy s" by (auto simp: calm_def)
  with host_invD(5) [OF assms(1)] assms(3) show ?thesis by blast
qed (use assms(3) in simp)

text \<open>Nothing is lost when processes stop what they do.\<close>

lemma host_inv_shrink:
  assumes inv: "host_inv path s" and "live t \<subseteq> live s" and "agents t \<subseteq> agents s \<inter> live t"
    and tk: "\<And>q x. taking t q = Some x \<Longrightarrow> taking s q = Some x"
    and lk: "\<And>q x. looking t q = Some x \<Longrightarrow> looking s q = Some x"
    and "h_files t = h_files s \<or> agents t = {}"
  shows "host_inv path t"
proof -
  have busy: "q \<in> busy s" if "q \<in> busy t" for q using that tk lk by (auto simp: busy_def)
  show ?thesis
    unfolding host_inv_def
  proof (intro conjI ballI allI impI)
    fix q r assume "q \<in> busy t" "r \<in> busy t"
    then show "q = r" using host_invD(5) [OF inv] busy by blast
  next
    fix q ph r assume "taking t q = Some ph" "r \<in> agents t"
    then show "ph = ReadOnce (Inr r)" using host_invD(6) [OF inv tk] assms(3) by blast
  next
    fix q ph r assume "looking t q = Some ph" "r \<in> agents t"
    then show "ph = Found r" using host_invD(7) [OF inv lk] assms(3) by blast
  next
    fix q assume "q \<in> live t"
    then show "int_ok q" using host_invD(1) [OF inv] assms(2) by blast
  next
    fix q assume q: "q \<in> agents t"
    then have s: "q \<in> agents s" using assms(3) by blast
    from q show "q \<in> live t" using assms(3) by blast
    show "q \<notin> busy t" using host_invD(3) [OF inv s] busy by blast
    show "pid_open (h_files t) path = Inr \<lparr>pf_path = path, pf_pid = q\<rparr>"
      using host_invD(4) [OF inv s] assms(6) q by auto
  qed
qed

lemma host_step_inv:
  assumes "host_step path s t" and "calm s t" and "host_inv path s"
  shows "host_inv path t"
  using assms
proof (induction rule: host_step.induct)
  case (new_goes p s mkdir_ok fs' ph)
  note inv = host_invD [OF new_goes.prems(2)]
  let ?t = "s\<lparr>h_files := fs', taking := (taking s)(p \<mapsto> ph)\<rparr>"
  note turn = new_turn_Goes [OF new_goes.hyps(4)]
  have p: "busy ?t \<subseteq> {p}"
    by (rule calm_busy [OF new_goes.prems(2,1)]) (use busy_update in \<open>auto simp: busy_def\<close>)
  have ph: "ph = ReadOnce (Inr q)" if q: "q \<in> agents s" for q
  proof -
    have "taking s p \<noteq> Some Passed" "\<nexists>r. taking s p = Some (ReadAgain r)"
      using inv(6) [OF _ q, of p] by auto
    moreover have "r = Inr q" if "taking s p = Some (ReadOnce r)" for r using inv(6) [OF that q] by simp
    ultimately have "ph = ReadOnce (pid_read (h_files s) \<lparr>pf_path = path, pf_pid = p\<rparr>)"
      using turn(2) inv(2) [OF q] by auto
    then show ?thesis using inv(4) [OF q] by (simp add: pid_open_Inr [of _ _ _ p])
  qed
  have one: "\<forall>q \<in> busy ?t. \<forall>r \<in> busy ?t. q = r" using p by blast
  show ?case
    using new_goes.prems(2) new_goes.hyps(2) p one ph turn(1) unfolding host_inv_def by auto
next
  case (new_takes p s mkdir_ok fs')
  note inv = host_invD [OF new_takes.prems(2)]
  note turn = new_turn_Taken [OF new_takes.hyps(4)]
  have none: "agents s = {}" using inv(6) [OF turn(1)] by blast
  let ?t = "s\<lparr>h_files := fs', taking := (taking s)(p := None), agents := insert p (agents s)\<rparr>"
  have "p \<in> busy s" using turn(1) by (auto simp: busy_def)
  then have "busy s = {p}" using inv(5) by blast
  with new_takes.hyps(3) have "busy ?t = {}" by (auto simp: busy_def split: if_splits)
  moreover have "pid_open fs' path = Inr \<lparr>pf_path = path, pf_pid = p\<rparr>"
    using turn(2) inv(1) [OF new_takes.hyps(1)] by (simp add: pid_open_Inr [of _ _ _ 0] pid_read_written)
  moreover from calculation(1) have "taking ?t = Map.empty" "looking ?t = Map.empty"
    by (simp_all only: busy_empty)
  ultimately show ?case
    using new_takes.prems(2) new_takes.hyps(1) none unfolding host_inv_def by auto
next
  case (new_fails p s mkdir_ok fs' e)
  have "fs' = h_files s" by (rule new_turn_Fails [OF new_fails.hyps(4)])
  then show ?case
    using host_invD(2) [OF new_fails.prems(2)]
    by (intro host_inv_shrink [OF new_fails.prems(2)]) (auto split: if_splits)
next
  case (look p s fs' ph)
  note inv = host_invD [OF look.prems(2)]
  let ?t = "s\<lparr>h_files := fs', looking := (looking s)(p := ph)\<rparr>"
  have b: "\<forall>q \<in> busy ?t. \<forall>r \<in> busy ?t. q = r"
  proof (cases "p \<in> busy ?t")
    case True
    have "busy ?t \<subseteq> {p}" by (rule calm_busy [OF look.prems(2,1) busy_update(2) True])
    then show ?thesis by blast
  next
    case False
    then have "busy ?t \<subseteq> busy s" using busy_update(2) by blast
    then show ?thesis using inv(5) by blast
  qed
  have a: "fs' = h_files s \<and> (ph = None \<or> ph = Some (Found q))" if q: "q \<in> agents s" for q
  proof (cases "looking s p")
    case None
    with look.hyps(4) inv(4) [OF q] show ?thesis by auto
  next
    case (Some lph)
    with inv(7) [OF this q] look.hyps(4) inv(2) [OF q] show ?thesis by auto
  qed
  from a have "fs' = h_files s" if "q \<in> agents s" for q using that by blast
  with look.prems(2) look.hyps(2) a b show ?case
    unfolding host_inv_def by (auto simp: busy_def split: if_splits)
next
  case (leave p s)
  have "agents s = {p}" using host_inv_unique [OF leave.prems(2) leave.hyps] .
  then show ?case by (intro host_inv_shrink [OF leave.prems(2)]) simp_all
next
  case (die p s)
  show ?case
    using host_invD(2) [OF die.prems(2)]
    by (intro host_inv_shrink [OF die.prems(2)]) (auto simp: host_die_def split: if_splits)
qed (auto simp: host_inv_def busy_def)

lemma no_process_inv: "host_inv path (no_process fs)"
  by (simp add: host_inv_def no_process_def busy_def)

lemma calm_reachable_inv: "calm_reachable path s \<Longrightarrow> host_inv path s"
  by (induction rule: calm_reachable.induct) (auto intro: no_process_inv host_step_inv)

subsection \<open>The calls of New in a row\<close>

text \<open>The calls of one \<open>start\<close> with no other process in between do what \<open>createPIDFile\<close> does.\<close>

definition calm_step :: "bytes \<Rightarrow> host \<Rightarrow> host \<Rightarrow> bool" where
  "calm_step path s t \<longleftrightarrow> host_step path s t \<and> calm s t \<and> agents s \<subseteq> agents t"

lemma createPIDFile_takes:
  assumes "createPIDFile st p mk path fs = (fs', None)"
  shows "pid_write_file p mk \<lparr>pf_path = path, pf_pid = p\<rparr> fs = (fs', None)"
    and "(\<exists>q. pid_read fs \<lparr>pf_path = path, pf_pid = p\<rparr> = Inr q \<and> \<not> processExists st q) \<or>
      pid_read fs \<lparr>pf_path = path, pf_pid = p\<rparr> = Inl NotExist"
  using assms by (auto simp: createPIDFile_def pid_new_def pid_write_def Let_def
      split: prod.splits sum.splits if_splits option.splits)

lemma createPIDFile_other:
  assumes "createPIDFile st p mk path fs = (fs', None)"
  shows "createPIDFile st q mk path fs = (fs(path \<mapsto> show_int q @ [newline]), None)"
proof -
  have same: "pid_read fs \<lparr>pf_path = path, pf_pid = q\<rparr> = pid_read fs \<lparr>pf_path = path, pf_pid = p\<rparr>"
    by (rule pid_read_path) simp
  have "mk (path_dir path)"
    using createPIDFile_takes(1) [OF assms] by (simp add: pid_write_file_def split: if_splits)
  with createPIDFile_takes(2) [OF assms] same show ?thesis
    by (auto simp: createPIDFile_def pid_new_def pid_write_def pid_write_file_def)
qed

text \<open>\<open>in_new p ph s\<close>: the state with \<open>p\<close> at the phase \<open>ph\<close> of \<open>New\<close>.\<close>

definition in_new :: "int \<Rightarrow> new_phase \<Rightarrow> host \<Rightarrow> host" where
  "in_new p ph s = s\<lparr>taking := (taking s)(p \<mapsto> ph)\<rparr>"

lemma in_new_simps [simp]:
  "h_files (in_new p ph s) = h_files s" "live (in_new p ph s) = live s"
  "agents (in_new p ph s) = agents s" "looking (in_new p ph s) = looking s"
  "taking (in_new p ph s) = (taking s)(p \<mapsto> ph)"
  "in_new p ph' (in_new p ph s) = in_new p ph' s"
  by (simp_all add: in_new_def)

lemma new_goes_in_new:
  assumes "p \<in> live s" and "p \<notin> agents s" and "looking s p = None"
    and "new_turn (proc_stat (live s)) p mk path (h_files s) (taking s p) = (h_files s, Goes ph)"
  shows "host_step path s (in_new p ph s)"
  using host_step.new_goes [OF assms] by (simp add: in_new_def)

text \<open>The two reads and checks of a process that finds the file free.\<close>

lemma new_run_clear:
  assumes "createPIDFile (proc_stat (live s)) p mk path (h_files s) = (fs', None)"
    and "p \<in> live s" and "p \<notin> agents s" and "p \<notin> busy s"
  shows "(host_step path)\<^sup>*\<^sup>* (in_new p (ReadOnce (pid_read (h_files s) \<lparr>pf_path = path, pf_pid = p\<rparr>)) s)
      (in_new p Clear s)"
    and "host_step path s (in_new p (ReadOnce (pid_read (h_files s) \<lparr>pf_path = path, pf_pid = p\<rparr>)) s)"
proof -
  let ?r = "pid_read (h_files s) \<lparr>pf_path = path, pf_pid = p\<rparr>"
  note free = createPIDFile_takes(2) [OF assms(1)]
  have at: "taking s p = None" "looking s p = None" using assms(4) by (auto simp: busy_def)
  show "host_step path s (in_new p (ReadOnce ?r) s)"
    using assms(2,3) at by (intro new_goes_in_new) simp_all
  have "host_step path (in_new p (ReadOnce ?r) s) (in_new p Passed (in_new p (ReadOnce ?r) s))"
    using assms(2,3) at free by (intro new_goes_in_new) auto
  moreover have "host_step path (in_new p Passed s) (in_new p (ReadAgain ?r) (in_new p Passed s))"
    using assms(2,3) at by (intro new_goes_in_new) auto
  moreover have "host_step path (in_new p (ReadAgain ?r) s) (in_new p Clear (in_new p (ReadAgain ?r) s))"
    using assms(2,3) at free by (intro new_goes_in_new) auto
  ultimately show "(host_step path)\<^sup>*\<^sup>* (in_new p (ReadOnce ?r) s) (in_new p Clear s)"
    by (simp add: converse_rtranclp_into_rtranclp)
qed

lemma busy_in_new: "busy (in_new p ph s) = insert p (busy s)"
  by (auto simp: busy_def split: if_splits)

lemma new_takes_in_new:
  assumes "pid_write_file p mk \<lparr>pf_path = path, pf_pid = p\<rparr> (h_files s) = (fs', None)"
    and "p \<in> live s" and "p \<notin> agents s" and "looking s p = None" and "taking s p = Some Clear"
  shows "host_step path s (s\<lparr>h_files := fs', taking := (taking s)(p := None), agents := insert p (agents s)\<rparr>)"
  by (rule host_step.new_takes [OF assms(2-4), of mk]) (simp add: assms(1,5))

lemma start_run:
  assumes "createPIDFile (proc_stat (live s)) p mk path (h_files s) = (fs', None)"
    and "p \<in> live s" and "p \<notin> agents s" and "busy s = {}"
  shows "(calm_step path)\<^sup>*\<^sup>* s (s\<lparr>h_files := fs', agents := insert p (agents s)\<rparr>)"
proof -
  let ?r = "pid_read (h_files s) \<lparr>pf_path = path, pf_pid = p\<rparr>"
  note free = createPIDFile_takes [OF assms(1)]
  have none: "taking s = Map.empty" "looking s = Map.empty" using assms(4) by (simp_all add: busy_empty)
  have goes: "calm_step path t (in_new p ph t)"
    if "host_step path t (in_new p ph t)" "p \<in> busy t \<or> busy t = {}" for t ph
    using that by (auto simp: calm_step_def calm_def busy_in_new)
  have "calm_step path s (in_new p (ReadOnce ?r) s)"
    using assms none by (intro goes new_goes_in_new) simp_all
  moreover have "calm_step path (in_new p (ReadOnce ?r) s) (in_new p Passed (in_new p (ReadOnce ?r) s))"
    using assms none free by (intro goes new_goes_in_new) (auto simp: busy_in_new)
  moreover have "calm_step path (in_new p Passed s) (in_new p (ReadAgain ?r) (in_new p Passed s))"
    using assms none by (intro goes new_goes_in_new) (auto simp: busy_in_new)
  moreover have "calm_step path (in_new p (ReadAgain ?r) s) (in_new p Clear (in_new p (ReadAgain ?r) s))"
    using assms none free by (intro goes new_goes_in_new) (auto simp: busy_in_new)
  ultimately have "(calm_step path)\<^sup>*\<^sup>* s (in_new p Clear s)"
    by (simp add: converse_rtranclp_into_rtranclp)
  moreover have "calm_step path (in_new p Clear s) (s\<lparr>h_files := fs', agents := insert p (agents s)\<rparr>)"
  proof -
    let ?t = "s\<lparr>h_files := fs', agents := insert p (agents s)\<rparr>"
    have "host_step path (in_new p Clear s) ((in_new p Clear s)\<lparr>h_files := fs',
        taking := (taking (in_new p Clear s))(p := None), agents := insert p (agents (in_new p Clear s))\<rparr>)"
      using assms none free by (intro new_takes_in_new) simp_all
    moreover have "(in_new p Clear s)\<lparr>h_files := fs', taking := (taking (in_new p Clear s))(p := None),
        agents := insert p (agents (in_new p Clear s))\<rparr> = ?t"
      using none by (cases s) (simp add: in_new_def fun_eq_iff)
    moreover have "busy ?t = {}" using assms(4) by (simp add: busy_def)
    ultimately show ?thesis by (auto simp: calm_step_def calm_def)
  qed
  ultimately show ?thesis by simp
qed

lemma calm_run_reachable: "(calm_step path)\<^sup>*\<^sup>* s t \<Longrightarrow> calm_reachable path s \<Longrightarrow> calm_reachable path t"
  by (induction rule: rtranclp_induct) (auto simp: calm_step_def intro: calm_reachable.step)

subsection \<open>Properties\<close>

text \<open>What \<open>stop\<close> does when the file names a living process.\<close>

lemma stop_named:
  assumes "pid_open fs path = Inr \<lparr>pf_path = path, pf_pid = p\<rparr>" and "p \<in> lv"
  shows "stop True True (proc_stat lv) sig path fs = ([p], if sig p then None else Some SignalFailed)"
proof -
  have "pid_read fs \<lparr>pf_path = path, pf_pid = p\<rparr> = Inr p"
    using assms(1) by (simp add: pid_open_Inr [of _ _ _ p])
  with assms show ?thesis by (simp add: stop_def pid_running_def)
qed

text \<open>C27. One agent per user, as long as starts do not overlap: in every state of a calm run, whatever
  processes started, died, ran \<open>start\<close>, \<open>status\<close> or left, at most one process runs as the agent, it
  is alive, and the PID file names it, so that \<open>stop\<close> signals this process and no other. A run is calm
  when no process begins to work on the PID file while another is between its first read and its
  last call; agents may end and processes die in between.\<close>

theorem one_agent:
  assumes "calm_reachable path s" and "p \<in> agents s"
  shows "agents s = {p} \<and> p \<in> live s \<and>
    stop True True (proc_stat (live s)) sig path (h_files s)
      = ([p], if sig p then None else Some SignalFailed)"
proof -
  note inv = calm_reachable_inv [OF assms(1)]
  show ?thesis
    using host_inv_unique [OF inv assms(2)] host_invD(2) [OF inv assms(2)]
      stop_named [OF host_invD(4) [OF inv assms(2)]] by simp
qed

definition one_process :: "int \<Rightarrow> host" where
  "one_process p = \<lparr>h_files = Map.empty, live = {p}, agents = {}, taking = Map.empty, looking = Map.empty\<rparr>"

lemma one_process_reachable:
  assumes "0 < p" and "int_ok p"
  shows "calm_reachable path (one_process p)"
proof -
  have "host_step path (no_process Map.empty) (one_process p)"
    using host_step.spawn [of p "no_process Map.empty"] assms by (simp add: no_process_def one_process_def)
  moreover have "calm (no_process Map.empty) (one_process p)"
    by (simp add: calm_def busy_def no_process_def)
  ultimately show ?thesis using calm_reachable.step [OF calm_reachable.boot] by blast
qed

definition one_agent_host :: host where
  "one_agent_host = \<lparr>h_files = [''run'' \<mapsto> show_int 7 @ [newline]], live = {7}, agents = {7},
     taking = Map.empty, looking = Map.empty\<rparr>"

lemma one_agent_run: "(calm_step ''run'')\<^sup>*\<^sup>* (one_process 7) one_agent_host"
proof -
  have "createPIDFile (proc_stat (live (one_process 7))) 7 (\<lambda>_. True) ''run'' (h_files (one_process 7))
      = ([''run'' \<mapsto> show_int 7 @ [newline]], None)"
    by (simp add: createPIDFile_def pid_new_def pid_read_def pid_write_def pid_write_file_def one_process_def)
  from start_run [OF this] show ?thesis by (simp add: one_process_def one_agent_host_def busy_def)
qed

lemma one_agent_example: "calm_reachable ''run'' one_agent_host"
  by (rule calm_run_reachable [OF one_agent_run one_process_reachable])
    (simp_all add: int_ok_def min_int_def max_int_def)

theorem one_agent_witness:
  "stop True True (proc_stat {7}) (\<lambda>_. True) ''run'' [''run'' \<mapsto> show_int 7 @ [newline]] = ([7], None)"
  using one_agent [OF one_agent_example, of 7 "\<lambda>_. True"] by (simp add: one_agent_host_def)

text \<open>C28. Two starts that overlap: whenever a process could take the PID file, and another one starts at
  the same time, there is a run in which both become agents, because each makes its checks before the
  other writes. The file then names the second only: \<open>stop\<close> signals that one, and when it has left,
  \<open>stop\<close> says that no agent is running while the first one goes on.\<close>

theorem two_starts_race:
  assumes free: "createPIDFile (proc_stat (live s)) p mk path (h_files s) = (fs', None)"
    and p: "p \<in> live s" "p \<notin> agents s" "p \<notin> busy s"
    and q: "q \<in> live s" "q \<notin> agents s" "q \<notin> busy s" "int_ok q" and "p \<noteq> q"
  shows "\<exists>t u. (host_step path)\<^sup>*\<^sup>* s t \<and> agents t = agents s \<union> {p, q} \<and> live t = live s \<and>
    stop True True (proc_stat (live t)) sig path (h_files t) = ([q], if sig q then None else Some SignalFailed) \<and>
    host_step path t u \<and> agents u = agents s \<union> {p} \<and> p \<in> live u \<and>
    stop True True (proc_stat (live u)) sig path (h_files u) = ([], Some ErrAgentNotRunning)"
proof -
  let ?w = "\<lambda>k. (h_files s)(path \<mapsto> show_int k @ [newline])"
  let ?s1 = "in_new p Clear s"
  let ?s2 = "in_new q Clear ?s1"
  let ?s3 = "?s2\<lparr>h_files := ?w p, taking := (taking ?s2)(p := None), agents := insert p (agents ?s2)\<rparr>"
  let ?t = "?s3\<lparr>h_files := ?w q, taking := (taking ?s3)(q := None), agents := insert q (agents ?s3)\<rparr>"
  let ?u = "?t\<lparr>h_files := fst (pid_remove \<lparr>pf_path = path, pf_pid = q\<rparr> (h_files ?t)), agents := agents ?t - {q}\<rparr>"
  have mk: "mk (path_dir path)"
    using createPIDFile_takes(1) [OF free] by (simp add: pid_write_file_def split: if_splits)
  have look: "looking s p = None" "looking s q = None" using p q by (auto simp: busy_def)
  have free_q: "createPIDFile (proc_stat (live ?s1)) q mk path (h_files ?s1) = (?w q, None)"
    using createPIDFile_other [OF free] by simp
  have "(host_step path)\<^sup>*\<^sup>* s ?s1"
    using new_run_clear [OF free p] by (rule_tac converse_rtranclp_into_rtranclp)
  moreover have "(host_step path)\<^sup>*\<^sup>* ?s1 ?s2"
    using new_run_clear [OF free_q] q \<open>p \<noteq> q\<close>
    by (simp add: busy_in_new converse_rtranclp_into_rtranclp)
  moreover have "host_step path ?s2 ?s3"
    using mk p look \<open>p \<noteq> q\<close> by (intro new_takes_in_new [of _ mk]) (simp_all add: pid_write_file_def)
  moreover have "host_step path ?s3 ?t"
    using mk q look \<open>p \<noteq> q\<close> by (intro new_takes_in_new [of _ mk]) (simp_all add: pid_write_file_def)
  ultimately have "(host_step path)\<^sup>*\<^sup>* s ?t" by simp
  moreover have "pid_open (h_files ?t) path = Inr \<lparr>pf_path = path, pf_pid = q\<rparr>"
    using q(4) by (simp add: pid_open_Inr [of _ _ _ 0] pid_read_written)
  then have "stop True True (proc_stat (live ?t)) sig path (h_files ?t) = ([q], if sig q then None else Some SignalFailed)"
    using q(1) by (intro stop_named) simp_all
  moreover have "host_step path ?t ?u" by (rule host_step.leave) simp
  moreover have "stop True True (proc_stat (live ?u)) sig path (h_files ?u) = ([], Some ErrAgentNotRunning)"
    by (simp add: stop_def pid_remove_def pid_open_def pid_read_def)
  ultimately show ?thesis
    using p(1) q(2) \<open>p \<noteq> q\<close> by (intro exI [of _ ?t] exI [of _ ?u]) auto
qed

definition two_processes :: host where
  "two_processes = \<lparr>h_files = Map.empty, live = {7, 9}, agents = {}, taking = Map.empty, looking = Map.empty\<rparr>"

theorem two_starts_race_witness:
  "\<exists>t. (host_step ''run'')\<^sup>*\<^sup>* two_processes t \<and> agents t = {7, 9} \<and>
    stop True True (proc_stat {7, 9}) (\<lambda>_. True) ''run'' (h_files t) = ([9], None)"
proof -
  have "createPIDFile (proc_stat (live two_processes)) 7 (\<lambda>_. True) ''run'' (h_files two_processes)
      = ([''run'' \<mapsto> show_int 7 @ [newline]], None)"
    by (simp add: createPIDFile_def pid_new_def pid_read_def pid_write_def pid_write_file_def two_processes_def)
  from two_starts_race [OF this, of 9 "\<lambda>_. True"] show ?thesis
    by (auto simp: two_processes_def busy_def int_ok_def min_int_def max_int_def)
qed

text \<open>\<open>stop\<close> sends a signal only to the process the PID file names, and only if that process
  exists; with no file or a stale one it reports that no agent runs.\<close>

lemma stop_signals:
  assumes "stop certs_ok conf_ok st sig path fs = (pids, err)"
  shows "(pids = [] \<and> err \<noteq> None) \<or>
    (\<exists>pid. pids = [pid] \<and> pid_open fs path = Inr \<lparr>pf_path = path, pf_pid = pid\<rparr> \<and>
       processExists st pid \<and> err = (if sig pid then None else Some SignalFailed))"
proof (cases "pid_open fs path")
  case (Inl e)
  with assms show ?thesis by (auto simp: stop_def split: if_splits)
next
  case (Inr f)
  then have f: "pid_read fs f = Inr (pf_pid f)" "f = \<lparr>pf_path = path, pf_pid = pf_pid f\<rparr>"
    by (simp_all add: pid_open_Inr [of _ _ _ "pf_pid f"]) (metis pidFile.surjective old.unit.exhaust)+
  with Inr assms show ?thesis by (auto simp: stop_def pid_running_def split: if_splits)
qed

lemma stop_signals_example:
  "stop True True (proc_stat {}) (\<lambda>_. True) ''run'' [''run'' \<mapsto> ''8''] = ([], Some ErrAgentNotRunning)
   \<and> (([] :: int list) = [] \<and> Some ErrAgentNotRunning \<noteq> None)"
proof -
  have "trim_space ''8'' = ''8''" by code_simp
  moreover have "atoi ''8'' = Some 8" by code_simp
  ultimately have s: "stop True True (proc_stat {}) (\<lambda>_. True) ''run'' [''run'' \<mapsto> ''8'']
      = ([], Some ErrAgentNotRunning)"
    by (simp add: stop_def pid_open_def pid_read_def pid_running_def)
  from stop_signals [OF s] s show ?thesis by simp
qed

end
