(* ===== verification/Control_Args.thy ===== *)
theory Control_Args
  imports Go_Strings
begin

section \<open>Control messages and their arguments: peers/cdc.go\<close>

text \<open>
  What arrives on the control channel is JSON. The lexing of \<open>encoding/json\<close> is outside the
  model: a message is given as a tree in which every value comes with its source text, which is
  what a \<open>json.RawMessage\<close> keeps. What \<open>json.Unmarshal\<close> does with the tree is modelled: members
  are taken in order, a name matches a field whatever its (ASCII) case, an unknown name is
  skipped, \<open>null\<close> leaves a field as it is, and a value of the wrong type or out of the field's
  range makes it return an error, on which every caller gives up.
\<close>

datatype json =
    JNull
  | JBool bool
  | JNum bytes
  | JStr bytes
  | JArr "(bytes \<times> json) list"
  | JObj "(bytes \<times> (bytes \<times> json)) list"

type_synonym raw = "bytes \<times> json"

subsection \<open>Unmarshal\<close>

definition field_is :: "bytes \<Rightarrow> bytes \<Rightarrow> bool" where
  "field_is name key \<longleftrightarrow> to_upper key = to_upper name"

definition dec_int :: "int \<Rightarrow> raw \<Rightarrow> int option" where
  "dec_int old v = (case snd v of JNull \<Rightarrow> Some old | JNum s \<Rightarrow> atoi s | _ \<Rightarrow> None)"

definition dec_uint16 :: "uint16 \<Rightarrow> raw \<Rightarrow> uint16 option" where
  "dec_uint16 old v =
     (case snd v of
        JNull \<Rightarrow> Some old
      | JNum s \<Rightarrow> if s \<noteq> [] \<and> list_all is_digit s \<and> digits_val s < 65536
                  then Some (of_nat (digits_val s)) else None
      | _ \<Rightarrow> None)"

definition dec_string :: "bytes \<Rightarrow> raw \<Rightarrow> bytes option" where
  "dec_string old v = (case snd v of JNull \<Rightarrow> Some old | JStr s \<Rightarrow> Some s | _ \<Rightarrow> None)"

fun dec_elems :: "(bytes \<times> json) list \<Rightarrow> bytes list option" where
  "dec_elems [] = Some []"
| "dec_elems (v # vs) =
     (case dec_string [] v of
        None \<Rightarrow> None
      | Some s \<Rightarrow> map_option ((#) s) (dec_elems vs))"

definition dec_strings :: "bytes list \<Rightarrow> raw \<Rightarrow> bytes list option" where
  "dec_strings old v = (case snd v of JNull \<Rightarrow> Some [] | JArr vs \<Rightarrow> dec_elems vs | _ \<Rightarrow> None)"

text \<open>\<open>json.Unmarshal\<close> into a struct whose members \<open>put\<close> stores. No text at all is an error.\<close>

definition unmarshal :: "(bytes \<Rightarrow> raw \<Rightarrow> 'r \<Rightarrow> 'r option) \<Rightarrow> 'r \<Rightarrow> raw option \<Rightarrow> 'r option" where
  "unmarshal put init v =
     (case v of
        None \<Rightarrow> None
      | Some (_, JNull) \<Rightarrow> Some init
      | Some (_, JObj ms) \<Rightarrow> each (\<lambda>(k, w). put k w) ms init
      | Some _ \<Rightarrow> None)"

subsection \<open>The arguments\<close>

record nackArgs =
  na_desc :: bytes
  na_ref :: int

definition put_nack :: "bytes \<Rightarrow> raw \<Rightarrow> nackArgs \<Rightarrow> nackArgs option" where
  "put_nack k v a =
     (if field_is ''desc'' k then map_option (\<lambda>x. a\<lparr>na_desc := x\<rparr>) (dec_string (na_desc a) v)
      else if field_is ''ref'' k then map_option (\<lambda>x. a\<lparr>na_ref := x\<rparr>) (dec_int (na_ref a) v)
      else Some a)"

definition dec_nack :: "raw option \<Rightarrow> nackArgs option" where
  "dec_nack = unmarshal put_nack \<lparr>na_desc = [], na_ref = 0\<rparr>"

record ackArgs =
  aa_ref :: int
  aa_body :: bytes

definition put_ack :: "bytes \<Rightarrow> raw \<Rightarrow> ackArgs \<Rightarrow> ackArgs option" where
  "put_ack k v a =
     (if field_is ''ref'' k then map_option (\<lambda>x. a\<lparr>aa_ref := x\<rparr>) (dec_int (aa_ref a) v)
      else if field_is ''body'' k then map_option (\<lambda>x. a\<lparr>aa_body := x\<rparr>) (dec_string (aa_body a) v)
      else Some a)"

definition dec_ack :: "raw option \<Rightarrow> ackArgs option" where
  "dec_ack = unmarshal put_ack \<lparr>aa_ref = 0, aa_body = []\<rparr>"

definition put_restore :: "bytes \<Rightarrow> raw \<Rightarrow> int \<Rightarrow> int option" where
  "put_restore k v m = (if field_is ''marker'' k then dec_int m v else Some m)"

definition dec_restore :: "raw option \<Rightarrow> int option" where
  "dec_restore = unmarshal put_restore 0"

text \<open>\<open>SetPayloadArgs\<close>: a raw message keeps the text of the value, that of \<open>null\<close> included.\<close>

definition put_payload :: "bytes \<Rightarrow> raw \<Rightarrow> bytes \<Rightarrow> bytes option" where
  "put_payload k v p = (if field_is ''payload'' k then Some (fst v) else Some p)"

definition dec_payload :: "raw option \<Rightarrow> bytes option" where
  "dec_payload = unmarshal put_payload []"

record resizeArgs =
  rz_pane :: int
  rz_sx :: uint16
  rz_sy :: uint16

definition put_resize :: "bytes \<Rightarrow> raw \<Rightarrow> resizeArgs \<Rightarrow> resizeArgs option" where
  "put_resize k v a =
     (if field_is ''pane_id'' k then map_option (\<lambda>x. a\<lparr>rz_pane := x\<rparr>) (dec_int (rz_pane a) v)
      else if field_is ''sx'' k then map_option (\<lambda>x. a\<lparr>rz_sx := x\<rparr>) (dec_uint16 (rz_sx a) v)
      else if field_is ''sy'' k then map_option (\<lambda>x. a\<lparr>rz_sy := x\<rparr>) (dec_uint16 (rz_sy a) v)
      else Some a)"

definition dec_resize :: "raw option \<Rightarrow> resizeArgs option" where
  "dec_resize = unmarshal put_resize \<lparr>rz_pane = 0, rz_sx = 0, rz_sy = 0\<rparr>"

record addPaneArgs =
  ap_command :: "bytes list"
  ap_rows :: uint16
  ap_cols :: uint16
  ap_x :: uint16
  ap_y :: uint16
  ap_parent :: int

definition put_addPane :: "bytes \<Rightarrow> raw \<Rightarrow> addPaneArgs \<Rightarrow> addPaneArgs option" where
  "put_addPane k v a =
     (if field_is ''command'' k then map_option (\<lambda>x. a\<lparr>ap_command := x\<rparr>) (dec_strings (ap_command a) v)
      else if field_is ''rows'' k then map_option (\<lambda>x. a\<lparr>ap_rows := x\<rparr>) (dec_uint16 (ap_rows a) v)
      else if field_is ''cols'' k then map_option (\<lambda>x. a\<lparr>ap_cols := x\<rparr>) (dec_uint16 (ap_cols a) v)
      else if field_is ''x'' k then map_option (\<lambda>x. a\<lparr>ap_x := x\<rparr>) (dec_uint16 (ap_x a) v)
      else if field_is ''y'' k then map_option (\<lambda>x. a\<lparr>ap_y := x\<rparr>) (dec_uint16 (ap_y a) v)
      else if field_is ''parent'' k then map_option (\<lambda>x. a\<lparr>ap_parent := x\<rparr>) (dec_int (ap_parent a) v)
      else Some a)"

definition dec_addPane :: "raw option \<Rightarrow> addPaneArgs option" where
  "dec_addPane =
     unmarshal put_addPane
       \<lparr>ap_command = [], ap_rows = 0, ap_cols = 0, ap_x = 0, ap_y = 0, ap_parent = 0\<rparr>"

definition put_reconnect :: "bytes \<Rightarrow> raw \<Rightarrow> int \<Rightarrow> int option" where
  "put_reconnect k v i = (if field_is ''id'' k then dec_int i v else Some i)"

definition dec_reconnect :: "raw option \<Rightarrow> int option" where
  "dec_reconnect = unmarshal put_reconnect 0"

subsection \<open>CTRLMessage\<close>

text \<open>
  An incoming message is decoded with \<open>Args\<close> pointing at a raw message: \<open>cm_raw\<close> is that raw
  message, \<open>None\<close> while nothing was stored there. A \<open>null\<close> cuts the pointer (\<open>cm_bound\<close>), and later
  members of that name no longer reach it.
\<close>

record ctrlMessage =
  cm_time :: int
  cm_ref :: int
  cm_type :: bytes
  cm_raw :: "raw option"
  cm_bound :: bool

definition put_ctrl :: "bytes \<Rightarrow> raw \<Rightarrow> ctrlMessage \<Rightarrow> ctrlMessage option" where
  "put_ctrl k v m =
     (if field_is ''time'' k then map_option (\<lambda>x. m\<lparr>cm_time := x\<rparr>) (dec_int (cm_time m) v)
      else if field_is ''message_id'' k then map_option (\<lambda>x. m\<lparr>cm_ref := x\<rparr>) (dec_int (cm_ref m) v)
      else if field_is ''type'' k then map_option (\<lambda>x. m\<lparr>cm_type := x\<rparr>) (dec_string (cm_type m) v)
      else if field_is ''args'' k then
        Some (if snd v = JNull then m\<lparr>cm_bound := False\<rparr>
              else if cm_bound m then m\<lparr>cm_raw := Some v\<rparr> else m)
      else Some m)"

definition dec_ctrl :: "raw option \<Rightarrow> ctrlMessage option" where
  "dec_ctrl =
     unmarshal put_ctrl \<lparr>cm_time = 0, cm_ref = 0, cm_type = [], cm_raw = None, cm_bound = True\<rparr>"

text \<open>The arguments of outgoing messages, before they are marshalled.\<close>

datatype out_args =
    AckArgs int bytes
  | NAckArgs bytes int
  | ResizeArgs resizeArgs
  | SetPayloadArgs bytes
  | SetClipboardArgs bytes bytes
  | NoArgs

record outMessage =
  om_time :: int
  om_ref :: int
  om_type :: bytes
  om_args :: out_args

lemmas dec_defs = dec_ctrl_def dec_ack_def dec_nack_def dec_restore_def dec_payload_def
  dec_resize_def dec_addPane_def dec_reconnect_def unmarshal_def put_ctrl_def put_ack_def
  put_nack_def put_restore_def put_payload_def put_resize_def put_addPane_def put_reconnect_def

lemma field_is_refl [simp]: "field_is n n"
  by (simp add: field_is_def)

lemma dec_int_num: "int_ok i \<Longrightarrow> dec_int old (t, JNum (show_int i)) = Some i"
  by (simp add: dec_int_def atoi_show_int)

end
