(* ===== verification/Labels.thy ===== *)
theory Labels
  imports Go_Strings
begin

section \<open>Channel labels: ParseWinsize in peers/cdc.go and GetOrCreatePane in peers/peer.go\<close>

text \<open>
  A client says what it wants in the label of the data channel it opens: \<open>%\<close> for the control
  channel, \<open>>id\<close> to reconnect to a pane, a command with its arguments between commas, preceded by
  \<open>rowsxcols\<close> if it needs a terminal.
\<close>

record winsize =
  ws_rows :: uint16
  ws_cols :: uint16
  ws_x :: uint16
  ws_y :: uint16

subsection \<open>fmt.Sscanf with the format %dx%d\<close>

text \<open>Each verb first skips white space; a newline is an error.\<close>

fun skip_space :: "bytes \<Rightarrow> bytes option" where
  "skip_space [] = Some []"
| "skip_space (c # cs) =
     (if c = newline then None
      else case space_len (c # cs) of 0 \<Rightarrow> Some (c # cs) | Suc n \<Rightarrow> skip_space (drop n cs))"

text \<open>\<open>%d\<close> into a \<open>uint16\<close>: at least one digit, no sign, and an error when it does not fit.\<close>

definition scan_uint16 :: "bytes \<Rightarrow> (uint16 \<times> bytes) option" where
  "scan_uint16 s = do {
     t \<leftarrow> skip_space s;
     let ds = takeWhile is_digit t;
     if ds = [] \<or> 65536 \<le> digits_val ds then None
     else Some (of_nat (digits_val ds), dropWhile is_digit t)
   }"

definition parseWinsize :: "bytes \<Rightarrow> winsize option" where
  "parseWinsize s = do {
     (sy, t) \<leftarrow> scan_uint16 s;
     u \<leftarrow> (case t of [] \<Rightarrow> None | c # cs \<Rightarrow> if c = CHR ''x'' then Some cs else None);
     (sx, _) \<leftarrow> scan_uint16 u;
     Some \<lparr>ws_rows = sy, ws_cols = sx, ws_x = 0, ws_y = 0\<rparr>
   }"

subsection \<open>The first half of GetOrCreatePane\<close>

datatype label_request =
    ControlChannel
  | InvalidLabel
  | BadWinsize
  | CommandTooShort
  | BadPaneId
  | ReconnectTo int
  | Execute "winsize option" "bytes list"

text \<open>From the test of the command's length on; \<open>cmd\<close> is \<open>fields[cmdIndex:]\<close>.\<close>

definition command_request :: "winsize option \<Rightarrow> bytes list \<Rightarrow> label_request" where
  "command_request ws cmd =
     (let f = hd cmd in
      if length f < 2 then CommandTooShort
      else if hd f = CHR ''>''
      then (case atoi (tl f) of None \<Rightarrow> BadPaneId | Some i \<Rightarrow> ReconnectTo i)
      else Execute ws cmd)"

text \<open>\<open>l[0]\<close> panics on an empty label.\<close>

definition parse_label :: "bytes \<Rightarrow> label_request option" where
  "parse_label l =
     (if l = [] then None
      else let fields = split_on (CHR '','') l in
        if hd l = CHR ''%'' then Some ControlChannel
        else if is_digit (hd l) then
          (if length fields \<le> 1 then Some InvalidLabel
           else case parseWinsize (hd fields) of
                  None \<Rightarrow> Some BadWinsize
                | Some ws \<Rightarrow> Some (command_request (Some ws) (tl fields)))
        else Some (command_request None fields))"

subsection \<open>Printing and parsing\<close>

text \<open>\<open>sendFirstMessage\<close> of \<open>peers/pane.go\<close>: the pane's id and, with a terminal, its size.\<close>

definition show_uint16 :: "uint16 \<Rightarrow> bytes" where
  "show_uint16 w = show_nat (unat w)"

definition show_winsize :: "winsize \<Rightarrow> bytes" where
  "show_winsize ws = show_uint16 (ws_rows ws) @ CHR ''x'' # show_uint16 (ws_cols ws)"

definition first_message :: "int \<Rightarrow> winsize option \<Rightarrow> bytes" where
  "first_message i ws =
     (case ws of None \<Rightarrow> show_int i | Some w \<Rightarrow> show_int i @ CHR '','' # show_winsize w)"

lemma takeWhile_digits: "list_all is_digit ds \<Longrightarrow> \<not> is_digit c \<Longrightarrow>
    takeWhile is_digit (ds @ c # s) = ds \<and> dropWhile is_digit (ds @ c # s) = c # s"
  by (induction ds) auto

lemma takeWhile_all_digits: "list_all is_digit ds \<Longrightarrow>
    takeWhile is_digit ds = ds \<and> dropWhile is_digit ds = []"
  by (induction ds) auto

lemma skip_space_digit: "is_digit c \<Longrightarrow> skip_space (c # cs) = Some (c # cs)"
  by (auto simp: is_digit_def)

lemma skip_space_show_nat: "skip_space (show_nat n @ s) = Some (show_nat n @ s)"
proof -
  obtain c cs where "show_nat n = c # cs" "is_digit c" by (rule show_nat_hd)
  then show ?thesis using skip_space_digit [of c "cs @ s"] by simp
qed

lemma scan_show_uint16:
  assumes "s = [] \<or> \<not> is_digit (hd s)"
  shows "scan_uint16 (show_uint16 w @ s) = Some (w, s)"
proof -
  have "unat w < 2 ^ LENGTH(16)" by (rule unsigned_less)
  then have b: "unat w < 65536" by simp
  have "takeWhile is_digit (show_nat (unat w) @ s) = show_nat (unat w)"
    and "dropWhile is_digit (show_nat (unat w) @ s) = s"
    using assms show_nat_digits [of "unat w"] takeWhile_digits [of "show_nat (unat w)"]
      takeWhile_all_digits [of "show_nat (unat w)"] by (cases s; simp)+
  with b show ?thesis by (simp add: scan_uint16_def show_uint16_def skip_space_show_nat)
qed

lemma parse_show_winsize:
  assumes "s = [] \<or> \<not> is_digit (hd s)"
  shows "parseWinsize (show_winsize ws @ s) = Some (ws\<lparr>ws_x := 0, ws_y := 0\<rparr>)"
proof -
  have a: "scan_uint16 (show_winsize ws @ s) = Some (ws_rows ws, CHR ''x'' # show_uint16 (ws_cols ws) @ s)"
    by (simp add: show_winsize_def scan_show_uint16)
  have b: "scan_uint16 (show_uint16 (ws_cols ws) @ s) = Some (ws_cols ws, s)"
    by (rule scan_show_uint16 [OF assms])
  show ?thesis by (simp add: parseWinsize_def a b)
qed

lemma show_winsize_no_comma: "CHR '','' \<notin> set (show_winsize ws)"
  using show_nat_digits [of "unat (ws_rows ws)"] show_nat_digits [of "unat (ws_cols ws)"]
  by (auto simp: show_winsize_def show_uint16_def list_all_iff is_digit_def)

lemma show_winsize_hd: obtains c cs where "show_winsize ws = c # cs" "is_digit c"
proof -
  obtain c cs where "show_nat (unat (ws_rows ws)) = c # cs" "is_digit c" by (rule show_nat_hd)
  with that show thesis by (simp add: show_winsize_def show_uint16_def)
qed

lemma parse_label_sized:
  assumes "split_on (CHR '','') l = f # cmd # args" and "l \<noteq> []" and "is_digit (hd l)"
    and "parseWinsize f = Some ws" and "2 \<le> length cmd" and "hd cmd \<noteq> CHR ''>''"
  shows "parse_label l = Some (Execute (Some ws) (cmd # args))"
proof -
  have "hd l \<noteq> CHR ''%''" using assms(3) by (auto simp: is_digit_def)
  with assms show ?thesis by (simp add: parse_label_def command_request_def Let_def)
qed

subsection \<open>Properties\<close>

text \<open>Every label of the documented form with a size is understood: \<open>rowsxcols,cmd,arg,...\<close>
  asks for a terminal of that size running that command, for all sizes of 16 bits, all
  commands of at least two characters that do not start with a greater-than sign, and all
  arguments without a comma.\<close>

lemma label_with_size:
  assumes "\<forall>f \<in> set (cmd # args). CHR '','' \<notin> set f"
    and "2 \<le> length cmd" and "hd cmd \<noteq> CHR ''>''"
  shows "parse_label (join_with (CHR '','') (show_winsize ws # cmd # args))
       = Some (Execute (Some (ws\<lparr>ws_x := 0, ws_y := 0\<rparr>)) (cmd # args))"
proof -
  let ?l = "join_with (CHR '','') (show_winsize ws # cmd # args)"
  obtain c cs where h: "show_winsize ws = c # cs" "is_digit c" by (rule show_winsize_hd)
  then have l: "?l \<noteq> []" "is_digit (hd ?l)" by auto
  have "split_on (CHR '','') ?l = show_winsize ws # cmd # args"
    by (rule split_on_join) (use assms(1) show_winsize_no_comma in auto)
  then show ?thesis
    using l parse_show_winsize [of "[]" ws] assms(2,3) by (intro parse_label_sized) simp_all
qed

lemma label_with_size_example:
  "parse_label ''24x80,bash,-l''
   = Some (Execute (Some \<lparr>ws_rows = 24, ws_cols = 80, ws_x = 0, ws_y = 0\<rparr>) [''bash'', ''-l''])"
proof -
  have s: "show_winsize \<lparr>ws_rows = 24, ws_cols = 80, ws_x = 0, ws_y = 0\<rparr> = ''24x80''"
    by (simp add: show_winsize_def show_uint16_def) code_simp
  show ?thesis
    using label_with_size [of "''bash''" "[''-l'']" "\<lparr>ws_rows = 24, ws_cols = 80, ws_x = 0, ws_y = 0\<rparr>"] s
    by simp
qed

text \<open>The first message the agent sends on a new pane's channel can be used to come back to
  the pane with the same terminal: its first field, after a greater-than sign, is understood as
  a request to reconnect to this pane, and its second field as the size of its terminal.\<close>

lemma first_message_roundtrip:
  assumes "int_ok i"
  shows "split_on (CHR '','') (first_message i (Some ws)) = [show_int i, show_winsize ws]
    \<and> parse_label (CHR ''>'' # show_int i) = Some (ReconnectTo i)
    \<and> parseWinsize (show_winsize ws) = Some (ws\<lparr>ws_x := 0, ws_y := 0\<rparr>)"
proof -
  have comma: "CHR '','' \<notin> set (show_int i)"
    using show_nat_digits [of "nat i"] show_nat_digits [of "nat (- i)"]
    by (auto simp: show_int_def list_all_iff is_digit_def)
  have ne: "show_int i \<noteq> []" by (simp add: show_int_def)
  then have len: "2 \<le> length (CHR ''>'' # show_int i)" by (cases "show_int i") auto
  have "split_on (CHR '','') (CHR ''>'' # show_int i) = [CHR ''>'' # show_int i]"
    using comma by (intro split_on_no_sep) simp
  with len have "parse_label (CHR ''>'' # show_int i) = Some (ReconnectTo i)"
    using atoi_show_int [OF assms] ne
    by (simp add: parse_label_def command_request_def is_digit_def Let_def)
  then show ?thesis
    using comma show_winsize_no_comma parse_show_winsize [of "[]" ws]
    by (simp add: first_message_def split_on_append split_on_no_sep)
qed

lemma first_message_roundtrip_example:
  "parse_label ''>7'' = Some (ReconnectTo 7) \<and>
   first_message 7 (Some \<lparr>ws_rows = 24, ws_cols = 80, ws_x = 0, ws_y = 0\<rparr>) = ''7,24x80''"
proof -
  have s: "show_int 7 = ''7''" by code_simp
  have "int_ok 7" by (simp add: int_ok_def min_int_def max_int_def)
  from first_message_roundtrip [OF this] have "parse_label ''>7'' = Some (ReconnectTo 7)"
    by (simp add: s)
  moreover have "first_message 7 (Some \<lparr>ws_rows = 24, ws_cols = 80, ws_x = 0, ws_y = 0\<rparr>) = ''7,24x80''"
    by (simp add: first_message_def s show_winsize_def show_uint16_def) code_simp
  ultimately show ?thesis by simp
qed

end
