(* ===== verification/Screen_Dump.thy ===== *)
theory Screen_Dump
  imports Go_Strings
begin

section \<open>The screen dump: dumpVT and printColorChange in peers/pane.go\<close>

text \<open>
  A client that reconnects without a marker gets the screen of the pane's headless terminal as
  text: the cells row by row, an escape sequence wherever the colors change, and the position of
  the cursor. The terminal is the library vt10x; what the code reads of it is the record
  \<open>screen\<close>, and its two constants \<open>DefaultFG\<close> and \<open>DefaultBG\<close> are arguments.
\<close>

type_synonym color = "32 word"

record glyph =
  g_char :: int
  g_fg :: color
  g_bg :: color

record screen =
  sc_cols :: nat
  sc_rows :: nat
  sc_cell :: "nat \<Rightarrow> nat \<Rightarrow> glyph"
  sc_cursor_x :: int
  sc_cursor_y :: int

subsection \<open>Conversion of a rune to a string\<close>

definition byte :: "int \<Rightarrow> char" where
  "byte n = char_of (nat n)"

definition utf8 :: "int \<Rightarrow> bytes" where
  "utf8 c =
     (if c < 0 \<or> 0x10FFFF < c \<or> (0xD800 \<le> c \<and> c \<le> 0xDFFF) then map byte [0xEF, 0xBF, 0xBD]
      else if c < 0x80 then [byte c]
      else if c < 0x800 then map byte [0xC0 + c div 64, 0x80 + c mod 64]
      else if c < 0x10000 then
        map byte [0xE0 + c div 4096, 0x80 + c div 64 mod 64, 0x80 + c mod 64]
      else map byte [0xF0 + c div 262144, 0x80 + c div 4096 mod 64, 0x80 + c div 64 mod 64,
                     0x80 + c mod 64])"

subsection \<open>Colors\<close>

definition escape :: char where
  "escape = CHR 0x1B"

unbundle bit_operations_syntax

definition rgb :: "color \<Rightarrow> bytes" where
  "rgb c =
     show_nat (unat (drop_bit 16 (c AND 0xff0000))) @ '';'' @
     show_nat (unat (drop_bit 8 (c AND 0x00ff00))) @ '';'' @
     show_nat (unat (c AND 0x0000ff)) @ ''m''"

definition printColorChange :: "color \<Rightarrow> color \<Rightarrow> color \<Rightarrow> color \<Rightarrow> bytes" where
  "printColorChange defaultFG defaultBG fg bg =
     (if fg = defaultFG then escape # ''[39m'' else escape # ''[38;2;'' @ rgb fg) @
     (if bg = defaultBG then escape # ''[49m'' else escape # ''[48;2;'' @ rgb bg)"


subsection \<open>The dump\<close>

text \<open>\<open>dump_row\<close> is the inner loop: from column \<open>x\<close> on, \<open>n\<close> columns are left; it carries the colors
  of the previous cell.\<close>

fun dump_row ::
  "color \<Rightarrow> color \<Rightarrow> screen \<Rightarrow> nat \<Rightarrow> nat \<Rightarrow> nat \<Rightarrow> color \<times> color \<Rightarrow> bytes \<times> (color \<times> color)" where
  "dump_row dfg dbg t y x 0 prev = ([], prev)"
| "dump_row dfg dbg t y x (Suc n) prev =
     (let g = sc_cell t x y;
          change = g_fg g \<noteq> fst prev \<or> g_bg g \<noteq> snd prev;
          esc = (if change then printColorChange dfg dbg (g_fg g) (g_bg g) else []);
          prev1 = (if change then (g_fg g, g_bg g) else prev);
          (rest, prev2) = dump_row dfg dbg t y (Suc x) n prev1
      in (esc @ utf8 (g_char g) @ rest, prev2))"

fun dump_rows ::
  "color \<Rightarrow> color \<Rightarrow> screen \<Rightarrow> nat \<Rightarrow> nat \<Rightarrow> color \<times> color \<Rightarrow> bytes" where
  "dump_rows dfg dbg t y 0 prev = []"
| "dump_rows dfg dbg t y (Suc n) prev =
     (let (row, prev1) = dump_row dfg dbg t y 0 (sc_cols t) prev
      in row @ (if Suc y < sc_rows t then [CHR 0x0D, newline] else []) @
         dump_rows dfg dbg t (Suc y) n prev1)"

text \<open>\<open>prevFG\<close> and \<open>prevBG\<close> start at the zero color.\<close>

definition dumpVT :: "color \<Rightarrow> color \<Rightarrow> screen \<Rightarrow> bytes" where
  "dumpVT dfg dbg t =
     dump_rows dfg dbg t 0 (sc_rows t) (0, 0) @
     escape # ''['' @ show_int (sc_cursor_y t + 1) @ '';'' @ show_int (sc_cursor_x t + 1) @ ''H''"

end
