(* ===== verification/Agent_State.thy ===== *)
theory Agent_State
  imports Ring_Buffer Registries Control_Args Labels Screen_Dump
begin

section \<open>The state of a running agent\<close>

text \<open>
  The package variables of \<open>peers\<close> and \<open>main\<close>, the panes and the peers, and what the WebRTC
  library holds for the program: the callbacks of the data channels and the armed timers. Panes
  and peers are shared pointers in the code, so they live in two stores and are named by
  references. Callbacks are closures in the code; each closure the program installs is a
  constructor here, with the variables it captures. Handlers run to their end before the next one
  starts; the interleavings of the goroutines of one pane are the subject of another theory.
\<close>

subsection \<open>Panes\<close>

text \<open>\<open>pane.TTY\<close> is an interface: an operating system file, or what a test's \<open>RunCommand\<close> returns.\<close>

datatype tty = TtyFile nat | TtyOther nat

text \<open>The headless terminal is the list of the calls made on it.\<close>

datatype vt_op = VtNew uint16 uint16 | VtWrite bytes | VtResize uint16 uint16

text \<open>\<open>p_C\<close> is the process id of the command. \<open>p_readers\<close> counts the read loops (and with them the
  senders) that were started. \<open>p_stuck\<close> says that a read of the history that never returns holds
  the mutex of the buffer, and \<open>p_blocked\<close> counts the senders that wait for it.\<close>

record pane =
  p_ID :: int
  p_parent :: int
  p_C :: "int option"
  p_IsRunning :: bool
  p_TTY :: "tty option"
  p_Buffer :: buffer
  p_Ws :: "winsize option"
  p_vt :: "vt_op list option"
  p_cancelled :: bool
  p_peer :: peer_ref
  p_readers :: nat
  p_stuck :: bool
  p_blocked :: nat

subsection \<open>Peers\<close>

text \<open>\<open>pr_PC\<close> says whether the connection is there. A waiting acknowledgement is a channel of one
  place, so \<open>pr_acks\<close> maps a message id to its content. \<open>pr_draining\<close> says that a goroutine is
  ranging over \<open>pendingCandidates\<close>. \<open>Token\<close> and \<open>LastContact\<close> are never read.\<close>

record peer =
  pr_FP :: bytes
  pr_LastRef :: int
  pr_PC :: bool
  pr_cdc :: "dc option"
  pr_Marker :: int
  pr_acks :: "int \<rightharpoonup> bytes option"
  pr_pending :: "bytes list"
  pr_draining :: bool

subsection \<open>Callbacks, timers and effects\<close>

text \<open>The \<open>OnOpen\<close> closures of \<open>OnChannelReq\<close>, \<open>handleAddPane\<close> and \<open>handleReconnectPane\<close>.\<close>

datatype open_action =
    OpenLabelled peer_ref
  | OpenAddPane peer_ref ctrlMessage pane_ref "bytes list"
  | OpenReconnect peer_ref ctrlMessage int

datatype msg_action = ToPane peer_ref pane_ref | ToControl peer_ref

text \<open>The two \<open>AfterFunc\<close> closures of \<open>Restore\<close>.\<close>

datatype timer = SendDump dc pane_ref | SendSince dc pane_ref int

text \<open>Why there is no pane: the errors of \<open>GetOrCreatePane\<close> and \<open>Reconnect\<close>.\<close>

datatype pane_error =
    InvalidPaneLabel
  | WinsizeError
  | ShortCommand
  | ReconnectIdError
  | NoSuchPane int
  | PaneNotRunning
  | NewPaneError int
  | RunError

text \<open>What the outside sees, in order. \<open>Printed r m\<close> is not seen: it stands for the end of the
  sender's turn, when chunk \<open>m\<close> of pane \<open>r\<close> is in the history.\<close>

datatype event =
    Sent dc bytes
  | SentError dc pane_error
  | SentControl dc outMessage
  | ClosedChannel dc
  | ClosedConnection peer_ref
  | WroteTty tty bytes
  | ResizedTty tty winsize
  | ClosedTty tty
  | KilledProcess int
  | AddedCandidate peer_ref bytes
  | Printed pane_ref bytes

record agent =
  Peers :: "bytes \<rightharpoonup> peer_ref"
  peer_at :: "peer_ref \<Rightarrow> peer option"
  next_peer :: peer_ref
  Panes :: panesDB
  pane_at :: "pane_ref \<Rightarrow> pane option"
  next_pane :: pane_ref
  CDB :: clientsDB
  Payload :: bytes
  lastMarker :: int
  mostRecent :: "(peer_ref \<times> int) option"
  on_open :: "dc \<Rightarrow> open_action option"
  on_msg :: "dc \<Rightarrow> msg_action option"
  on_close :: "dc \<Rightarrow> client option"
  timers :: "timer list"
  sent :: "event list"

definition initial_agent :: agent where
  "initial_agent =
     \<lparr>Peers = Map.empty, peer_at = Map.empty, next_peer = 0,
      Panes = newPanesDB, pane_at = Map.empty, next_pane = 0, CDB = newClientsDB,
      Payload = [], lastMarker = 0, mostRecent = None,
      on_open = Map.empty, on_msg = Map.empty, on_close = Map.empty, timers = [], sent = []\<rparr>"

subsection \<open>The environment\<close>

text \<open>
  Every operation takes the answers of the libraries and of the operating system as an
  argument: the labels, ids and states of data channels and whether sending on them succeeds
  (pion), starting a process, the working directory of another, writing to a terminal, the clock,
  the orders in which maps are ranged over, and the configuration's functions.
\<close>

record exec_request =
  x_argv :: "bytes list"
  x_dir :: bytes
  x_env :: "bytes list option"
  x_ws :: "winsize option"

datatype write_error = ErrClosed | OtherWriteError

record env =
  e_label :: "dc \<Rightarrow> bytes"
  e_dcid :: "dc \<Rightarrow> nat option"
  e_open :: "dc \<Rightarrow> bool"
  e_send_ok :: "dc \<Rightarrow> bool"
  e_now :: int
  e_clients :: "(int \<rightharpoonup> client) \<Rightarrow> int list"
  e_panes :: "(int \<rightharpoonup> pane_ref) \<Rightarrow> int list"
  e_peers :: "(bytes \<rightharpoonup> peer_ref) \<Rightarrow> bytes list"
  e_run :: "(bytes list \<Rightarrow> (bytes \<rightharpoonup> bytes) option \<Rightarrow> winsize option \<Rightarrow> int \<Rightarrow> bytes \<Rightarrow>
    (int option \<times> tty) option) option"
  e_env :: "(bytes \<rightharpoonup> bytes) option"
  e_env_keys :: "(bytes \<rightharpoonup> bytes) \<Rightarrow> bytes list"
  e_process :: "int \<Rightarrow> bool"
  e_cwd :: "int \<Rightarrow> bytes option"
  e_home :: "bytes option"
  e_spawn :: "exec_request \<Rightarrow> (int \<times> nat) option"
  e_new_pc :: bool
  e_create_dc :: "peer_ref \<Rightarrow> bytes \<Rightarrow> dc option"
  e_ice_ok :: bool
  e_shell :: "bytes option"
  e_welcome :: "bytes option"
  e_tty_write :: "tty \<Rightarrow> bytes \<Rightarrow> nat \<times> write_error option"
  e_screen :: "vt_op list \<Rightarrow> screen"
  e_default_fg :: color
  e_default_bg :: color

text \<open>What is assumed of it: a range over a map visits every key once.\<close>

definition env_ok :: "env \<Rightarrow> bool" where
  "env_ok E \<longleftrightarrow> good_order (e_clients E) \<and> good_order (e_panes E) \<and> good_order (e_peers E)"

subsection \<open>Reading and updating the state\<close>

definition emit :: "event \<Rightarrow> agent \<Rightarrow> agent" where
  "emit e a = a\<lparr>sent := sent a @ [e]\<rparr>"

definition set_pane :: "pane_ref \<Rightarrow> pane \<Rightarrow> agent \<Rightarrow> agent" where
  "set_pane r pn a = a\<lparr>pane_at := (pane_at a)(r \<mapsto> pn)\<rparr>"

definition set_peer :: "peer_ref \<Rightarrow> peer \<Rightarrow> agent \<Rightarrow> agent" where
  "set_peer p pr a = a\<lparr>peer_at := (peer_at a)(p \<mapsto> pr)\<rparr>"

definition pane_id :: "agent \<Rightarrow> pane_ref \<Rightarrow> int" where
  "pane_id a r = (case pane_at a r of None \<Rightarrow> 0 | Some pn \<Rightarrow> p_ID pn)"

text \<open>\<open>d.Send(b)\<close>: the new state and whether there was no error.\<close>

definition dc_send :: "env \<Rightarrow> dc \<Rightarrow> bytes \<Rightarrow> agent \<Rightarrow> agent \<times> bool" where
  "dc_send E d b a = (if e_send_ok E d then (emit (Sent d b) a, True) else (a, False))"

text \<open>\<open>CDB.Delete(c)\<close>, its error ignored.\<close>

definition drop_client :: "env \<Rightarrow> client \<Rightarrow> agent \<Rightarrow> agent" where
  "drop_client E c a =
     (case clients_delete (e_dcid E) (pane_id a) (e_clients E (clients (CDB a))) c (CDB a) of
        Inl _ \<Rightarrow> a | Inr db \<Rightarrow> a\<lparr>CDB := db\<rparr>)"

definition add_client :: "dc \<Rightarrow> pane_ref \<Rightarrow> peer_ref \<Rightarrow> agent \<Rightarrow> agent \<times> client" where
  "add_client d r p a = (case clients_add d r p (CDB a) of (db, c) \<Rightarrow> (a\<lparr>CDB := db\<rparr>, c))"

text \<open>The clients of a pane: \<open>CDB.All4Pane(pane)\<close>.\<close>

definition clients_of :: "env \<Rightarrow> pane_ref \<Rightarrow> agent \<Rightarrow> client list" where
  "clients_of E r a = all4Pane (pane_id a) (e_clients E (clients (CDB a))) r (CDB a)"

text \<open>The callbacks a client of a pane gets: \<open>OnMessage\<close> and \<open>OnClose\<close>.\<close>

definition attach :: "dc \<Rightarrow> peer_ref \<Rightarrow> pane_ref \<Rightarrow> agent \<Rightarrow> agent" where
  "attach d p r a =
     (case add_client d r p a of (a1, c) \<Rightarrow>
        a1\<lparr>on_msg := (on_msg a1)(d \<mapsto> ToPane p r), on_close := (on_close a1)(d \<mapsto> c)\<rparr>)"

end
