(* ===== verification/Agent_Inv.thy ===== *)
theory Agent_Inv
  imports Agent_State
begin

section \<open>What holds of an agent between two handlers\<close>

text \<open>
  \<open>agent_inv\<close> is the invariant of the state: the two tables are well formed, every pane is in the
  table under its own id with a buffer that stands for exactly what it printed, a running pane has
  a terminal, every reference held by a client, a callback or a timer is to an object that is
  there, and whoever talks to a peer on its control channel finds that channel. \<open>grows_but X a b\<close>
  is what every operation does to the objects: none disappears or changes its identity, and
  outside \<open>X\<close> no pane gets a terminal.
\<close>

subsection \<open>The life of a pane\<close>

datatype pane_phase = New | Running | Dead

definition phase_rank :: "pane_phase \<Rightarrow> nat" where
  "phase_rank ph = (case ph of New \<Rightarrow> 0 | Running \<Rightarrow> 1 | Dead \<Rightarrow> 2)"

instantiation pane_phase :: linorder
begin

definition less_eq_pane_phase :: "pane_phase \<Rightarrow> pane_phase \<Rightarrow> bool" where
  "less_eq_pane_phase x y \<longleftrightarrow> phase_rank x \<le> phase_rank y"

definition less_pane_phase :: "pane_phase \<Rightarrow> pane_phase \<Rightarrow> bool" where
  "less_pane_phase x y \<longleftrightarrow> phase_rank x < phase_rank y"

instance
proof
  fix x y z :: pane_phase
  show "x < y \<longleftrightarrow> x \<le> y \<and> \<not> y \<le> x"
    by (auto simp: less_eq_pane_phase_def less_pane_phase_def)
  show "x \<le> x" by (simp add: less_eq_pane_phase_def)
  show "x \<le> y \<Longrightarrow> y \<le> z \<Longrightarrow> x \<le> z" by (simp add: less_eq_pane_phase_def)
  show "x \<le> y \<Longrightarrow> y \<le> x \<Longrightarrow> x = y"
    by (cases x; cases y) (simp_all add: less_eq_pane_phase_def phase_rank_def)
  show "x \<le> y \<or> y \<le> x" by (auto simp: less_eq_pane_phase_def)
qed

end

lemma New_least [simp]: "New \<le> ph"
  by (cases ph) (simp_all add: less_eq_pane_phase_def phase_rank_def)

lemma Dead_greatest [simp]: "ph \<le> Dead"
  by (cases ph) (simp_all add: less_eq_pane_phase_def phase_rank_def)

definition phase_of :: "pane \<Rightarrow> pane_phase" where
  "phase_of pn = (if p_IsRunning pn then Running else if p_TTY pn = None then New else Dead)"

subsection \<open>Growth of the stores\<close>

definition pane_grows :: "bool \<Rightarrow> pane \<Rightarrow> pane \<Rightarrow> bool" where
  "pane_grows may_start pn pn' \<longleftrightarrow> p_ID pn' = p_ID pn \<and> p_peer pn' = p_peer pn \<and>
     phase_of pn \<le> phase_of pn' \<and> (p_vt pn \<noteq> None \<longrightarrow> p_vt pn' \<noteq> None) \<and>
     (p_Ws pn \<noteq> None \<longrightarrow> p_Ws pn' \<noteq> None) \<and>
     (p_TTY pn = None \<longrightarrow> may_start \<or> p_TTY pn' = None)"

definition peer_grows :: "peer \<Rightarrow> peer \<Rightarrow> bool" where
  "peer_grows pr pr' \<longleftrightarrow> pr_FP pr' = pr_FP pr \<and> (pr_cdc pr \<noteq> None \<longrightarrow> pr_cdc pr' \<noteq> None) \<and>
     (pr_PC pr' \<longrightarrow> pr_PC pr) \<and> (pr_draining pr \<longrightarrow> pr_draining pr') \<and>
     length (pr_pending pr') \<le> max 8 (length (pr_pending pr))"

definition grows_but :: "pane_ref set \<Rightarrow> agent \<Rightarrow> agent \<Rightarrow> bool" where
  "grows_but X a b \<longleftrightarrow>
     (\<forall>r pn. pane_at a r = Some pn \<longrightarrow> (\<exists>pn'. pane_at b r = Some pn' \<and> pane_grows (r \<in> X) pn pn')) \<and>
     (\<forall>p pr. peer_at a p = Some pr \<longrightarrow> (\<exists>pr'. peer_at b p = Some pr' \<and> peer_grows pr pr'))"

abbreviation grows :: "agent \<Rightarrow> agent \<Rightarrow> bool" where
  "grows \<equiv> grows_but {}"

lemma pane_grows_refl [simp]: "pane_grows s pn pn"
  by (simp add: pane_grows_def)

lemma peer_grows_refl [simp]: "peer_grows pr pr"
  by (simp add: peer_grows_def)

lemma grows_refl [simp]: "grows_but X a a"
  by (simp add: grows_but_def)

lemma pane_grows_trans:
  "pane_grows s pn pn1 \<Longrightarrow> pane_grows s' pn1 pn2 \<Longrightarrow> pane_grows (s \<or> s') pn pn2"
  by (auto simp: pane_grows_def)

lemma peer_grows_trans: "peer_grows pr pr1 \<Longrightarrow> peer_grows pr1 pr2 \<Longrightarrow> peer_grows pr pr2"
  by (auto simp: peer_grows_def)

lemma growsD_pane:
  assumes "grows_but X a b" and "pane_at a r = Some pn"
  obtains pn' where "pane_at b r = Some pn'" "pane_grows (r \<in> X) pn pn'"
  using assms unfolding grows_but_def by blast

lemma growsD_peer:
  assumes "grows_but X a b" and "peer_at a p = Some pr"
  obtains pr' where "peer_at b p = Some pr'" "peer_grows pr pr'"
  using assms unfolding grows_but_def by blast

lemma grows_trans:
  assumes "grows_but X a b" and "grows_but Y b c"
  shows "grows_but (X \<union> Y) a c"
proof -
  have "\<exists>pn'. pane_at c r = Some pn' \<and> pane_grows (r \<in> X \<union> Y) pn pn'"
    if "pane_at a r = Some pn" for r pn
  proof -
    from growsD_pane [OF assms(1) that] obtain pn1
      where 1: "pane_at b r = Some pn1" "pane_grows (r \<in> X) pn pn1" .
    from growsD_pane [OF assms(2) 1(1)] obtain pn2
      where "pane_at c r = Some pn2" "pane_grows (r \<in> Y) pn1 pn2" .
    with 1 pane_grows_trans show ?thesis by fastforce
  qed
  moreover have "\<exists>pr'. peer_at c p = Some pr' \<and> peer_grows pr pr'" if "peer_at a p = Some pr" for p pr
    using assms that peer_grows_trans unfolding grows_but_def by meson
  ultimately show ?thesis by (simp add: grows_but_def)
qed

lemma grows_mono: "grows_but X a b \<Longrightarrow> (\<And>r. r \<in> X \<Longrightarrow> pane_at a r \<noteq> None \<Longrightarrow> r \<in> Y) \<Longrightarrow> grows_but Y a b"
  unfolding grows_but_def pane_grows_def by (metis option.distinct(1))

lemma grows_emp_trans: "grows a b \<Longrightarrow> grows_but X b c \<Longrightarrow> grows_but X a c"
  using grows_trans [of "{}" a b X c] by simp

lemma grows_trans_emp: "grows_but X a b \<Longrightarrow> grows b c \<Longrightarrow> grows_but X a c"
  using grows_trans [of X a b "{}" c] by simp

subsection \<open>References\<close>

definition has_peer :: "agent \<Rightarrow> peer_ref \<Rightarrow> bool" where
  "has_peer a p \<longleftrightarrow> peer_at a p \<noteq> None"

definition has_pane :: "agent \<Rightarrow> pane_ref \<Rightarrow> bool" where
  "has_pane a r \<longleftrightarrow> pane_at a r \<noteq> None"

definition has_cdc :: "agent \<Rightarrow> peer_ref \<Rightarrow> bool" where
  "has_cdc a p \<longleftrightarrow> (\<exists>pr. peer_at a p = Some pr \<and> pr_cdc pr \<noteq> None)"

definition has_vt :: "agent \<Rightarrow> pane_ref \<Rightarrow> bool" where
  "has_vt a r \<longleftrightarrow> (\<exists>pn. pane_at a r = Some pn \<and> p_vt pn \<noteq> None)"

fun open_ok :: "agent \<Rightarrow> open_action \<Rightarrow> bool" where
  "open_ok a (OpenLabelled p) \<longleftrightarrow> has_peer a p"
| "open_ok a (OpenAddPane p m r cmd) \<longleftrightarrow> has_cdc a p \<and> has_pane a r \<and> cmd \<noteq> []"
| "open_ok a (OpenReconnect p m i) \<longleftrightarrow> has_cdc a p"

fun msg_ok :: "agent \<Rightarrow> msg_action \<Rightarrow> bool" where
  "msg_ok a (ToPane p r) \<longleftrightarrow> has_peer a p \<and> has_pane a r"
| "msg_ok a (ToControl p) \<longleftrightarrow> has_cdc a p"

fun timer_ok :: "agent \<Rightarrow> timer \<Rightarrow> bool" where
  "timer_ok a (SendDump d r) \<longleftrightarrow> has_vt a r"
| "timer_ok a (SendSince d r m) \<longleftrightarrow> has_pane a r"

definition client_ok :: "agent \<Rightarrow> client \<Rightarrow> bool" where
  "client_ok a c \<longleftrightarrow> has_pane a (c_pane c) \<and> has_peer a (c_peer c)"

lemma has_peer_grows: "grows_but X a b \<Longrightarrow> has_peer a p \<Longrightarrow> has_peer b p"
  by (fastforce simp: grows_but_def has_peer_def)

lemma has_pane_grows: "grows_but X a b \<Longrightarrow> has_pane a r \<Longrightarrow> has_pane b r"
  by (fastforce simp: grows_but_def has_pane_def)

lemma has_cdc_grows: "grows_but X a b \<Longrightarrow> has_cdc a p \<Longrightarrow> has_cdc b p"
  by (fastforce simp: grows_but_def has_cdc_def peer_grows_def)

lemma has_vt_grows: "grows_but X a b \<Longrightarrow> has_vt a r \<Longrightarrow> has_vt b r"
  by (fastforce simp: grows_but_def has_vt_def pane_grows_def)

lemmas has_grows = has_peer_grows has_pane_grows has_cdc_grows has_vt_grows

lemma has_cdc_peer: "has_cdc a p \<Longrightarrow> has_peer a p"
  by (auto simp: has_cdc_def has_peer_def)

lemma has_vt_pane: "has_vt a r \<Longrightarrow> has_pane a r"
  by (auto simp: has_vt_def has_pane_def)

lemma open_ok_grows: "grows_but X a b \<Longrightarrow> open_ok a x \<Longrightarrow> open_ok b x"
  by (cases x) (auto intro: has_grows)

lemma msg_ok_grows: "grows_but X a b \<Longrightarrow> msg_ok a x \<Longrightarrow> msg_ok b x"
  by (cases x) (auto intro: has_grows)

lemma timer_ok_grows: "grows_but X a b \<Longrightarrow> timer_ok a x \<Longrightarrow> timer_ok b x"
  by (cases x) (auto intro: has_grows)

lemma client_ok_grows: "grows_but X a b \<Longrightarrow> client_ok a c \<Longrightarrow> client_ok b c"
  by (auto simp: client_ok_def intro: has_grows)

subsection \<open>The invariant\<close>

text \<open>\<open>printed r evs\<close> is all that pane \<open>r\<close> has printed.\<close>

fun chunk_of :: "pane_ref \<Rightarrow> event \<Rightarrow> bytes" where
  "chunk_of r (Printed r' m) = (if r' = r then m else [])"
| "chunk_of r _ = []"

definition printed :: "pane_ref \<Rightarrow> event list \<Rightarrow> bytes" where
  "printed r evs = concat (map (chunk_of r) evs)"

lemma printed_Nil [simp]: "printed r [] = []"
  by (simp add: printed_def)

lemma printed_snoc [simp]: "printed r (evs @ [e]) = printed r evs @ chunk_of r e"
  by (simp add: printed_def)

abbreviation pane_buffer_size :: nat where
  "pane_buffer_size \<equiv> 100000"

definition history_ok :: "agent \<Rightarrow> pane_ref \<Rightarrow> buffer \<Rightarrow> bool" where
  "history_ok a r buf \<longleftrightarrow>
     (\<exists>ps. buf_rel pane_buffer_size buf (blank pane_buffer_size @ printed r (sent a)) ps)"

definition pane_ok :: "agent \<Rightarrow> pane_ref \<Rightarrow> pane \<Rightarrow> bool" where
  "pane_ok a r pn \<longleftrightarrow> panes (Panes a) (p_ID pn) = Some r \<and> has_peer a (p_peer pn) \<and>
     (p_IsRunning pn \<longrightarrow> p_TTY pn \<noteq> None) \<and> (p_vt pn \<noteq> None \<longleftrightarrow> p_Ws pn \<noteq> None) \<and>
     history_ok a r (p_Buffer pn)"

definition panes_ok :: "agent \<Rightarrow> bool" where
  "panes_ok a \<longleftrightarrow> panes_inv (Panes a) \<and>
     (\<forall>i r. panes (Panes a) i = Some r \<longrightarrow> (\<exists>pn. pane_at a r = Some pn \<and> p_ID pn = i)) \<and>
     (\<forall>r pn. pane_at a r = Some pn \<longrightarrow> pane_ok a r pn) \<and>
     (\<forall>r \<ge> next_pane a. pane_at a r = None \<and> printed r (sent a) = [])"

definition clients_ok :: "agent \<Rightarrow> bool" where
  "clients_ok a \<longleftrightarrow> clients_inv (CDB a) \<and> (\<forall>i c. clients (CDB a) i = Some c \<longrightarrow> client_ok a c)"

definition peers_ok :: "agent \<Rightarrow> bool" where
  "peers_ok a \<longleftrightarrow> finite (dom (Peers a)) \<and>
     (\<forall>fp p. Peers a fp = Some p \<longrightarrow> (\<exists>pr. peer_at a p = Some pr \<and> pr_FP pr = fp)) \<and>
     (\<forall>p \<ge> next_peer a. peer_at a p = None) \<and>
     (\<forall>p pr. peer_at a p = Some pr \<longrightarrow> length (pr_pending pr) \<le> 8) \<and>
     (\<forall>p t. mostRecent a = Some (p, t) \<longrightarrow> has_peer a p)"

definition waiting_ok :: "agent \<Rightarrow> bool" where
  "waiting_ok a \<longleftrightarrow> (\<forall>d p m r cmd. on_open a d = Some (OpenAddPane p m r cmd) \<longrightarrow>
     (\<forall>pn. pane_at a r = Some pn \<longrightarrow> p_TTY pn = None) \<and>
     (\<forall>d' p' m' cmd'. on_open a d' = Some (OpenAddPane p' m' r cmd') \<longrightarrow> d' = d))"

definition callbacks_ok :: "agent \<Rightarrow> bool" where
  "callbacks_ok a \<longleftrightarrow> (\<forall>d x. on_open a d = Some x \<longrightarrow> open_ok a x) \<and>
     (\<forall>d x. on_msg a d = Some x \<longrightarrow> msg_ok a x) \<and> (\<forall>t \<in> set (timers a). timer_ok a t)"

definition agent_inv :: "agent \<Rightarrow> bool" where
  "agent_inv a \<longleftrightarrow> panes_ok a \<and> clients_ok a \<and> peers_ok a \<and> callbacks_ok a \<and> waiting_ok a"

lemma agent_invD:
  assumes "agent_inv a"
  shows "panes_ok a" "clients_ok a" "peers_ok a" "callbacks_ok a" "waiting_ok a"
  using assms by (simp_all add: agent_inv_def)

lemma initial_agent_inv: "agent_inv initial_agent"
  using newPanesDB_inv newClientsDB_inv
  by (simp add: agent_inv_def initial_agent_def panes_ok_def clients_ok_def peers_ok_def
      callbacks_ok_def waiting_ok_def newPanesDB_def newClientsDB_def)

lemma inv_pane_ok: "agent_inv a \<Longrightarrow> pane_at a r = Some pn \<Longrightarrow> pane_ok a r pn"
  by (simp add: agent_inv_def panes_ok_def)

lemma inv_table_pane:
  assumes "agent_inv a" and "panes_get i (Panes a) = Some r"
  obtains pn where "pane_at a r = Some pn" "p_ID pn = i" "pane_ok a r pn"
  using assms unfolding agent_inv_def panes_ok_def panes_get_def by metis

lemma inv_pane_peer:
  assumes "agent_inv a" and "pane_at a r = Some pn"
  obtains pr where "peer_at a (p_peer pn) = Some pr"
  using inv_pane_ok [OF assms] by (auto simp: pane_ok_def has_peer_def)

lemma inv_fresh: "agent_inv a \<Longrightarrow> next_pane a \<le> r \<Longrightarrow> pane_at a r = None \<and> printed r (sent a) = []"
  by (simp add: agent_inv_def panes_ok_def)

subsection \<open>Updates that keep it\<close>

text \<open>\<open>keeps a b\<close>: going from \<open>a\<close> to \<open>b\<close> keeps the invariant and every object, starts no pane and
  uses up no id. It is the contract of most operations.\<close>

definition keeps :: "agent \<Rightarrow> agent \<Rightarrow> bool" where
  "keeps a b \<longleftrightarrow> (agent_inv a \<longrightarrow> agent_inv b \<and> grows a b \<and>
     clients_left (CDB b) = clients_left (CDB a) \<and> panes_left (Panes b) = panes_left (Panes a))"

lemma keeps_refl [simp, intro]: "keeps a a"
  by (simp add: keeps_def)

lemma keeps_trans [trans]: "keeps a b \<Longrightarrow> keeps b c \<Longrightarrow> keeps a c"
  using grows_emp_trans by (auto simp: keeps_def)

lemma keepsD:
  assumes "keeps a b" and "agent_inv a"
  shows "agent_inv b" and "grows a b" and "clients_left (CDB b) = clients_left (CDB a)"
    and "panes_left (Panes b) = panes_left (Panes a)"
  using assms by (simp_all add: keeps_def)

lemma emit_simps [simp]:
  "pane_at (emit e a) = pane_at a" "peer_at (emit e a) = peer_at a" "Panes (emit e a) = Panes a"
  "CDB (emit e a) = CDB a" "Peers (emit e a) = Peers a" "next_pane (emit e a) = next_pane a"
  "next_peer (emit e a) = next_peer a" "on_open (emit e a) = on_open a" "on_msg (emit e a) = on_msg a"
  "on_close (emit e a) = on_close a" "timers (emit e a) = timers a" "Payload (emit e a) = Payload a"
  "mostRecent (emit e a) = mostRecent a" "lastMarker (emit e a) = lastMarker a"
  "sent (emit e a) = sent a @ [e]"
  by (simp_all add: emit_def)

lemma set_pane_simps [simp]:
  "pane_at (set_pane r pn a) = (pane_at a)(r \<mapsto> pn)" "peer_at (set_pane r pn a) = peer_at a"
  "Panes (set_pane r pn a) = Panes a" "CDB (set_pane r pn a) = CDB a" "Peers (set_pane r pn a) = Peers a"
  "next_pane (set_pane r pn a) = next_pane a" "next_peer (set_pane r pn a) = next_peer a"
  "on_open (set_pane r pn a) = on_open a" "on_msg (set_pane r pn a) = on_msg a"
  "on_close (set_pane r pn a) = on_close a" "timers (set_pane r pn a) = timers a"
  "Payload (set_pane r pn a) = Payload a" "mostRecent (set_pane r pn a) = mostRecent a"
  "lastMarker (set_pane r pn a) = lastMarker a" "sent (set_pane r pn a) = sent a"
  by (simp_all add: set_pane_def)

lemma set_peer_simps [simp]:
  "pane_at (set_peer p pr a) = pane_at a" "peer_at (set_peer p pr a) = (peer_at a)(p \<mapsto> pr)"
  "Panes (set_peer p pr a) = Panes a" "CDB (set_peer p pr a) = CDB a" "Peers (set_peer p pr a) = Peers a"
  "next_pane (set_peer p pr a) = next_pane a" "next_peer (set_peer p pr a) = next_peer a"
  "on_open (set_peer p pr a) = on_open a" "on_msg (set_peer p pr a) = on_msg a"
  "on_close (set_peer p pr a) = on_close a" "timers (set_peer p pr a) = timers a"
  "Payload (set_peer p pr a) = Payload a" "mostRecent (set_peer p pr a) = mostRecent a"
  "lastMarker (set_peer p pr a) = lastMarker a" "sent (set_peer p pr a) = sent a"
  by (simp_all add: set_peer_def)

lemma grows_same: "pane_at b = pane_at a \<Longrightarrow> peer_at b = peer_at a \<Longrightarrow> grows_but X a b"
  by (simp add: grows_but_def)

lemma history_ok_same:
  "printed r (sent b) = printed r (sent a) \<Longrightarrow> history_ok b r buf \<longleftrightarrow> history_ok a r buf"
  by (simp add: history_ok_def)

text \<open>The invariant looks at few fields only.\<close>

lemma panes_ok_same:
  assumes "panes_ok a" and "Panes b = Panes a" and "pane_at b = pane_at a"
    and "next_pane b = next_pane a" and "\<And>r. printed r (sent b) = printed r (sent a)"
    and "\<And>p. has_peer a p \<Longrightarrow> has_peer b p"
  shows "panes_ok b"
  using assms by (simp add: panes_ok_def pane_ok_def history_ok_def)

lemma clients_ok_grows: "clients_ok a \<Longrightarrow> grows_but X a b \<Longrightarrow> CDB b = CDB a \<Longrightarrow> clients_ok b"
  by (auto simp: clients_ok_def intro: client_ok_grows)

lemma callbacks_ok_grows:
  "callbacks_ok a \<Longrightarrow> grows_but X a b \<Longrightarrow> on_open b = on_open a \<Longrightarrow> on_msg b = on_msg a \<Longrightarrow>
   timers b = timers a \<Longrightarrow> callbacks_ok b"
  by (auto simp: callbacks_ok_def intro: open_ok_grows msg_ok_grows timer_ok_grows)

lemma waiting_ok_grows:
  assumes "waiting_ok a" and "callbacks_ok a" and "grows a b" and "on_open b = on_open a"
  shows "waiting_ok b"
proof -
  have "p_TTY pn' = None"
    if o: "on_open a d = Some (OpenAddPane p m r cmd)" and pn': "pane_at b r = Some pn'"
    for d p m r cmd pn'
  proof -
    have "has_pane a r" using assms(2) o by (force simp: callbacks_ok_def)
    then obtain pn where pn: "pane_at a r = Some pn" by (auto simp: has_pane_def)
    with assms(1) o have "p_TTY pn = None" unfolding waiting_ok_def by blast
    with growsD_pane [OF assms(3) pn] pn' show ?thesis by (auto simp: pane_grows_def)
  qed
  with assms(1,4) show ?thesis by (simp add: waiting_ok_def)
qed

lemma peers_ok_grows:
  assumes "peers_ok a" and "grows_but X a b" and "Peers b = Peers a" and "next_peer b = next_peer a"
    and "\<And>p. has_peer b p \<Longrightarrow> has_peer a p" and "mostRecent b = mostRecent a"
  shows "peers_ok b"
proof -
  have "\<exists>pr. peer_at b p = Some pr \<and> pr_FP pr = fp" if "Peers a fp = Some p" for fp p
  proof -
    from assms(1) that obtain pr where "peer_at a p = Some pr" "pr_FP pr = fp"
      by (auto simp: peers_ok_def)
    with growsD_peer [OF assms(2) this(1)] show ?thesis by (auto simp: peer_grows_def)
  qed
  moreover have "\<forall>p \<ge> next_peer a. peer_at b p = None"
    using assms(1,5) unfolding peers_ok_def has_peer_def by blast
  moreover have "length (pr_pending pr') \<le> 8" if pr': "peer_at b p = Some pr'" for p pr'
  proof -
    from assms(5) [of p] pr' obtain pr where pr: "peer_at a p = Some pr" by (auto simp: has_peer_def)
    with assms(1) have "length (pr_pending pr) \<le> 8" by (auto simp: peers_ok_def)
    with growsD_peer [OF assms(2) pr] pr' show ?thesis by (auto simp: peer_grows_def)
  qed
  moreover have "\<And>p t. mostRecent a = Some (p, t) \<Longrightarrow> has_peer b p"
    using assms(1,2) by (auto simp: peers_ok_def intro: has_grows)
  ultimately show ?thesis using assms by (simp add: peers_ok_def)
qed

text \<open>An update outside the tables of panes and clients, that moves no callback.\<close>

lemma inv_frame:
  assumes inv: "agent_inv a" and g: "grows a b" and same: "Panes b = Panes a" "next_pane b = next_pane a"
      "CDB b = CDB a" "Peers b = Peers a" "next_peer b = next_peer a" "mostRecent b = mostRecent a"
      "on_open b = on_open a" "on_msg b = on_msg a" "timers b = timers a"
    and ps: "panes_ok b" and hp: "\<And>p. has_peer b p \<Longrightarrow> has_peer a p"
  shows "agent_inv b"
  using agent_invD [OF inv] g same ps hp
  by (auto simp: agent_inv_def intro: clients_ok_grows callbacks_ok_grows waiting_ok_grows peers_ok_grows)

lemma emit_keeps:
  assumes "\<And>r. chunk_of r e = []"
  shows "keeps a (emit e a)"
proof -
  have "agent_inv (emit e a)" if inv: "agent_inv a"
  proof (rule inv_frame [OF inv])
    show "panes_ok (emit e a)"
      using assms by (intro panes_ok_same [OF agent_invD(1) [OF inv]]) (simp_all add: has_peer_def)
  qed (simp_all add: grows_same has_peer_def)
  then show ?thesis by (simp add: keeps_def grows_same)
qed

lemma set_pane_grows:
  assumes "pane_at a r = Some pn" and "pane_grows (r \<in> X) pn pn'"
  shows "grows_but X a (set_pane r pn' a)"
  using assms by (auto simp: grows_but_def)

lemma set_pane_panes_ok:
  assumes "panes_ok a" and "pane_at a r = Some pn" and "pane_ok a r pn'" and "p_ID pn' = p_ID pn"
  shows "panes_ok (set_pane r pn' a)"
  using assms unfolding panes_ok_def pane_ok_def
  by (auto simp: has_peer_def history_ok_def) (metis option.inject)+

lemma set_pane_keeps:
  assumes "pane_at a r = Some pn" and "pane_grows False pn pn'" and "agent_inv a \<Longrightarrow> pane_ok a r pn'"
  shows "keeps a (set_pane r pn' a)"
proof -
  have g: "grows a (set_pane r pn' a)" using assms(1,2) by (intro set_pane_grows) simp_all
  have "agent_inv (set_pane r pn' a)" if inv: "agent_inv a"
  proof (rule inv_frame [OF inv g])
    show "panes_ok (set_pane r pn' a)"
      using set_pane_panes_ok [OF agent_invD(1) [OF inv] assms(1) assms(3) [OF inv]] assms(2)
      by (simp add: pane_grows_def)
  qed (simp_all add: has_peer_def)
  with g show ?thesis by (simp add: keeps_def)
qed

lemma set_peer_keeps:
  assumes "peer_at a p = Some pr" and "peer_grows pr pr'"
  shows "keeps a (set_peer p pr' a)"
proof -
  have g: "grows a (set_peer p pr' a)" using assms by (auto simp: grows_but_def)
  have hp: "has_peer (set_peer p pr' a) q \<longleftrightarrow> has_peer a q" for q
    using assms(1) by (simp add: has_peer_def)
  have "agent_inv (set_peer p pr' a)" if inv: "agent_inv a"
  proof (rule inv_frame [OF inv g])
    show "panes_ok (set_peer p pr' a)"
      by (rule panes_ok_same [OF agent_invD(1) [OF inv]]) (simp_all add: hp)
  qed (simp_all add: hp)
  with g show ?thesis by (simp add: keeps_def)
qed

lemma simple_update_keeps:
  assumes "panes_ok a \<Longrightarrow> panes_ok b" and "clients_ok a \<Longrightarrow> clients_ok b"
    and "peers_ok a \<Longrightarrow> peers_ok b" and "agent_inv a \<Longrightarrow> callbacks_ok b" and "waiting_ok a \<Longrightarrow> waiting_ok b"
    and "pane_at b = pane_at a" and "peer_at b = peer_at a"
    and "clients_left (CDB b) = clients_left (CDB a)" and "panes_left (Panes b) = panes_left (Panes a)"
  shows "keeps a b"
  using assms grows_same [of b a "{}"] by (simp add: keeps_def agent_inv_def)

end
