(* ===== verification/Pane_Ops.thy ===== *)
theory Pane_Ops
  imports Agent_Inv
begin

section \<open>The operations of a pane: peers/pane.go\<close>

text \<open>
  A pane is created (\<open>NewPane\<close>), given its command (\<open>Run\<close>), feeds what the command prints to its
  clients, to the headless terminal and to the history (\<open>sender\<close>), passes on what the clients type
  (\<open>OnMessage\<close>), and is killed when its command ends. \<open>None\<close> is a panic of the program.
\<close>

subsection \<open>ExecCommand\<close>

text \<open>\<open>int32(pID)\<close>, as \<open>process.NewProcess\<close> takes it.\<close>

definition int32 :: "int \<Rightarrow> int" where
  "int32 i = signed_take_bit 31 i"

definition exec_dir :: "env \<Rightarrow> int \<Rightarrow> bytes option" where
  "exec_dir E pID =
     (if pID \<noteq> 0 then if e_process E (int32 pID) then e_cwd E (int32 pID) else None
      else e_home E)"

text \<open>\<open>cmd.Env\<close> stays nil, and the command inherits the agent's variables, when nothing is appended.\<close>

definition exec_env :: "env \<Rightarrow> (bytes \<rightharpoonup> bytes) option \<Rightarrow> bytes list option" where
  "exec_env E envm =
     (case envm of
        None \<Rightarrow> None
      | Some m \<Rightarrow> (let vs = map (\<lambda>k. k @ ''='' @ the (m k)) (e_env_keys E m)
                   in if vs = [] then None else Some vs))"

text \<open>\<open>command[0]\<close> panics on an empty command; \<open>Some None\<close> is an error.\<close>

definition execCommand ::
  "env \<Rightarrow> bytes list \<Rightarrow> (bytes \<rightharpoonup> bytes) option \<Rightarrow> winsize option \<Rightarrow> int \<Rightarrow>
   (int option \<times> tty) option option" where
  "execCommand E command envm ws pID =
     (if command = [] then None
      else Some (case exec_dir E pID of
             None \<Rightarrow> None
           | Some dir \<Rightarrow>
               (case e_spawn E \<lparr>x_argv = command, x_dir = dir, x_env = exec_env E envm, x_ws = ws\<rparr> of
                  None \<Rightarrow> None
                | Some (pid, f) \<Rightarrow> Some (Some pid, TtyFile f))))"

subsection \<open>NewPane and Run\<close>

text \<open>The process of the parent pane: a panic if it has none yet, an error for a bad id.\<close>

definition parent_pid :: "int \<Rightarrow> agent \<Rightarrow> int option option" where
  "parent_pid parent a =
     (if parent = 0 then Some (Some 0)
      else case panes_get parent (Panes a) of
             None \<Rightarrow> Some None
           | Some q \<Rightarrow> do { pn \<leftarrow> pane_at a q; pid \<leftarrow> p_C pn; Some (Some pid) })"

definition fresh_pane :: "peer_ref \<Rightarrow> winsize option \<Rightarrow> int \<Rightarrow> buffer \<Rightarrow> int \<Rightarrow> pane" where
  "fresh_pane p ws pid buf i =
     \<lparr>p_ID = i, p_parent = pid, p_C = None, p_IsRunning = False, p_TTY = None, p_Buffer = buf,
      p_Ws = ws, p_vt = map_option (\<lambda>w. [VtNew (ws_cols w) (ws_rows w)]) ws,
      p_cancelled = False, p_peer = p, p_readers = 0, p_stuck = False, p_blocked = 0\<rparr>"

definition newPane :: "peer_ref \<Rightarrow> winsize option \<Rightarrow> int \<Rightarrow> agent \<Rightarrow> (agent \<times> pane_ref option) option" where
  "newPane p ws parent a = do {
     pp \<leftarrow> parent_pid parent a;
     (case pp of
        None \<Rightarrow> Some (a, None)
      | Some pid \<Rightarrow> do {
          buf \<leftarrow> newBuffer 100000;
          let r = next_pane a;
          let (pd, i) = panes_add r (Panes a);
          Some (set_pane r (fresh_pane p ws pid buf i) (a\<lparr>Panes := pd, next_pane := Suc r\<rparr>), Some r)
        })
   }"

definition run_command ::
  "env \<Rightarrow> bytes list \<Rightarrow> winsize option \<Rightarrow> int \<Rightarrow> bytes \<Rightarrow> (int option \<times> tty) option option" where
  "run_command E command ws parent fp =
     (case e_run E of
        Some run \<Rightarrow> Some (run command (e_env E) ws parent fp)
      | None \<Rightarrow> execCommand E command (e_env E) ws parent)"

text \<open>\<open>Run\<close>: the new state, and whether there was no error.\<close>

definition pane_run :: "env \<Rightarrow> pane_ref \<Rightarrow> bytes list \<Rightarrow> agent \<Rightarrow> (agent \<times> bool) option" where
  "pane_run E r command a = do {
     pn \<leftarrow> pane_at a r;
     pr \<leftarrow> peer_at a (p_peer pn);
     res \<leftarrow> run_command E command (p_Ws pn) (p_parent pn) (pr_FP pr);
     (case res of
        None \<Rightarrow> Some (a, False)
      | Some (cmd, t) \<Rightarrow>
          Some (set_pane r (pn\<lparr>p_C := cmd, p_IsRunning := True, p_TTY := Some t,
                               p_readers := Suc (p_readers pn)\<rparr>) a, True))
   }"

definition sendFirstMessage :: "env \<Rightarrow> pane_ref \<Rightarrow> dc \<Rightarrow> agent \<Rightarrow> agent option" where
  "sendFirstMessage E r d a = do {
     pn \<leftarrow> pane_at a r;
     Some (fst (dc_send E d (first_message (p_ID pn) (p_Ws pn)) a))
   }"

text \<open>\<open>go pane.ReadLoop()\<close>\<close>

definition start_reader :: "pane_ref \<Rightarrow> agent \<Rightarrow> agent option" where
  "start_reader r a = do {
     pn \<leftarrow> pane_at a r;
     Some (set_pane r (pn\<lparr>p_readers := Suc (p_readers pn)\<rparr>) a)
   }"

subsection \<open>ReadLoop\<close>

text \<open>The loop on what each turn finds: whether the context is cancelled, and what \<open>Read\<close> returns.
  The result are the chunks put on \<open>outbuf\<close>, and whether the loop has ended. \<open>conNull\<close> counts the
  empty reads in a row.\<close>

datatype read_error = ReadEOF | OtherReadError

fun readLoop :: "nat \<Rightarrow> (bool \<times> bytes \<times> read_error option) list \<Rightarrow> bytes list \<times> bool" where
  "readLoop conNull [] = ([], False)"
| "readLoop conNull ((cancelled, b, rerr) # rs) =
     (if cancelled then ([], True)
      else if rerr \<noteq> None then ([], True)
      else if b = [] then
        (if Suc conNull \<le> 3 then readLoop (Suc conNull) rs else ([], True))
      else (case readLoop 0 rs of (out, ended) \<Rightarrow> (b # out, ended)))"

text \<open>\<open>stderrLoop\<close> reads lines from a buffer in memory, which is at its end as soon as it is empty; the
  last line without a newline is read with the end and dropped. For each turn: whether the context
  is cancelled. The lines it logs.\<close>

definition read_line :: "bytes \<Rightarrow> bytes \<times> bytes \<times> bool" where
  "read_line buf =
     (let l = before newline buf
      in if length l < length buf then (l @ [newline], drop (Suc (length l)) buf, False) else (l, [], True))"

fun stderrLoop :: "bool list \<Rightarrow> bytes \<Rightarrow> bytes list" where
  "stderrLoop [] errors = []"
| "stderrLoop (cancelled # cs) errors =
     (if cancelled then []
      else case read_line errors of
             (line, rest, eof) \<Rightarrow> if eof then [] else line # stderrLoop cs rest)"

text \<open>\<open>Run\<close> starts it with a new buffer, and sets the command's \<open>Stderr\<close> after the command has started: it
  ends at its first turn and nothing is ever logged.\<close>

lemma stderrLoop_new: "stderrLoop cs [] = []"
  by (cases cs) (simp_all add: read_line_def before_def)

subsection \<open>sender\<close>

text \<open>One turn: the loop over the clients, then the terminal and the history.\<close>

fun deliver :: "env \<Rightarrow> bytes \<Rightarrow> client list \<Rightarrow> agent \<Rightarrow> agent" where
  "deliver E m [] a = a"
| "deliver E m (c # cs) a =
     deliver E m cs
       (if e_open E (c_dc c) then fst (dc_send E (c_dc c) m a)
        else emit (ClosedChannel (c_dc c)) (drop_client E c a))"

definition sender_turn :: "env \<Rightarrow> pane_ref \<Rightarrow> bytes \<Rightarrow> agent \<Rightarrow> agent option" where
  "sender_turn E r m a = do {
     let a1 = deliver E m (clients_of E r a) a;
     pn \<leftarrow> pane_at a1 r;
     let vt = map_option (\<lambda>ops. ops @ [VtWrite m]) (p_vt pn);
     if p_stuck pn
     then Some (set_pane r (pn\<lparr>p_vt := vt, p_blocked := Suc (p_blocked pn)\<rparr>) a1)
     else do {
       buf \<leftarrow> add m (p_Buffer pn);
       Some (emit (Printed r m) (set_pane r (pn\<lparr>p_vt := vt, p_Buffer := buf\<rparr>) a1))
     }
   }"

subsection \<open>Kill\<close>

text \<open>\<open>ReadyState\<close> at this moment: a channel the agent has closed already is not open any more, as when
  it is registered with the pane twice.\<close>

definition still_open :: "env \<Rightarrow> dc \<Rightarrow> agent \<Rightarrow> bool" where
  "still_open E d a \<longleftrightarrow> e_open E d \<and> ClosedChannel d \<notin> set (sent a)"

fun kill_clients :: "env \<Rightarrow> client list \<Rightarrow> agent \<Rightarrow> agent" where
  "kill_clients E [] a = a"
| "kill_clients E (c # cs) a =
     kill_clients E cs
       (drop_client E c (if still_open E (c_dc c) a then emit (ClosedChannel (c_dc c)) a else a))"

definition kill_process :: "pane \<Rightarrow> agent \<Rightarrow> agent" where
  "kill_process pn a =
     (if p_IsRunning pn then (case p_C pn of None \<Rightarrow> a | Some pid \<Rightarrow> emit (KilledProcess pid) a) else a)"

definition close_tty :: "pane \<Rightarrow> agent \<Rightarrow> agent" where
  "close_tty pn a = (case p_TTY pn of None \<Rightarrow> a | Some t \<Rightarrow> emit (ClosedTty t) a)"

definition pane_kill :: "env \<Rightarrow> pane_ref \<Rightarrow> agent \<Rightarrow> agent option" where
  "pane_kill E r a = do {
     let a1 = kill_clients E (clients_of E r a) a;
     pn \<leftarrow> pane_at a1 r;
     let a2 = set_pane r (pn\<lparr>p_IsRunning := False, p_cancelled := p_cancelled pn \<or> p_IsRunning pn\<rparr>) a1;
     Some (close_tty pn (kill_process pn a2))
   }"

text \<open>The end of a read loop, a tenth of a second later: \<open>Panes.Get(id)\<close> and \<open>Kill\<close>.\<close>

definition reader_end :: "env \<Rightarrow> pane_ref \<Rightarrow> agent \<Rightarrow> agent option" where
  "reader_end E r a = do {
     pn \<leftarrow> pane_at a r;
     q \<leftarrow> panes_get (p_ID pn) (Panes a);
     pane_kill E q a
   }"

subsection \<open>OnMessage, Resize and Restore\<close>

definition pane_onMessage :: "env \<Rightarrow> pane_ref \<Rightarrow> bytes \<Rightarrow> agent \<Rightarrow> agent option" where
  "pane_onMessage E r p a = do {
     pn \<leftarrow> pane_at a r;
     t \<leftarrow> p_TTY pn;
     let (l, err) = e_tty_write E t p;
     let a1 = emit (WroteTty t (take l p)) a;
     if err = Some ErrClosed then pane_kill E r a1 else Some a1
   }"

text \<open>\<open>pane.Ws\<close> is dereferenced without a test, and \<open>pane.TTY\<close> must be a file.\<close>

definition pane_resize :: "pane_ref \<Rightarrow> winsize \<Rightarrow> agent \<Rightarrow> agent option" where
  "pane_resize r ws a = do {
     pn \<leftarrow> pane_at a r;
     old \<leftarrow> p_Ws pn;
     if ws_rows ws \<noteq> ws_rows old \<or> ws_cols ws \<noteq> ws_cols old
     then (case p_TTY pn of
             Some (TtyFile f) \<Rightarrow>
               Some (emit (ResizedTty (TtyFile f) ws)
                 (set_pane r (pn\<lparr>p_Ws := Some ws,
                    p_vt := map_option (\<lambda>ops. ops @ [VtResize (ws_cols ws) (ws_rows ws)]) (p_vt pn)\<rparr>) a))
           | _ \<Rightarrow> None)
     else Some a
   }"

text \<open>Without a marker, \<open>*id\<close> is dereferenced after the test that only logs.\<close>

definition restore :: "env \<Rightarrow> pane_ref \<Rightarrow> dc \<Rightarrow> int \<Rightarrow> agent \<Rightarrow> agent option" where
  "restore E r d marker a =
     (if marker = - 1 then do {
        pn \<leftarrow> pane_at a r;
        (case p_vt pn of
           None \<Rightarrow> Some a
         | Some _ \<Rightarrow> do { i \<leftarrow> e_dcid E d; Some (a\<lparr>timers := timers a @ [SendDump d r]\<rparr>) })
      }
      else Some (a\<lparr>timers := timers a @ [SendSince d r marker]\<rparr>))"

text \<open>A timer of \<open>Restore\<close> goes off. A read of the history that does not return keeps the buffer's
  mutex; one that finds it taken waits forever.\<close>

definition fire :: "env \<Rightarrow> timer \<Rightarrow> agent \<Rightarrow> agent option" where
  "fire E t a =
     (case t of
        SendDump d r \<Rightarrow> do {
          pn \<leftarrow> pane_at a r;
          ops \<leftarrow> p_vt pn;
          Some (fst (dc_send E d (dumpVT (e_default_fg E) (e_default_bg E) (e_screen E ops)) a))
        }
      | SendSince d r marker \<Rightarrow> do {
          pn \<leftarrow> pane_at a r;
          if p_stuck pn then Some a
          else (case getSinceMarker marker (p_Buffer pn) of
                  None \<Rightarrow> Some (set_pane r (pn\<lparr>p_stuck := True\<rparr>) a)
                | Some Panics \<Rightarrow> None
                | Some (Returns (b, buf)) \<Rightarrow>
                    Some (fst (dc_send E d b (set_pane r (pn\<lparr>p_Buffer := buf\<rparr>) a))))
        })"

subsection \<open>They keep the invariant\<close>

lemma dc_send_keeps [inv_intro]: "keeps a (fst (dc_send E d b a))"
  by (simp add: dc_send_def emit_keeps)

lemma dc_send_simps [simp]:
  "CDB (fst (dc_send E d b a)) = CDB a" "pane_at (fst (dc_send E d b a)) = pane_at a"
  "peer_at (fst (dc_send E d b a)) = peer_at a" "Panes (fst (dc_send E d b a)) = Panes a"
  "on_open (fst (dc_send E d b a)) = on_open a" "next_pane (fst (dc_send E d b a)) = next_pane a"
  by (simp_all add: dc_send_def)

lemma clients_delete_sub:
  "clients_delete dcid pid ks c db = Inr db' \<Longrightarrow>
   lastID db' = lastID db \<and> (\<forall>i v. clients db' i = Some v \<longrightarrow> clients db i = Some v)"
  by (auto simp: clients_delete_def split: option.splits if_splits)

lemma drop_client_keeps [inv_intro]: "keeps a (drop_client E c a)"
proof (cases "clients_delete (e_dcid E) (pane_id a) (e_clients E (clients (CDB a))) c (CDB a)")
  case (Inr db)
  note sub = clients_delete_sub [OF Inr] and inv = clients_delete_inv [OF _ Inr]
  have "keeps a (a\<lparr>CDB := db\<rparr>)"
  proof (rule simple_update_keeps)
    show "clients_ok a \<Longrightarrow> clients_ok (a\<lparr>CDB := db\<rparr>)"
      using sub inv unfolding clients_ok_def client_ok_def has_pane_def has_peer_def
      by (metis agent.select_convs(2,5,7) agent.surjective agent.update_convs(7))
    show "agent_inv a \<Longrightarrow> callbacks_ok (a\<lparr>CDB := db\<rparr>)"
      by (rule callbacks_ok_grows [OF agent_invD(4)]) (simp_all add: grows_same)
  qed (use sub in \<open>simp_all add: panes_ok_def pane_ok_def history_ok_def has_peer_def peers_ok_def
      waiting_ok_def clients_left_def\<close>)
  with Inr show ?thesis by (simp add: drop_client_def)
qed (simp add: drop_client_def)

lemma drop_client_simps [simp]:
  "pane_at (drop_client E c a) = pane_at a" "peer_at (drop_client E c a) = peer_at a"
  "Panes (drop_client E c a) = Panes a" "on_open (drop_client E c a) = on_open a"
  "sent (drop_client E c a) = sent a" "next_pane (drop_client E c a) = next_pane a"
  by (simp_all add: drop_client_def split: sum.splits)

lemma deliver_keeps [inv_intro]: "keeps a (deliver E m cs a)"
proof (induction cs arbitrary: a)
  case (Cons c cs)
  have "keeps a (if e_open E (c_dc c) then fst (dc_send E (c_dc c) m a)
      else emit (ClosedChannel (c_dc c)) (drop_client E c a))"
  proof (cases "e_open E (c_dc c)")
    case False
    have "keeps a (drop_client E c a)" by (rule drop_client_keeps)
    also have "keeps \<dots> (emit (ClosedChannel (c_dc c)) \<dots>)" by (rule emit_keeps) simp
    finally show ?thesis using False by simp
  qed (simp add: dc_send_keeps)
  also have "keeps \<dots> (deliver E m (c # cs) a)" using Cons.IH by simp
  finally show ?case .
qed simp

lemma deliver_simps [simp]:
  "pane_at (deliver E m cs a) = pane_at a" "peer_at (deliver E m cs a) = peer_at a"
  "Panes (deliver E m cs a) = Panes a" "on_open (deliver E m cs a) = on_open a"
  "next_pane (deliver E m cs a) = next_pane a"
  by (induction cs arbitrary: a) (simp_all add: pane_id_def)

lemma kill_clients_keeps [inv_intro]: "keeps a (kill_clients E cs a)"
proof (induction cs arbitrary: a)
  case (Cons c cs)
  have "keeps a (if still_open E (c_dc c) a then emit (ClosedChannel (c_dc c)) a else a)"
    by (simp add: emit_keeps)
  also have "keeps \<dots> (drop_client E c \<dots>)" by (rule drop_client_keeps)
  also have "keeps \<dots> (kill_clients E (c # cs) a)" using Cons.IH by simp
  finally show ?case .
qed simp

lemma kill_clients_simps [simp]:
  "pane_at (kill_clients E cs a) = pane_at a" "peer_at (kill_clients E cs a) = peer_at a"
  "Panes (kill_clients E cs a) = Panes a" "on_open (kill_clients E cs a) = on_open a"
  "next_pane (kill_clients E cs a) = next_pane a"
  by (induction cs arbitrary: a) simp_all

lemma kill_process_keeps [inv_intro]: "keeps a (kill_process pn a)"
  by (simp add: kill_process_def emit_keeps split: option.split)

lemma close_tty_keeps [inv_intro]: "keeps a (close_tty pn a)"
  by (simp add: close_tty_def emit_keeps split: option.split)

text \<open>A new version of a pane that keeps the parts the invariant looks at.\<close>

lemma set_pane_same_keeps:
  assumes "pane_at a r = Some pn" and "p_ID pn' = p_ID pn" and "p_peer pn' = p_peer pn"
    and "p_Buffer pn' = p_Buffer pn" and "p_TTY pn' = p_TTY pn"
    and "p_vt pn' = None \<longleftrightarrow> p_vt pn = None" and "p_Ws pn' = None \<longleftrightarrow> p_Ws pn = None"
    and "p_IsRunning pn' = p_IsRunning pn \<or> \<not> p_IsRunning pn'"
  shows "keeps a (set_pane r pn' a)"
proof -
  have "keeps a (set_pane r pn' a)" if inv: "agent_inv a"
  proof (rule set_pane_keeps [OF assms(1)])
    from inv_pane_ok [OF inv assms(1)] have ok: "pane_ok a r pn" .
    with assms show "pane_ok a r pn'" by (auto simp: pane_ok_def)
    show "pane_grows False pn pn'"
      using assms ok by (auto simp: pane_grows_def phase_of_def pane_ok_def)
  qed
  then show ?thesis by (simp add: keeps_def)
qed

lemma pane_kill_keeps [inv_intro]:
  assumes "pane_kill E r a = Some b"
  shows "keeps a b"
proof -
  define a1 where "a1 = kill_clients E (clients_of E r a) a"
  from assms obtain pn where pn: "pane_at a1 r = Some pn" and b: "b = close_tty pn (kill_process pn
      (set_pane r (pn\<lparr>p_IsRunning := False, p_cancelled := p_cancelled pn \<or> p_IsRunning pn\<rparr>) a1))"
    by (auto simp: pane_kill_def Let_def a1_def split: bind_splits)
  have "keeps a a1" unfolding a1_def by (rule kill_clients_keeps)
  also have "keeps a1 (set_pane r (pn\<lparr>p_IsRunning := False,
      p_cancelled := p_cancelled pn \<or> p_IsRunning pn\<rparr>) a1)" (is "keeps _ ?a2")
    by (rule set_pane_same_keeps [OF pn]) simp_all
  also have "keeps ?a2 (kill_process pn ?a2)" by (rule kill_process_keeps)
  also have "keeps \<dots> (close_tty pn \<dots>)" by (rule close_tty_keeps)
  finally show ?thesis by (simp add: b)
qed

lemma reader_end_keeps [inv_intro]: "reader_end E r a = Some b \<Longrightarrow> keeps a b"
  by (auto simp: reader_end_def split: bind_splits intro: pane_kill_keeps)

lemma pane_onMessage_keeps [inv_intro]:
  assumes "pane_onMessage E r p a = Some b"
  shows "keeps a b"
proof -
  from assms obtain t l err where "pane_kill E r (emit (WroteTty t (take l p)) a) = Some b \<or>
      b = emit (WroteTty t (take l p)) a"
    by (auto simp: pane_onMessage_def Let_def split: bind_splits prod.splits if_splits)
  moreover have "keeps a (emit (WroteTty t (take l p)) a)" by (simp add: emit_keeps)
  ultimately show ?thesis using pane_kill_keeps keeps_trans by blast
qed

lemma pane_resize_keeps [inv_intro]:
  assumes "pane_resize r ws a = Some b"
  shows "keeps a b"
proof (cases "b = a")
  case False
  with assms obtain pn f where pn: "pane_at a r = Some pn" "p_Ws pn \<noteq> None" and
    b: "b = emit (ResizedTty (TtyFile f) ws) (set_pane r (pn\<lparr>p_Ws := Some ws,
      p_vt := map_option (\<lambda>ops. ops @ [VtResize (ws_cols ws) (ws_rows ws)]) (p_vt pn)\<rparr>) a)"
    by (auto simp: pane_resize_def split: bind_splits if_splits option.splits tty.splits)
  have "keeps a (set_pane r (pn\<lparr>p_Ws := Some ws,
      p_vt := map_option (\<lambda>ops. ops @ [VtResize (ws_cols ws) (ws_rows ws)]) (p_vt pn)\<rparr>) a)"
    using pn(2) by (intro set_pane_same_keeps [OF pn(1)]) simp_all
  also have "keeps \<dots> b" unfolding b by (rule emit_keeps) simp
  finally show ?thesis .
qed simp

lemma add_timer_keeps:
  assumes "agent_inv a \<Longrightarrow> timer_ok a t"
  shows "keeps a (a\<lparr>timers := timers a @ [t]\<rparr>)"
proof (rule simple_update_keeps)
  let ?b = "a\<lparr>timers := timers a @ [t]\<rparr>"
  have g: "grows a ?b" by (simp add: grows_same)
  show "callbacks_ok ?b" if inv: "agent_inv a"
    using agent_invD(4) [OF inv] assms [OF inv]
    by (auto simp: callbacks_ok_def intro: open_ok_grows [OF g] msg_ok_grows [OF g] timer_ok_grows [OF g])
qed (auto simp: panes_ok_def pane_ok_def history_ok_def has_peer_def peers_ok_def
      waiting_ok_def clients_ok_def client_ok_def has_pane_def)

lemma restore_keeps [inv_intro]:
  assumes "restore E r d marker a = Some b" and "has_pane a r"
  shows "keeps a b"
proof -
  have "b = a \<or> (\<exists>t. timer_ok a t \<and> b = a\<lparr>timers := timers a @ [t]\<rparr>)"
    using assms
    by (auto simp: restore_def has_vt_def split: if_splits bind_splits option.splits)
      (metis timer_ok.simps(1) has_vt_def option.distinct(1), metis timer_ok.simps(2))
  then show ?thesis using add_timer_keeps by auto
qed

lemma history_ok_rel:
  assumes "agent_inv a" and "pane_at a r = Some pn"
  obtains ps where "buf_rel pane_buffer_size (p_Buffer pn) (blank pane_buffer_size @ printed r (sent a)) ps"
  using inv_pane_ok [OF assms] by (auto simp: pane_ok_def history_ok_def)

text \<open>The history gets the chunk.\<close>

lemma print_keeps:
  assumes pn: "pane_at a r = Some pn" and add: "add m (p_Buffer pn) = Some buf"
    and vt: "vt = None \<longleftrightarrow> p_vt pn = None"
  shows "keeps a (emit (Printed r m) (set_pane r (pn\<lparr>p_vt := vt, p_Buffer := buf\<rparr>) a))" (is "keeps a ?b")
proof -
  let ?pn = "pn\<lparr>p_vt := vt, p_Buffer := buf\<rparr>"
  have g: "grows a ?b"
    using set_pane_grows [OF pn, of "{}" ?pn] vt
    by (simp add: grows_but_def pane_grows_def phase_of_def)
  have "agent_inv ?b" if inv: "agent_inv a"
  proof (rule inv_frame [OF inv g])
    have ok: "pane_ok a q qn" if "pane_at a q = Some qn" for q qn
      using inv that by (rule inv_pane_ok)
    obtain ps where "buf_rel pane_buffer_size (p_Buffer pn) (blank pane_buffer_size @ printed r (sent a)) ps"
      using inv pn by (rule history_ok_rel)
    from add_rel [OF this, of m] add have "history_ok ?b r buf"
      by (auto simp: history_ok_def)
    then have "pane_ok ?b r ?pn"
      using ok [OF pn] vt by (simp add: pane_ok_def has_peer_def)
    moreover have "pane_ok ?b q qn" if "q \<noteq> r" "pane_at a q = Some qn" for q qn
      using ok [OF that(2)] that(1) by (auto simp: pane_ok_def has_peer_def history_ok_def)
    moreover have "\<exists>qn. pane_at ?b q = Some qn \<and> p_ID qn = i" if "panes (Panes a) i = Some q" for i q
      using inv that pn by (auto simp: agent_inv_def panes_ok_def) (metis option.inject)
    moreover have "pane_at ?b q = None \<and> printed q (sent ?b) = []" if "next_pane a \<le> q" for q
      using inv_fresh [OF inv that] pn by auto
    ultimately show "panes_ok ?b"
      using agent_invD(1) [OF inv] by (auto simp: panes_ok_def)
  qed (use pn in \<open>simp_all add: has_peer_def\<close>)
  with g show ?thesis by (simp add: keeps_def)
qed

lemma sender_turn_keeps [inv_intro]:
  assumes "sender_turn E r m a = Some b"
  shows "keeps a b"
proof -
  define a1 where "a1 = deliver E m (clients_of E r a) a"
  have "keeps a a1" unfolding a1_def by (rule deliver_keeps)
  also have "keeps a1 b"
  proof -
    from assms obtain pn where pn: "pane_at a1 r = Some pn"
      by (auto simp: sender_turn_def Let_def a1_def split: bind_splits)
    let ?vt = "map_option (\<lambda>ops. ops @ [VtWrite m]) (p_vt pn)"
    show ?thesis
    proof (cases "p_stuck pn")
      case True
      with assms pn have "b = set_pane r (pn\<lparr>p_vt := ?vt, p_blocked := Suc (p_blocked pn)\<rparr>) a1"
        by (simp add: sender_turn_def Let_def a1_def)
      then show ?thesis using set_pane_same_keeps [OF pn] by simp
    next
      case False
      with assms pn obtain buf where "add m (p_Buffer pn) = Some buf"
        "b = emit (Printed r m) (set_pane r (pn\<lparr>p_vt := ?vt, p_Buffer := buf\<rparr>) a1)"
        by (auto simp: sender_turn_def Let_def a1_def split: bind_splits)
      with print_keeps [OF pn] show ?thesis by simp
    qed
  qed
  finally show ?thesis .
qed

lemma getSinceMarker_history:
  assumes "history_ok a r buf" and "getSinceMarker mid buf = Some x"
  obtains b buf' where "x = Returns (b, buf')" "history_ok a r buf'"
proof -
  from assms(1) obtain ps
    where R: "buf_rel pane_buffer_size buf (blank pane_buffer_size @ printed r (sent a)) ps"
    by (auto simp: history_ok_def)
  show thesis
  proof (cases "spec_get pane_buffer_size (blank pane_buffer_size @ printed r (sent a)) ps mid")
    case None
    with getSinceMarker_rel [OF R, of mid] assms(2) show thesis by simp
  next
    case (Some b)
    from ring_fetch_some [OF R Some] assms(2) that show thesis by (auto simp: history_ok_def)
  qed
qed

lemma fire_keeps [inv_intro]:
  assumes "fire E t a = Some b"
  shows "keeps a b"
proof (cases t)
  case (SendDump d r)
  with assms show ?thesis by (auto simp: fire_def split: bind_splits intro: dc_send_keeps)
next
  case (SendSince d r mid)
  with assms obtain pn where pn: "pane_at a r = Some pn"
    by (auto simp: fire_def split: bind_splits)
  show ?thesis
  proof (cases "p_stuck pn \<or> getSinceMarker mid (p_Buffer pn) = None")
    case True
    have "keeps a (set_pane r (pn\<lparr>p_stuck := True\<rparr>) a)"
      by (rule set_pane_same_keeps [OF pn]) simp_all
    with True assms pn SendSince show ?thesis by (auto simp: fire_def split: if_splits)
  next
    case False
    then obtain x where x: "getSinceMarker mid (p_Buffer pn) = Some x" by auto
    have "keeps a b" if inv: "agent_inv a"
    proof -
      from inv_pane_ok [OF inv pn] have ok: "pane_ok a r pn" .
      from ok have "history_ok a r (p_Buffer pn)" by (simp add: pane_ok_def)
      from this x obtain bs buf where x': "x = Returns (bs, buf)" "history_ok a r buf"
        by (rule getSinceMarker_history)
      with False x assms pn SendSince
      have b: "b = fst (dc_send E d bs (set_pane r (pn\<lparr>p_Buffer := buf\<rparr>) a))"
        by (simp add: fire_def)
      have "keeps a (set_pane r (pn\<lparr>p_Buffer := buf\<rparr>) a)"
        using ok x'(2) by (intro set_pane_keeps [OF pn]) (simp_all add: pane_ok_def pane_grows_def phase_of_def)
      also have "keeps \<dots> b" unfolding b by (rule dc_send_keeps)
      finally show ?thesis .
    qed
    then show ?thesis by (simp add: keeps_def)
  qed
qed

lemma sendFirstMessage_keeps [inv_intro]: "sendFirstMessage E r d a = Some b \<Longrightarrow> keeps a b"
  by (auto simp: sendFirstMessage_def split: bind_splits intro: dc_send_keeps)

lemma start_reader_keeps [inv_intro]: "start_reader r a = Some b \<Longrightarrow> keeps a b"
  by (auto simp: start_reader_def split: bind_splits intro: set_pane_same_keeps)

subsection \<open>Starting panes and adding clients\<close>

text \<open>No \<open>add_pane\<close> waits to run its command on this pane.\<close>

definition not_awaited :: "agent \<Rightarrow> pane_ref \<Rightarrow> bool" where
  "not_awaited a r \<longleftrightarrow> (\<forall>d p m cmd. on_open a d \<noteq> Some (OpenAddPane p m r cmd))"

lemma pane_run_cases:
  assumes "pane_run E r cmd a = Some (b, ok)"
  obtains "b = a" "\<not> ok"
  | pn pid t where "pane_at a r = Some pn" "ok" "b = set_pane r (pn\<lparr>p_C := pid, p_IsRunning := True,
      p_TTY := Some t, p_readers := Suc (p_readers pn)\<rparr>) a"
  using assms by (auto simp: pane_run_def split: bind_splits option.splits)

lemma pane_run_inv:
  assumes inv: "agent_inv a" and pn: "pane_at a r = Some pn" and new: "p_TTY pn = None"
    and wait: "not_awaited a r" and run: "pane_run E r cmd a = Some (b, ok)"
  shows "agent_inv b" and "grows_but {r} a b" and "CDB b = CDB a" and "Panes b = Panes a"
    and "on_open b = on_open a"
proof -
  have ok: "pane_ok a r pn" using inv pn by (rule inv_pane_ok)
  have "agent_inv b \<and> grows_but {r} a b \<and> CDB b = CDB a \<and> Panes b = Panes a \<and> on_open b = on_open a"
    using run
  proof (cases rule: pane_run_cases)
    case 1
    with inv show ?thesis by simp
  next
    case (2 pn1 pid t)
    with pn have b: "b = set_pane r (pn\<lparr>p_C := pid, p_IsRunning := True,
      p_TTY := Some t, p_readers := Suc (p_readers pn)\<rparr>) a" (is "_ = set_pane r ?pn a") by simp
    from ok new have idle: "\<not> p_IsRunning pn" by (simp add: pane_ok_def)
    have g: "grows_but {r} a b" unfolding b using new idle
      by (intro set_pane_grows [OF pn]) (simp add: pane_grows_def phase_of_def)
    have ps: "panes_ok b" unfolding b using ok
      by (intro set_pane_panes_ok [OF agent_invD(1) [OF inv] pn]) (simp_all add: pane_ok_def)
    have "waiting_ok b"
      using agent_invD(5) [OF inv] wait unfolding waiting_ok_def not_awaited_def b
      by (simp add: fun_upd_def)
    with ps agent_invD [OF inv] g have "agent_inv b"
      by (auto simp: agent_inv_def b has_peer_def intro: clients_ok_grows callbacks_ok_grows peers_ok_grows)
    with g show ?thesis by (simp add: b)
  qed
  then show "agent_inv b" "grows_but {r} a b" "CDB b = CDB a" "Panes b = Panes a" "on_open b = on_open a"
    by simp_all
qed

lemma fresh_pane_simps [simp]:
  "p_ID (fresh_pane p ws pid buf i) = i" "p_C (fresh_pane p ws pid buf i) = None"
  "p_IsRunning (fresh_pane p ws pid buf i) = False" "p_TTY (fresh_pane p ws pid buf i) = None"
  "p_Buffer (fresh_pane p ws pid buf i) = buf" "p_Ws (fresh_pane p ws pid buf i) = ws"
  "p_vt (fresh_pane p ws pid buf i) = None \<longleftrightarrow> ws = None" "p_peer (fresh_pane p ws pid buf i) = p"
  "p_readers (fresh_pane p ws pid buf i) = 0" "p_stuck (fresh_pane p ws pid buf i) = False"
  by (simp_all add: fresh_pane_def)

lemma newPane_cases:
  assumes "newPane p ws parent a = Some (b, res)"
  obtains "b = a" "res = None"
  | pid buf pd i where "res = Some (next_pane a)" "newBuffer 100000 = Some buf"
    "panes_add (next_pane a) (Panes a) = (pd, i)"
    "b = set_pane (next_pane a) (fresh_pane p ws pid buf i)
       (a\<lparr>Panes := pd, next_pane := Suc (next_pane a)\<rparr>)"
proof -
  from assms obtain pp where pp: "parent_pid parent a = Some pp"
    by (auto simp: newPane_def split: bind_splits)
  show thesis
  proof (cases pp)
    case None
    with assms pp that(1) show thesis by (simp add: newPane_def)
  next
    case (Some pid)
    obtain pd i where add: "panes_add (next_pane a) (Panes a) = (pd, i)" by fastforce
    from assms pp Some obtain buf where "newBuffer 100000 = Some buf"
      by (auto simp: newPane_def split: bind_splits)
    with assms pp Some add
    have "res = Some (next_pane a)" "b = set_pane (next_pane a) (fresh_pane p ws pid buf i)
       (a\<lparr>Panes := pd, next_pane := Suc (next_pane a)\<rparr>)" by (simp_all add: newPane_def Let_def)
    with \<open>newBuffer 100000 = Some buf\<close> add show thesis by (intro that(2))
  qed
qed

lemma newPane_inv:
  assumes inv: "agent_inv a" and peer: "has_peer a p" and room: "0 < panes_left (Panes a)"
    and new: "newPane p ws parent a = Some (b, Some r)"
  obtains pn where "agent_inv b" "grows a b" "CDB b = CDB a" "on_open b = on_open a"
    "panes_left (Panes b) = panes_left (Panes a) - 1" "pane_at a r = None" "pane_at b r = Some pn"
    "p_TTY pn = None" "p_Ws pn = ws" "p_peer pn = p" "not_awaited b r"
    "p_ID pn = go_inc (nextID (Panes a))"
  using new
proof (cases rule: newPane_cases)
  case (2 pid buf pd i)
  let ?pn = "fresh_pane p ws pid buf i"
  note add = 2(3)
  note laws = pane_table.put_laws [OF _ room add]
  have pinv: "panes_inv (Panes a)" using inv by (simp add: agent_inv_def panes_ok_def)
  note laws = laws [OF pinv]
  have look: "panes pd = (panes (Panes a))(i \<mapsto> next_pane a)" and fresh: "panes (Panes a) i = None"
    using laws(1,2) by (auto simp: panes_get_def fun_upd_def)
  have none: "pane_at a (next_pane a) = None" and quiet: "printed (next_pane a) (sent a) = []"
    using inv_fresh [OF inv] by simp_all
  note b = 2(4)
  have g: "grows a b" using none by (auto simp: grows_but_def b)
  have hist: "history_ok b (next_pane a) buf"
    using newBuffer_rel [of pane_buffer_size] 2(2) quiet by (auto simp: history_ok_def b)
  have "pane_ok b q qn" if "pane_at b q = Some qn" for q qn
  proof (cases "q = next_pane a")
    case True
    with that have "qn = ?pn" by (simp add: b)
    with True hist peer show ?thesis by (simp add: b pane_ok_def look has_peer_def)
  next
    case False
    with that have "pane_at a q = Some qn" by (simp add: b)
    with inv have "pane_ok a q qn" by (rule inv_pane_ok)
    with fresh show ?thesis by (auto simp: pane_ok_def b look has_peer_def history_ok_def)
  qed
  moreover have "\<exists>qn. pane_at b q = Some qn \<and> p_ID qn = j" if "panes pd j = Some q" for j q
  proof (cases "j = i")
    case False
    with that look have "panes (Panes a) j = Some q" by simp
    with inv obtain qn where "pane_at a q = Some qn" "p_ID qn = j"
      by (auto simp: agent_inv_def panes_ok_def)
    with none show ?thesis by (auto simp: b)
  qed (use that look in \<open>simp add: b\<close>)
  moreover have "pane_at b q = None \<and> printed q (sent b) = []" if "Suc (next_pane a) \<le> q" for q
    using inv_fresh [OF inv, of q] that by (auto simp: b)
  ultimately have "panes_ok b" using laws(3) by (auto simp: panes_ok_def b)
  moreover have "waiting_ok b"
    by (rule waiting_ok_grows [OF agent_invD(5,4) [OF inv] g]) (simp add: b)
  ultimately have "agent_inv b"
    using agent_invD [OF inv] g
    by (auto simp: agent_inv_def b has_peer_def intro: clients_ok_grows callbacks_ok_grows peers_ok_grows)
  moreover have "not_awaited b (next_pane a)"
    using agent_invD(4) [OF inv] none by (fastforce simp: not_awaited_def callbacks_ok_def b has_pane_def)
  moreover have "CDB b = CDB a" "on_open b = on_open a" "pane_at b (next_pane a) = Some ?pn"
    "Panes b = pd" by (simp_all add: b)
  moreover have "r = next_pane a" using 2(1) by simp
  moreover have "i = go_inc (nextID (Panes a))" using add by (simp add: panes_add_def Let_def)
  ultimately show thesis
    using that [of ?pn] g none laws(4) by simp
qed simp

lemma attach_inv:
  assumes inv: "agent_inv a" and refs: "has_peer a p" "has_pane a r" and room: "0 < clients_left (CDB a)"
  shows "agent_inv (attach d p r a)" and "grows a (attach d p r a)"
    and "clients_left (CDB (attach d p r a)) = clients_left (CDB a) - 1"
    and "Panes (attach d p r a) = Panes a" and "on_open (attach d p r a) = on_open a"
proof -
  obtain db c where add: "clients_add d r p (CDB a) = (db, c)" by fastforce
  then have b: "attach d p r a = a\<lparr>CDB := db, on_msg := (on_msg a)(d \<mapsto> ToPane p r),
      on_close := (on_close a)(d \<mapsto> c)\<rparr>" (is "_ = ?b")
    by (simp add: attach_def add_client_def)
  have g: "grows a ?b" by (simp add: grows_same)
  from add have db: "clients db = (clients (CDB a))(lastID (CDB a) \<mapsto> c)" "c_pane c = r" "c_peer c = p"
    by (auto simp: clients_add_def Let_def)
  have cinv: "clients_inv db" using clients_add_inv [of "CDB a" d r p] room inv add
    by (simp add: agent_inv_def clients_ok_def)
  have "clients_ok ?b"
    using agent_invD(2) [OF inv] refs cinv
    by (auto simp: clients_ok_def db client_ok_def has_pane_def has_peer_def)
  moreover have "callbacks_ok ?b"
    using agent_invD(4) [OF inv] refs
    by (auto simp: callbacks_ok_def has_peer_def has_pane_def
        intro: open_ok_grows [OF g] msg_ok_grows [OF g] timer_ok_grows [OF g])
  ultimately have "agent_inv ?b"
    using agent_invD [OF inv]
    by (auto simp: agent_inv_def panes_ok_def pane_ok_def history_ok_def has_peer_def peers_ok_def waiting_ok_def)
  with g room add show "agent_inv (attach d p r a)" "grows a (attach d p r a)"
    "clients_left (CDB (attach d p r a)) = clients_left (CDB a) - 1"
    "Panes (attach d p r a) = Panes a" "on_open (attach d p r a) = on_open a"
    by (auto simp: b clients_add_def Let_def clients_left_def)
qed

end
