(* ===== verification/Peer_Ops.thy ===== *)
theory Peer_Ops
  imports Pane_Ops
begin

section \<open>The operations of a peer: peers/peer.go\<close>

text \<open>
  A peer is a client's connection: \<open>NewPeer\<close> makes it, its state changes and candidates come from the
  library, its data channels open panes (\<open>GetOrCreatePane\<close>, \<open>Reconnect\<close>) or carry control messages,
  sent with \<open>SendControlMessage\<close> and awaited with \<open>SendControlMessageAndWait\<close>. Each operation is
  followed by what it keeps of the invariant.
\<close>

subsection \<open>Fingerprints\<close>

definition compressFP :: "bytes \<Rightarrow> bytes" where
  "compressFP hex = to_upper (remove_all (CHR '':'') hex)"

text \<open>\<open>ExtractFP\<close>: \<open>fps\<close> is the library's answer to \<open>GetFingerprints\<close>; an empty list makes it panic.\<close>

definition extractFP :: "bytes list option \<Rightarrow> bytes option option" where
  "extractFP fps =
     (case fps of None \<Rightarrow> Some None | Some [] \<Rightarrow> None | Some (f # _) \<Rightarrow> Some (Some (compressFP f)))"

text \<open>What \<open>GetFingerprint\<close> reads of a session description: the fingerprint attribute of the session
  and those of its media. The description may not parse (\<open>None\<close>).\<close>

record sdp =
  sdp_session :: "bytes option"
  sdp_media :: "bytes option list"

definition find_fingerprint :: "sdp \<Rightarrow> bytes" where
  "find_fingerprint s =
     (case sdp_session s of
        Some f \<Rightarrow> f
      | None \<Rightarrow> (case filter (\<lambda>m. m \<noteq> None) (sdp_media s) of [] \<Rightarrow> [] | m # _ \<Rightarrow> the m))"

datatype fingerprint_error = BadSDP | NoFingerprint

text \<open>\<open>strings.Split(f, " ")[1]\<close> panics when there is no space.\<close>

definition getFingerprint :: "sdp option \<Rightarrow> (fingerprint_error + bytes) option" where
  "getFingerprint offer =
     (case offer of
        None \<Rightarrow> Some (Inl BadSDP)
      | Some s \<Rightarrow>
          (let f = find_fingerprint s
           in if f = [] then Some (Inl NoFingerprint)
              else case split_on (CHR '' '') f of
                     _ # hex # _ \<Rightarrow> Some (Inr (compressFP hex))
                   | _ \<Rightarrow> None))"

subsection \<open>NewPeer, Close and the candidates\<close>

text \<open>\<open>NewPeer\<close>, when the library makes a connection. A failure to get the ICE servers is logged.\<close>

definition newPeer :: "env \<Rightarrow> bytes \<Rightarrow> agent \<Rightarrow> agent \<times> peer_ref option" where
  "newPeer E fp a =
     (if e_new_pc E
      then (let p = next_peer a
            in (set_peer p \<lparr>pr_FP = fp, pr_LastRef = 0, pr_PC = True, pr_cdc = None, pr_Marker = - 1,
                            pr_acks = Map.empty, pr_pending = [], pr_draining = False\<rparr>
                  (a\<lparr>next_peer := Suc p, Peers := (Peers a)(fp \<mapsto> p)\<rparr>), Some p))
      else (a, None))"

definition peer_close :: "peer_ref \<Rightarrow> agent \<Rightarrow> agent option" where
  "peer_close p a = do {
     pr \<leftarrow> peer_at a p;
     Some (if pr_PC pr then set_peer p (pr\<lparr>pr_PC := False\<rparr>) (emit (ClosedConnection p) a) else a)
   }"

definition add_ice :: "env \<Rightarrow> peer_ref \<Rightarrow> bytes \<Rightarrow> agent \<Rightarrow> agent" where
  "add_ice E p c a = (if e_ice_ok E then emit (AddedCandidate p c) a else a)"

text \<open>The callback of \<open>OnConnectionStateChange\<close>. The channel \<open>pendingCandidates\<close> is never closed, so
  the loop over it does not end: the goroutine stays and takes whatever is sent later.\<close>

datatype connection_state = Connecting | Failed | OtherState

definition stateChange :: "env \<Rightarrow> peer_ref \<Rightarrow> connection_state \<Rightarrow> agent \<Rightarrow> agent option" where
  "stateChange E p st a =
     (case st of
        Failed \<Rightarrow> peer_close p a
      | Connecting \<Rightarrow> do {
          pr \<leftarrow> peer_at a p;
          Some (fold (add_ice E p) (pr_pending pr)
                  (set_peer p (pr\<lparr>pr_pending := [], pr_draining := True\<rparr>) a))
        }
      | OtherState \<Rightarrow> Some a)"

text \<open>\<open>AddCandidate\<close>: without a connection the candidate goes to a channel of eight places; a sender
  that finds it full waits.\<close>

datatype candidate_result = Added bool | Kept | Waits

definition addCandidate :: "env \<Rightarrow> peer_ref \<Rightarrow> bytes \<Rightarrow> agent \<Rightarrow> (agent \<times> candidate_result) option" where
  "addCandidate E p c a = do {
     pr \<leftarrow> peer_at a p;
     Some (if pr_PC pr then (add_ice E p c a, Added (e_ice_ok E))
           else if pr_draining pr then (add_ice E p c a, Kept)
           else if length (pr_pending pr) < 8
           then (set_peer p (pr\<lparr>pr_pending := pr_pending pr @ [c]\<rparr>) a, Kept)
           else (a, Waits))
   }"

subsection \<open>The most recent peer\<close>

definition keepAliveInterval :: int where
  "keepAliveInterval = 2 * 10 ^ 9"

definition setLastPeer :: "env \<Rightarrow> peer_ref \<Rightarrow> agent \<Rightarrow> agent" where
  "setLastPeer E p a = a\<lparr>mostRecent := Some (p, e_now E)\<rparr>"

definition getActivePeer :: "env \<Rightarrow> agent \<Rightarrow> peer_ref option" where
  "getActivePeer E a =
     (case mostRecent a of
        None \<Rightarrow> None
      | Some (p, lastReceived) \<Rightarrow> if lastReceived + keepAliveInterval < e_now E then None else Some p)"

subsection \<open>Sending control messages\<close>

definition newCTRLMessage :: "env \<Rightarrow> peer_ref \<Rightarrow> bytes \<Rightarrow> out_args \<Rightarrow> agent \<Rightarrow> (agent \<times> outMessage) option" where
  "newCTRLMessage E p typ args a = do {
     pr \<leftarrow> peer_at a p;
     let n = go_inc (pr_LastRef pr);
     Some (set_peer p (pr\<lparr>pr_LastRef := n\<rparr>) a,
           \<lparr>om_time = e_now E div 1000000, om_ref = n, om_type = typ, om_args = args\<rparr>)
   }"

text \<open>\<open>SendMessage\<close> panics on a peer without a control channel. Marshalling the arguments the
  program sends does not fail.\<close>

definition sendMessage :: "env \<Rightarrow> peer_ref \<Rightarrow> outMessage \<Rightarrow> agent \<Rightarrow> (agent \<times> bool) option" where
  "sendMessage E p msg a = do {
     pr \<leftarrow> peer_at a p;
     d \<leftarrow> pr_cdc pr;
     Some (if e_send_ok E d then (emit (SentControl d msg) a, True) else (a, False))
   }"

definition sendControlMessage :: "env \<Rightarrow> peer_ref \<Rightarrow> bytes \<Rightarrow> out_args \<Rightarrow> agent \<Rightarrow> (agent \<times> bool) option" where
  "sendControlMessage E p typ args a = do {
     (a1, msg) \<leftarrow> newCTRLMessage E p typ args a;
     sendMessage E p msg a1
   }"

text \<open>Every caller only logs an error of \<open>SendAck\<close> or \<open>SendNack\<close>.\<close>

definition sendAck :: "env \<Rightarrow> peer_ref \<Rightarrow> ctrlMessage \<Rightarrow> bytes \<Rightarrow> agent \<Rightarrow> agent option" where
  "sendAck E p cm body a =
     map_option fst (sendControlMessage E p ''ack'' (AckArgs (cm_ref cm) body) a)"

definition sendNack :: "env \<Rightarrow> peer_ref \<Rightarrow> ctrlMessage \<Rightarrow> bytes \<Rightarrow> agent \<Rightarrow> agent option" where
  "sendNack E p cm desc a =
     map_option fst (sendControlMessage E p ''nack'' (NAckArgs desc (cm_ref cm)) a)"

definition broadcast_one :: "env \<Rightarrow> peer_ref \<Rightarrow> bytes \<Rightarrow> out_args \<Rightarrow> peer_ref \<Rightarrow> agent \<Rightarrow> agent option" where
  "broadcast_one E p typ args q a = do {
     pr \<leftarrow> peer_at a q;
     if q \<noteq> p \<and> pr_cdc pr \<noteq> None then map_option fst (sendControlMessage E q typ args a) else Some a
   }"

definition broadcast :: "env \<Rightarrow> peer_ref \<Rightarrow> bytes \<Rightarrow> out_args \<Rightarrow> agent \<Rightarrow> agent option" where
  "broadcast E p typ args a =
     each (broadcast_one E p typ args) (range_values (Peers a) (e_peers E (Peers a))) a"

subsection \<open>Waiting for an acknowledgement\<close>

text \<open>\<open>SendControlMessageAndWait\<close> up to its \<open>select\<close>: the id it waits for, or \<open>None\<close> when the message
  could not be sent, in which case the entry stays. Then the two ends of the \<open>select\<close>.\<close>

definition wait_start :: "env \<Rightarrow> peer_ref \<Rightarrow> bytes \<Rightarrow> out_args \<Rightarrow> agent \<Rightarrow> (agent \<times> int option) option" where
  "wait_start E p typ args a = do {
     (a1, msg) \<leftarrow> newCTRLMessage E p typ args a;
     pr \<leftarrow> peer_at a1 p;
     let a2 = set_peer p (pr\<lparr>pr_acks := (pr_acks pr)(om_ref msg \<mapsto> None)\<rparr>) a1;
     (a3, ok) \<leftarrow> sendMessage E p msg a2;
     Some (a3, if ok then Some (om_ref msg) else None)
   }"

definition wait_end :: "peer_ref \<Rightarrow> int \<Rightarrow> bool \<Rightarrow> agent \<Rightarrow> (agent \<times> bytes option) option" where
  "wait_end p n timedout a = do {
     pr \<leftarrow> peer_at a p;
     let body = (if timedout then None else Option.bind (pr_acks pr n) (\<lambda>c. c));
     Some (set_peer p (pr\<lparr>pr_acks := (pr_acks pr)(n := None)\<rparr>) a, body)
   }"

text \<open>The other side. A second answer before the first is taken finds the channel full.\<close>

datatype answer_result = NotParsed | Delivered | NobodyWaits | ChannelFull

definition answer :: "peer_ref \<Rightarrow> int \<Rightarrow> bytes \<Rightarrow> agent \<Rightarrow> (agent \<times> answer_result) option" where
  "answer p n body a = do {
     pr \<leftarrow> peer_at a p;
     Some (case pr_acks pr n of
             None \<Rightarrow> (a, NobodyWaits)
           | Some None \<Rightarrow> (set_peer p (pr\<lparr>pr_acks := (pr_acks pr)(n \<mapsto> Some body)\<rparr>) a, Delivered)
           | Some (Some _) \<Rightarrow> (a, ChannelFull))
   }"

definition handleAck :: "peer_ref \<Rightarrow> raw option \<Rightarrow> agent \<Rightarrow> (agent \<times> answer_result) option" where
  "handleAck p raw a =
     (case dec_ack raw of
        None \<Rightarrow> Some (a, NotParsed)
      | Some args \<Rightarrow> answer p (aa_ref args) (aa_body args) a)"

text \<open>\<open>handleNack\<close> looks for the id of the message itself, not for the one it refuses.\<close>

definition handleNack :: "peer_ref \<Rightarrow> ctrlMessage \<Rightarrow> raw option \<Rightarrow> agent \<Rightarrow> (agent \<times> answer_result) option" where
  "handleNack p m raw a =
     (case dec_nack raw of
        None \<Rightarrow> Some (a, NotParsed)
      | Some args \<Rightarrow> answer p (cm_ref m) ''NACK'' a)"

subsection \<open>Reconnect and GetOrCreatePane\<close>

definition reconnect :: "env \<Rightarrow> peer_ref \<Rightarrow> dc \<Rightarrow> int \<Rightarrow> agent \<Rightarrow> (agent \<times> (pane_error + pane_ref)) option" where
  "reconnect E p d i a =
     (case panes_get i (Panes a) of
        None \<Rightarrow> Some (a, Inl (NoSuchPane i))
      | Some r \<Rightarrow> do {
          pn \<leftarrow> pane_at a r;
          if p_IsRunning pn
          then do {
            let a1 = attach d p r a;
            pr \<leftarrow> peer_at a1 p;
            a2 \<leftarrow> restore E r d (pr_Marker pr) a1;
            Some (a2, Inr r)
          }
          else Some (emit (ClosedChannel d) a, Inl PaneNotRunning)
        })"

definition open_control :: "peer_ref \<Rightarrow> dc \<Rightarrow> agent \<Rightarrow> agent option" where
  "open_control p d a = do {
     pr \<leftarrow> peer_at a p;
     let a1 = set_peer p (pr\<lparr>pr_cdc := Some d\<rparr>) a;
     Some (a1\<lparr>on_msg := (on_msg a1)(d \<mapsto> ToControl p)\<rparr>)
   }"

definition execute ::
  "env \<Rightarrow> peer_ref \<Rightarrow> dc \<Rightarrow> winsize option \<Rightarrow> bytes list \<Rightarrow> agent \<Rightarrow>
   (agent \<times> (pane_error + pane_ref option)) option" where
  "execute E p d ws cmd a = do {
     (a1, res) \<leftarrow> newPane p ws 0 a;
     (case res of
        None \<Rightarrow> Some (a1, Inl (NewPaneError 0))
      | Some r \<Rightarrow> do {
          a2 \<leftarrow> sendFirstMessage E r d a1;
          (a3, ok) \<leftarrow> pane_run E r cmd a2;
          if ok then do { a4 \<leftarrow> start_reader r a3; Some (a4, Inr (Some r)) }
          else Some (a3, Inl RunError)
        })
   }"

definition getOrCreatePane ::
  "env \<Rightarrow> peer_ref \<Rightarrow> dc \<Rightarrow> agent \<Rightarrow> (agent \<times> (pane_error + pane_ref option)) option" where
  "getOrCreatePane E p d a = do {
     req \<leftarrow> parse_label (e_label E d);
     (case req of
        ControlChannel \<Rightarrow> do { a1 \<leftarrow> open_control p d a; Some (a1, Inr None) }
      | InvalidLabel \<Rightarrow> Some (a, Inl InvalidPaneLabel)
      | BadWinsize \<Rightarrow> Some (a, Inl WinsizeError)
      | CommandTooShort \<Rightarrow> Some (a, Inl ShortCommand)
      | BadPaneId \<Rightarrow> Some (a, Inl ReconnectIdError)
      | ReconnectTo i \<Rightarrow> do {
          (a1, res) \<leftarrow> reconnect E p d i a;
          Some (a1, case res of Inl e \<Rightarrow> Inl e | Inr r \<Rightarrow> Inr (Some r))
        }
      | Execute ws cmd \<Rightarrow> execute E p d ws cmd a)
   }"

subsection \<open>OnChannelReq\<close>

definition onChannelReq :: "env \<Rightarrow> peer_ref \<Rightarrow> dc \<Rightarrow> agent \<Rightarrow> agent" where
  "onChannelReq E p d a =
     (if e_label E d = ''signaling'' then a
      else a\<lparr>on_open := (on_open a)(d \<mapsto> OpenLabelled p)\<rparr>)"

text \<open>Its \<open>OnOpen\<close> closure. The last thing it does, \<open>OnCTRLMsg\<close> with a nil message, is nothing.\<close>

definition opened_labelled :: "env \<Rightarrow> peer_ref \<Rightarrow> dc \<Rightarrow> agent \<Rightarrow> agent option" where
  "opened_labelled E p d a = do {
     (a1, res) \<leftarrow> getOrCreatePane E p d a;
     Some (case res of
             Inl e \<Rightarrow> if e_send_ok E d then emit (SentError d e) a1 else a1
           | Inr None \<Rightarrow> a1
           | Inr (Some r) \<Rightarrow> attach d p r a1)
   }"

subsection \<open>Shutdown\<close>

definition kill_command :: "pane_ref \<Rightarrow> agent \<Rightarrow> agent option" where
  "kill_command r a = do {
     pn \<leftarrow> pane_at a r;
     pid \<leftarrow> p_C pn;
     Some (emit (KilledProcess pid) a)
   }"

definition shutdown :: "env \<Rightarrow> agent \<Rightarrow> agent option" where
  "shutdown E a = do {
     a1 \<leftarrow> each peer_close (range_values (Peers a) (e_peers E (Peers a))) a;
     each kill_command (panes_all (e_panes E (panes (Panes a1))) (Panes a1)) a1
   }"

subsection \<open>They keep the invariant\<close>

lemma each_keeps:
  assumes "each f xs a = Some b" and "\<And>x u v. f x u = Some v \<Longrightarrow> keeps u v"
  shows "keeps a b"
  by (rule each_invariant [OF assms(1), where P = "keeps a"]) (auto intro: keeps_trans assms(2))

lemma add_ice_keeps [inv_intro]: "keeps a (add_ice E p c a)"
  by (simp add: add_ice_def emit_keeps)

lemma fold_keeps:
  assumes "\<And>x u. keeps u (f x u)"
  shows "keeps a (fold f xs a)"
proof (induction xs arbitrary: a)
  case (Cons x xs)
  have "keeps a (f x a)" by (rule assms)
  also have "keeps \<dots> (fold f (x # xs) a)" using Cons.IH by simp
  finally show ?case .
qed simp

text \<open>A new version of a peer with the same fingerprint and control channel, that opens no closed
  connection and keeps at most eight candidates.\<close>

lemma set_peer_same_keeps:
  "peer_at a p = Some pr \<Longrightarrow> pr_FP pr' = pr_FP pr \<Longrightarrow> pr_cdc pr' = pr_cdc pr \<Longrightarrow>
   (pr_PC pr' \<longrightarrow> pr_PC pr) \<Longrightarrow> (pr_draining pr \<longrightarrow> pr_draining pr') \<Longrightarrow>
   length (pr_pending pr') \<le> max 8 (length (pr_pending pr)) \<Longrightarrow>
   keeps a (set_peer p pr' a)"
  by (erule set_peer_keeps) (simp add: peer_grows_def)

lemma peer_close_keeps [inv_intro]:
  assumes "peer_close p a = Some b"
  shows "keeps a b"
proof -
  from assms obtain pr where pr: "peer_at a p = Some pr"
    by (auto simp: peer_close_def split: bind_splits)
  have "keeps a (emit (ClosedConnection p) a)" by (simp add: emit_keeps)
  also have "keeps \<dots> (set_peer p (pr\<lparr>pr_PC := False\<rparr>) \<dots>)"
    using pr by (intro set_peer_same_keeps [of _ _ pr]) simp_all
  finally show ?thesis using assms pr by (auto simp: peer_close_def)
qed

lemma stateChange_keeps [inv_intro]:
  assumes "stateChange E p st a = Some b"
  shows "keeps a b"
proof (cases st)
  case Connecting
  with assms obtain pr where pr: "peer_at a p = Some pr" and
    b: "b = fold (add_ice E p) (pr_pending pr) (set_peer p (pr\<lparr>pr_pending := [], pr_draining := True\<rparr>) a)"
    by (auto simp: stateChange_def split: bind_splits)
  have "keeps a (set_peer p (pr\<lparr>pr_pending := [], pr_draining := True\<rparr>) a)"
    using pr by (rule set_peer_same_keeps) simp_all
  also have "keeps \<dots> b" unfolding b by (intro fold_keeps add_ice_keeps)
  finally show ?thesis .
next
  case Failed
  with assms peer_close_keeps show ?thesis by (simp add: stateChange_def)
next
  case OtherState
  with assms show ?thesis by (simp add: stateChange_def)
qed

lemma addCandidate_keeps [inv_intro]:
  "addCandidate E p c a = Some (b, res) \<Longrightarrow> keeps a b"
  by (auto simp: addCandidate_def add_ice_keeps set_peer_same_keeps split: bind_splits if_splits)

lemma newCTRLMessage_keeps: "newCTRLMessage E p typ args a = Some (b, msg) \<Longrightarrow> keeps a b"
  by (auto simp: newCTRLMessage_def Let_def set_peer_same_keeps split: bind_splits)

lemma sendMessage_keeps: "sendMessage E p msg a = Some (b, ok) \<Longrightarrow> keeps a b"
  by (auto simp: sendMessage_def emit_keeps split: bind_splits if_splits)

lemma sendControlMessage_keeps [inv_intro]:
  "sendControlMessage E p typ args a = Some (b, ok) \<Longrightarrow> keeps a b"
  by (auto simp: sendControlMessage_def split: bind_splits prod.splits
      intro: keeps_trans newCTRLMessage_keeps sendMessage_keeps)

lemma sendAck_keeps [inv_intro]: "sendAck E p cm body a = Some b \<Longrightarrow> keeps a b"
  by (auto simp: sendAck_def intro: sendControlMessage_keeps)

lemma sendNack_keeps [inv_intro]: "sendNack E p cm desc a = Some b \<Longrightarrow> keeps a b"
  by (auto simp: sendNack_def intro: sendControlMessage_keeps)

lemma broadcast_keeps [inv_intro]: "broadcast E p typ args a = Some b \<Longrightarrow> keeps a b"
  unfolding broadcast_def
  by (erule each_keeps)
    (auto simp: broadcast_one_def split: bind_splits if_splits intro: sendControlMessage_keeps)

lemma answer_keeps: "answer p n body a = Some (b, res) \<Longrightarrow> keeps a b"
  by (auto simp: answer_def set_peer_same_keeps split: bind_splits option.splits)

lemma handleAck_keeps [inv_intro]: "handleAck p raw a = Some (b, res) \<Longrightarrow> keeps a b"
  by (auto simp: handleAck_def split: option.splits intro: answer_keeps)

lemma handleNack_keeps [inv_intro]: "handleNack p m raw a = Some (b, res) \<Longrightarrow> keeps a b"
  by (auto simp: handleNack_def split: option.splits intro: answer_keeps)

lemma wait_start_keeps [inv_intro]:
  assumes "wait_start E p typ args a = Some (b, res)"
  shows "keeps a b"
proof -
  from assms obtain a1 msg where a1: "newCTRLMessage E p typ args a = Some (a1, msg)"
    by (auto simp: wait_start_def split: bind_splits)
  with assms obtain pr ok where pr: "peer_at a1 p = Some pr" and
    b: "sendMessage E p msg (set_peer p (pr\<lparr>pr_acks := (pr_acks pr)(om_ref msg \<mapsto> None)\<rparr>) a1) = Some (b, ok)"
    by (auto simp: wait_start_def Let_def split: bind_splits prod.splits)
  have "keeps a a1" using a1 by (rule newCTRLMessage_keeps)
  also have "keeps a1 (set_peer p (pr\<lparr>pr_acks := (pr_acks pr)(om_ref msg \<mapsto> None)\<rparr>) a1)"
    using pr by (rule set_peer_same_keeps) simp_all
  also have "keeps \<dots> b" using b by (rule sendMessage_keeps)
  finally show ?thesis .
qed

lemma wait_end_keeps [inv_intro]: "wait_end p n timedout a = Some (b, res) \<Longrightarrow> keeps a b"
  by (auto simp: wait_end_def Let_def set_peer_same_keeps split: bind_splits)

lemma setLastPeer_keeps [inv_intro]:
  assumes "has_peer a p"
  shows "keeps a (setLastPeer E p a)"
  unfolding setLastPeer_def
proof (rule simple_update_keeps)
  show "agent_inv a \<Longrightarrow> callbacks_ok (a\<lparr>mostRecent := Some (p, e_now E)\<rparr>)"
    by (rule callbacks_ok_grows [OF agent_invD(4)]) (simp_all add: grows_same)
qed (use assms in \<open>auto simp: panes_ok_def pane_ok_def history_ok_def has_peer_def peers_ok_def
      waiting_ok_def clients_ok_def client_ok_def has_pane_def\<close>)

lemma set_on_msg_keeps:
  assumes "agent_inv a \<Longrightarrow> msg_ok a x"
  shows "keeps a (a\<lparr>on_msg := (on_msg a)(d \<mapsto> x)\<rparr>)"
proof (rule simple_update_keeps)
  let ?b = "a\<lparr>on_msg := (on_msg a)(d \<mapsto> x)\<rparr>"
  have g: "grows a ?b" by (simp add: grows_same)
  show "callbacks_ok ?b" if inv: "agent_inv a"
    using agent_invD(4) [OF inv] assms [OF inv]
    by (auto simp: callbacks_ok_def intro: open_ok_grows [OF g] msg_ok_grows [OF g] timer_ok_grows [OF g])
qed (auto simp: panes_ok_def pane_ok_def history_ok_def has_peer_def peers_ok_def
      waiting_ok_def clients_ok_def client_ok_def has_pane_def)

lemma open_control_keeps [inv_intro]:
  assumes "open_control p d a = Some b"
  shows "keeps a b" and "has_cdc b p"
proof -
  from assms obtain pr where pr: "peer_at a p = Some pr"
    by (auto simp: open_control_def split: bind_splits)
  let ?a1 = "set_peer p (pr\<lparr>pr_cdc := Some d\<rparr>) a"
  from assms pr have b: "b = ?a1\<lparr>on_msg := (on_msg ?a1)(d \<mapsto> ToControl p)\<rparr>"
    by (simp add: open_control_def Let_def)
  have "keeps a ?a1" using pr by (rule set_peer_keeps) (simp add: peer_grows_def)
  also have "keeps ?a1 b"
    unfolding b by (rule set_on_msg_keeps) (simp add: has_cdc_def)
  finally show "keeps a b" .
  show "has_cdc b p" by (simp add: b has_cdc_def)
qed

lemma kill_command_keeps: "kill_command r a = Some b \<Longrightarrow> keeps a b"
  by (auto simp: kill_command_def emit_keeps split: bind_splits)

lemma shutdown_keeps [inv_intro]:
  assumes "shutdown E a = Some b"
  shows "keeps a b"
proof -
  from assms obtain a1 where
    a1: "each peer_close (range_values (Peers a) (e_peers E (Peers a))) a = Some a1" and
    b: "each kill_command (panes_all (e_panes E (panes (Panes a1))) (Panes a1)) a1 = Some b"
    by (auto simp: shutdown_def split: bind_splits)
  have "keeps a a1" using a1 peer_close_keeps by (rule each_keeps)
  also have "keeps a1 b" using b kill_command_keeps by (rule each_keeps)
  finally show ?thesis .
qed

lemma newPeer_inv:
  assumes inv: "agent_inv a" and new: "newPeer E fp a = (b, res)"
  shows "agent_inv b" and "grows a b"
proof -
  have "agent_inv b \<and> grows a b"
  proof (cases "e_new_pc E")
    case True
    let ?p = "next_peer a"
    from True new obtain pr where b: "b = set_peer ?p pr (a\<lparr>next_peer := Suc ?p,
        Peers := (Peers a)(fp \<mapsto> ?p)\<rparr>)" and fp: "pr_FP pr = fp" "pr_pending pr = []"
      by (auto simp: newPeer_def Let_def)
    have none: "peer_at a ?p = None" using agent_invD(3) [OF inv] by (simp add: peers_ok_def)
    have g: "grows a b" using none by (auto simp: grows_but_def b)
    have hp: "has_peer a q \<Longrightarrow> has_peer b q" for q using g by (rule has_peer_grows)
    have "\<exists>pr'. peer_at b q = Some pr' \<and> pr_FP pr' = f" if "Peers b f = Some q" for f q
    proof (cases "f = fp")
      case False
      with that have "Peers a f = Some q" by (simp add: b)
      with agent_invD(3) [OF inv] obtain pr' where "peer_at a q = Some pr'" "pr_FP pr' = f"
        by (auto simp: peers_ok_def)
      with none show ?thesis by (auto simp: b)
    qed (use that fp in \<open>simp add: b\<close>)
    then have "peers_ok b"
      using agent_invD(3) [OF inv] hp by (auto simp: peers_ok_def b fp(2))
    moreover have "panes_ok b"
      by (rule panes_ok_same [OF agent_invD(1) [OF inv]]) (simp_all add: b hp [unfolded b])
    moreover have "waiting_ok b"
      by (rule waiting_ok_grows [OF agent_invD(5,4) [OF inv] g]) (simp add: b)
    ultimately have "agent_inv b"
      using agent_invD [OF inv] g
      by (auto simp: agent_inv_def b intro: clients_ok_grows callbacks_ok_grows)
    with g show ?thesis by simp
  qed (use new inv in \<open>simp add: newPeer_def\<close>)
  then show "agent_inv b" "grows a b" by simp_all
qed

subsection \<open>Channels\<close>

text \<open>\<open>spends np nc a b\<close>: the contract of an operation that may create up to \<open>np\<close> panes and add up
  to \<open>nc\<close> clients, where the two counters have that much room.\<close>

definition spends :: "nat \<Rightarrow> nat \<Rightarrow> agent \<Rightarrow> agent \<Rightarrow> bool" where
  "spends np nc a b \<longleftrightarrow>
     (agent_inv a \<and> np \<le> panes_left (Panes a) \<and> nc \<le> clients_left (CDB a) \<longrightarrow>
      agent_inv b \<and> grows a b \<and> panes_left (Panes a) \<le> panes_left (Panes b) + np \<and>
      clients_left (CDB a) \<le> clients_left (CDB b) + nc)"

lemma keeps_spends: "keeps a b \<Longrightarrow> spends np nc a b"
  by (simp add: keeps_def spends_def)

lemma spends_trans:
  assumes "spends np nc a b" and "spends np' nc' b c"
  shows "spends (np + np') (nc + nc') a c"
  using assms grows_emp_trans unfolding spends_def
  by (smt (verit, ccfv_threshold) add.assoc add.commute le_trans nat_add_left_cancel_le trans_le_add1)

lemma spends_keeps: "spends np nc a b \<Longrightarrow> keeps b c \<Longrightarrow> spends np nc a c"
  using spends_trans [OF _ keeps_spends, of np nc a b c 0 0] by simp

lemma keeps_spends_trans: "keeps a b \<Longrightarrow> spends np nc b c \<Longrightarrow> spends np nc a c"
  using spends_trans [OF keeps_spends, of a b np nc c 0 0] by simp

lemma attach_spends:
  assumes "agent_inv a \<Longrightarrow> has_peer a p \<and> has_pane a r"
  shows "spends 0 1 a (attach d p r a)"
  using assms attach_inv [of a p r d] by (auto simp: spends_def)

lemma reconnect_spends [inv_intro]:
  assumes "reconnect E p d i a = Some (b, res)" and "has_peer a p"
  shows "spends 0 1 a b" and "res = Inr r \<Longrightarrow> has_pane b r"
proof -
  have "spends 0 1 a b \<and> (res = Inr r \<longrightarrow> has_pane b r)"
  proof (cases "panes_get i (Panes a)")
    case None
    with assms(1) show ?thesis by (auto simp: reconnect_def keeps_spends)
  next
    case (Some q)
    with assms(1) obtain pn where pn: "pane_at a q = Some pn"
      by (auto simp: reconnect_def split: bind_splits)
    show ?thesis
    proof (cases "p_IsRunning pn")
      case False
      with assms(1) Some pn show ?thesis by (auto simp: reconnect_def emit_keeps keeps_spends)
    next
      case True
      let ?a1 = "attach d p q a"
      from assms(1) Some pn True obtain pr :: peer where
        b: "restore E q d (pr_Marker pr) ?a1 = Some b"
        by (auto simp: reconnect_def Let_def split: bind_splits)
      from assms(1) Some pn True have res: "res = Inr q"
        by (auto simp: reconnect_def Let_def split: bind_splits)
      have same: "pane_at ?a1 = pane_at a"
        by (simp add: attach_def add_client_def split: prod.splits)
      then have hp: "has_pane ?a1 q" using pn by (simp add: has_pane_def)
      have "spends 0 1 a ?a1"
        using assms(2) pn by (intro attach_spends) (simp add: has_pane_def)
      moreover have "keeps ?a1 b" using b hp by (rule restore_keeps)
      moreover have "pane_at b = pane_at ?a1"
        using b by (auto simp: restore_def split: if_splits bind_splits option.splits)
      ultimately show ?thesis using hp res by (auto simp: has_pane_def intro: spends_keeps)
    qed
  qed
  then show "spends 0 1 a b" "res = Inr r \<Longrightarrow> has_pane b r" by simp_all
qed

lemma execute_spends [inv_intro]:
  assumes ex: "execute E p d ws cmd a = Some (b, res)" and peer: "has_peer a p"
  shows "spends 1 0 a b" and "res = Inr (Some r) \<Longrightarrow> has_pane b r"
proof -
  from ex obtain a1 nres where new: "newPane p ws 0 a = Some (a1, nres)"
    by (auto simp: execute_def split: bind_splits)
  have "spends 1 0 a b \<and> (res = Inr (Some r) \<longrightarrow> has_pane b r)"
  proof (cases nres)
    case None
    with new have "a1 = a" by (auto elim: newPane_cases)
    with None new ex show ?thesis by (auto simp: execute_def keeps_spends)
  next
    case (Some q)
    with ex new obtain a2 a3 ok where a2: "sendFirstMessage E q d a1 = Some a2"
      and a3: "pane_run E q cmd a2 = Some (a3, ok)"
      and b: "if ok then start_reader q a3 = Some b \<and> res = Inr (Some q) else b = a3 \<and> res = Inl RunError"
      by (auto simp: execute_def split: bind_splits prod.splits if_splits)
    have same: "pane_at a2 = pane_at a1" "on_open a2 = on_open a1"
      using a2 by (auto simp: sendFirstMessage_def split: bind_splits)
    have "keeps a3 b" using b start_reader_keeps by (cases ok) auto
    moreover have "spends 1 0 a a3"
      unfolding spends_def
    proof (intro impI)
      assume "agent_inv a \<and> 1 \<le> panes_left (Panes a) \<and> 0 \<le> clients_left (CDB a)"
      then have inv: "agent_inv a" and room: "0 < panes_left (Panes a)" by auto
      obtain pn where n: "agent_inv a1" "grows a a1" "CDB a1 = CDB a"
        "panes_left (Panes a1) = panes_left (Panes a) - 1" "pane_at a q = None"
        "pane_at a1 q = Some pn" "p_TTY pn = None" "not_awaited a1 q"
        using newPane_inv [OF inv peer room] new Some by metis
      note k = keepsD [OF sendFirstMessage_keeps [OF a2] n(1)]
      have aw: "not_awaited a2 q" using n(8) same by (simp add: not_awaited_def)
      note run = pane_run_inv [OF k(1) _ n(7) aw a3]
      have at: "pane_at a2 q = Some pn" using n(6) same by simp
      note run = run [OF at]
      have "grows_but {q} a a3" by (rule grows_emp_trans [OF n(2) grows_emp_trans [OF k(2) run(2)]])
      then have "grows a a3" by (rule grows_mono) (use n(5) in simp)
      with run n k room
      show "agent_inv a3 \<and> grows a a3 \<and> panes_left (Panes a) \<le> panes_left (Panes a3) + 1 \<and>
          clients_left (CDB a) \<le> clients_left (CDB a3) + 0"
        by simp
    qed
    moreover have "has_pane b q" if "ok"
      using b that by (auto simp: start_reader_def has_pane_def split: bind_splits)
    ultimately show ?thesis using b by (auto intro: spends_keeps split: if_splits)
  qed
  then show "spends 1 0 a b" "res = Inr (Some r) \<Longrightarrow> has_pane b r" by simp_all
qed

lemma spends_mono: "spends np nc a b \<Longrightarrow> np \<le> np' \<Longrightarrow> nc \<le> nc' \<Longrightarrow> spends np' nc' a b"
  unfolding spends_def by (meson add_left_mono le_trans)

lemma getOrCreatePane_spends [inv_intro]:
  assumes "getOrCreatePane E p d a = Some (b, res)" and "has_peer a p"
  shows "spends 1 1 a b \<and> (res = Inr (Some r) \<longrightarrow> has_pane b r)"
proof -
  from assms(1) obtain req where req: "parse_label (e_label E d) = Some req"
    by (auto simp: getOrCreatePane_def split: bind_splits)
  show ?thesis
  proof (cases req)
    case ControlChannel
    with assms(1) req show ?thesis
      by (auto simp: getOrCreatePane_def split: bind_splits intro: keeps_spends open_control_keeps)
  next
    case (ReconnectTo i)
    with assms(1) req obtain r0 where "reconnect E p d i a = Some (b, r0)"
      "res = (case r0 of Inl e \<Rightarrow> Inl e | Inr r \<Rightarrow> Inr (Some r))"
      by (auto simp: getOrCreatePane_def split: bind_splits)
    moreover have "spends 1 1 a b"
      using reconnect_spends(1) [OF calculation(1) assms(2)] by (rule spends_mono) simp_all
    ultimately show ?thesis using reconnect_spends(2) [OF _ assms(2)] by (auto split: sum.splits)
  next
    case (Execute ws cmd)
    with assms(1) req have "execute E p d ws cmd a = Some (b, res)"
      by (simp add: getOrCreatePane_def)
    moreover have "spends 1 1 a b"
      using execute_spends(1) [OF calculation assms(2)] by (rule spends_mono) simp_all
    ultimately show ?thesis using execute_spends(2) [OF _ assms(2)] by auto
  qed (use assms(1) req in \<open>auto simp: getOrCreatePane_def keeps_spends\<close>)
qed

lemma opened_labelled_spends [inv_intro]:
  assumes "opened_labelled E p d a = Some b" and peer: "has_peer a p"
  shows "spends 1 2 a b"
proof -
  from assms(1) obtain a1 res where g: "getOrCreatePane E p d a = Some (a1, res)" and
    b: "b = (case res of Inl e \<Rightarrow> if e_send_ok E d then emit (SentError d e) a1 else a1
           | Inr None \<Rightarrow> a1 | Inr (Some r) \<Rightarrow> attach d p r a1)"
    by (auto simp: opened_labelled_def split: bind_splits)
  note s = getOrCreatePane_spends [OF g peer]
  consider (pane) r where "res = Inr (Some r)" | (no) "\<forall>r. res \<noteq> Inr (Some r)" by blast
  then show ?thesis
  proof cases
    case pane
    have "spends (1 + 0) (1 + 1) a b" unfolding spends_def
    proof (intro impI)
      assume pre: "agent_inv a \<and> 1 + 0 \<le> panes_left (Panes a) \<and> 1 + 1 \<le> clients_left (CDB a)"
      with s have 1: "agent_inv a1" "grows a a1" "panes_left (Panes a) \<le> panes_left (Panes a1) + 1"
        "clients_left (CDB a) \<le> clients_left (CDB a1) + 1" "has_pane a1 r"
        using pane by (auto simp: spends_def)
      have "has_peer a1 p" using 1(2) peer by (rule has_peer_grows)
      with attach_inv [OF 1(1) this 1(5), of d] pre 1 pane
      show "agent_inv b \<and> grows a b \<and> panes_left (Panes a) \<le> panes_left (Panes b) + (1 + 0) \<and>
          clients_left (CDB a) \<le> clients_left (CDB b) + (1 + 1)"
        by (auto simp: b intro: grows_emp_trans)
    qed
    then show ?thesis by (simp add: numeral_2_eq_2)
  next
    case no
    have "keeps a1 b"
    proof (cases res)
      case (Inl e)
      then show ?thesis by (simp add: b emit_keeps)
    next
      case (Inr x)
      with no have "x = None" by (cases x) auto
      with Inr show ?thesis by (simp add: b)
    qed
    have "spends 1 1 a a1" using s by simp
    then have "spends 1 2 a a1" by (rule spends_mono) simp_all
    then show ?thesis using \<open>keeps a1 b\<close> by (rule spends_keeps)
  qed
qed

text \<open>A callback for a channel that opens.\<close>

lemma set_on_open_inv:
  assumes inv: "agent_inv a" and ok: "open_ok a x"
    and fresh: "\<And>p m r cmd. x = OpenAddPane p m r cmd \<Longrightarrow>
      not_awaited a r \<and> (\<forall>pn. pane_at a r = Some pn \<longrightarrow> p_TTY pn = None)"
  shows "agent_inv (a\<lparr>on_open := (on_open a)(d \<mapsto> x)\<rparr>)" (is "agent_inv ?b")
proof -
  have g: "grows a ?b" by (simp add: grows_same)
  have "callbacks_ok ?b"
    using agent_invD(4) [OF inv] ok
    by (auto simp: callbacks_ok_def intro: open_ok_grows [OF g] msg_ok_grows [OF g] timer_ok_grows [OF g])
  moreover have "waiting_ok ?b"
    using agent_invD(5) [OF inv] fresh unfolding waiting_ok_def not_awaited_def by auto
  ultimately show ?thesis
    using agent_invD [OF inv]
    by (auto simp: agent_inv_def panes_ok_def pane_ok_def history_ok_def has_peer_def peers_ok_def
        clients_ok_def client_ok_def has_pane_def)
qed

lemma onChannelReq_keeps [inv_intro]:
  assumes "has_peer a p"
  shows "keeps a (onChannelReq E p d a)"
  using set_on_open_inv [of a "OpenLabelled p" d] assms
  by (auto simp: onChannelReq_def keeps_def grows_same)

end
