(* ===== verification/Offers.thy ===== *)
theory Offers
  imports Peer_Ops
begin

section \<open>Offers on the wire: EncodeOffer and DecodeOffer in peers/peer.go\<close>

text \<open>
  Session descriptions travel as JSON in standard base64. The two functions are modelled over a
  type \<open>'a\<close> of descriptions, with \<open>json.Marshal\<close> and \<open>json.Unmarshal\<close> for it as arguments; base64
  is modelled as \<open>encoding/base64\<close> does it.
\<close>

subsection \<open>Standard base64\<close>

definition alphabet :: bytes where
  "alphabet = ''ABCDEFGHIJKLMNOPQRSTUVWXYZabcdefghijklmnopqrstuvwxyz0123456789+/''"

definition sextet :: "nat \<Rightarrow> char" where
  "sextet n = alphabet ! n"

definition sextet_val :: "char \<Rightarrow> nat option" where
  "sextet_val c =
     (if c \<in> set alphabet then Some (length (takeWhile (\<lambda>d. d \<noteq> c) alphabet)) else None)"

fun b64_encode :: "bytes \<Rightarrow> bytes" where
  "b64_encode [] = []"
| "b64_encode [a] =
     [sextet (of_char a div 4), sextet (of_char a mod 4 * 16), CHR ''='', CHR ''='']"
| "b64_encode [a, b] =
     [sextet (of_char a div 4), sextet (of_char a mod 4 * 16 + of_char b div 16),
      sextet (of_char b mod 16 * 4), CHR ''='']"
| "b64_encode (a # b # c # s) =
     sextet (of_char a div 4) # sextet (of_char a mod 4 * 16 + of_char b div 16) #
     sextet (of_char b mod 16 * 4 + of_char c div 64) # sextet (of_char c mod 64) # b64_encode s"

definition encodedLen :: "nat \<Rightarrow> nat" where
  "encodedLen n = (n + 2) div 3 * 4"

text \<open>\<open>Decode\<close> skips line ends; padding ends the text, and the bits it leaves over are ignored.\<close>

fun b64_groups :: "bytes \<Rightarrow> bytes option" where
  "b64_groups [] = Some []"
| "b64_groups (p # q # r # t # s) = do {
     x \<leftarrow> sextet_val p;
     y \<leftarrow> sextet_val q;
     let a = char_of (x * 4 + y div 16);
     if r = CHR ''='' then (if t = CHR ''='' \<and> s = [] then Some [a] else None)
     else do {
       z \<leftarrow> sextet_val r;
       let b = char_of (y mod 16 * 16 + z div 4);
       if t = CHR ''='' then (if s = [] then Some [a, b] else None)
       else do {
         w \<leftarrow> sextet_val t;
         rest \<leftarrow> b64_groups s;
         Some (a # b # char_of (z mod 4 * 64 + w) # rest)
       }
     }
   }"
| "b64_groups _ = None"

definition b64_decode :: "bytes \<Rightarrow> bytes option" where
  "b64_decode s = b64_groups (filter (\<lambda>c. c \<noteq> newline \<and> c \<noteq> CHR 0x0D) s)"

subsection \<open>EncodeOffer and DecodeOffer\<close>

datatype offer_error = MarshalFailed | NotBase64 | UnmarshalFailed

text \<open>\<open>dst\<close> is the length of the destination; the encoder panics when it is too short. The result is
  what stands in \<open>dst\<close> up to the length returned.\<close>

definition encodeOffer :: "nat \<Rightarrow> ('a \<Rightarrow> bytes option) \<Rightarrow> 'a \<Rightarrow> (offer_error + bytes) option" where
  "encodeOffer dst marshal obj =
     (case marshal obj of
        None \<Rightarrow> Some (Inl MarshalFailed)
      | Some b \<Rightarrow> if dst < encodedLen (length b) then None else Some (Inr (b64_encode b)))"

definition decodeOffer :: "(bytes \<Rightarrow> 'a option) \<Rightarrow> bytes \<Rightarrow> offer_error + 'a" where
  "decodeOffer unmarsh src =
     (case b64_decode src of
        None \<Rightarrow> Inl NotBase64
      | Some b \<Rightarrow> (case unmarsh b of None \<Rightarrow> Inl UnmarshalFailed | Some x \<Rightarrow> Inr x))"

subsection \<open>The round trip\<close>

lemma sextet_val_sextet_all:
  "list_all (\<lambda>n. sextet_val (sextet n) = Some n \<and> sextet n \<noteq> CHR ''='' \<and> sextet n \<noteq> newline \<and>
     sextet n \<noteq> CHR 0x0D) [0..<64]"
  by code_simp

lemma sextet_facts:
  assumes "n < 64"
  shows "sextet_val (sextet n) = Some n" and "sextet n \<noteq> CHR ''=''" and "sextet n \<noteq> newline"
    and "sextet n \<noteq> CHR 0x0D"
  using sextet_val_sextet_all assms by (simp_all add: list_all_iff)

lemma of_char_less: "(of_char c :: nat) < 256"
  by simp

lemma encodedLen_add3: "encodedLen (n + 3) = encodedLen n + 4"
  unfolding encodedLen_def by presburger

lemma length_b64_encode: "length (b64_encode s) = encodedLen (length s)"
proof (induction s rule: b64_encode.induct)
  case (4 a b c s)
  then show ?case using encodedLen_add3 [of "length s"] by (simp add: numeral_3_eq_3)
qed (simp_all add: encodedLen_def)

lemma pack:
  assumes "u < (k::nat)"
  shows "(m * k + u) div k = m" and "(m * k + u) mod k = u"
  using assms by simp_all

lemma bits:
  assumes "(x::nat) < 256" and "y < 256" and "z < 256"
  shows "x div 4 < 64" "x mod 4 * 16 < 64" "x mod 4 * 16 + y div 16 < 64" "y mod 16 * 4 < 64"
    "y mod 16 * 4 + z div 64 < 64" "z mod 64 < 64"
    "x div 4 * 4 + x mod 4 * 16 div 16 = x"
    "x div 4 * 4 + (x mod 4 * 16 + y div 16) div 16 = x"
    "(x mod 4 * 16 + y div 16) mod 16 * 16 + y mod 16 * 4 div 4 = y"
    "(x mod 4 * 16 + y div 16) mod 16 * 16 + (y mod 16 * 4 + z div 64) div 4 = y"
    "(y mod 16 * 4 + z div 64) mod 4 * 64 + z mod 64 = z"
proof -
  have xy: "x mod 4 < 4" "y div 16 < 16" "y mod 16 < 16" "z div 64 < 4" "z mod 64 < 64"
    using assms by auto
  show "x div 4 < 64" "x mod 4 * 16 < 64" "x mod 4 * 16 + y div 16 < 64" "y mod 16 * 4 < 64"
    "y mod 16 * 4 + z div 64 < 64" "z mod 64 < 64"
    using assms xy by linarith+
  show "x div 4 * 4 + x mod 4 * 16 div 16 = x"
    "x div 4 * 4 + (x mod 4 * 16 + y div 16) div 16 = x"
    "(x mod 4 * 16 + y div 16) mod 16 * 16 + y mod 16 * 4 div 4 = y"
    "(x mod 4 * 16 + y div 16) mod 16 * 16 + (y mod 16 * 4 + z div 64) div 4 = y"
    "(y mod 16 * 4 + z div 64) mod 4 * 64 + z mod 64 = z"
    by (simp_all only: pack [OF xy(2)] pack [OF xy(4)] div_mult_mod_eq
        nonzero_mult_div_cancel_right zero_neq_numeral [symmetric] not_False_eq_True)
qed

text \<open>What \<open>Decode\<close> makes of a group of four, three and two digits.\<close>

lemma b64_groups_sextets:
  assumes "p < 64" and "q < 64"
  shows "b64_groups [sextet p, sextet q, CHR ''='', CHR ''=''] = Some [char_of (p * 4 + q div 16)]"
    and "r < 64 \<Longrightarrow> b64_groups [sextet p, sextet q, sextet r, CHR ''=''] =
      Some [char_of (p * 4 + q div 16), char_of (q mod 16 * 16 + r div 4)]"
    and "r < 64 \<Longrightarrow> t < 64 \<Longrightarrow> b64_groups s = Some rest \<Longrightarrow>
      b64_groups (sextet p # sextet q # sextet r # sextet t # s) =
      Some (char_of (p * 4 + q div 16) # char_of (q mod 16 * 16 + r div 4) #
        char_of (r mod 4 * 64 + t) # rest)"
  using assms by (simp_all add: sextet_facts del: mult_Suc mult_Suc_right)

lemma b64_groups_encode: "b64_groups (b64_encode s) = Some s"
proof (induction s rule: b64_encode.induct)
  case (2 a)
  note b = bits [OF of_char_less [of a] of_char_less [of a] of_char_less [of a]]
  show ?case by (simp only: b64_encode.simps b64_groups_sextets(1) b char_of_char)
next
  case (3 a b)
  note b = bits [OF of_char_less [of a] of_char_less [of b] of_char_less [of b]]
  show ?case by (simp only: b64_encode.simps b64_groups_sextets(2) b char_of_char)
next
  case (4 a b c s)
  note b = bits [OF of_char_less [of a] of_char_less [of b] of_char_less [of c]]
  show ?case
    by (simp only: b64_encode.simps b64_groups_sextets(3) [OF _ _ _ _ 4] b char_of_char)
qed simp

lemma b64_encode_chars: "c \<in> set (b64_encode s) \<Longrightarrow> c \<noteq> newline \<and> c \<noteq> CHR 0x0D"
proof (induction s rule: b64_encode.induct)
  case (2 a)
  note b = bits [OF of_char_less [of a] of_char_less [of a] of_char_less [of a]]
  from 2 show ?case using sextet_facts [OF b(1)] sextet_facts [OF b(2)]
    by (auto simp del: numeral_less_iff)
next
  case (3 a b')
  note b = bits [OF of_char_less [of a] of_char_less [of b'] of_char_less [of b']]
  from 3 show ?case using sextet_facts [OF b(1)] sextet_facts [OF b(3)] sextet_facts [OF b(4)]
    by auto
next
  case (4 a b' c' s)
  note b = bits [OF of_char_less [of a] of_char_less [of b'] of_char_less [of c']]
  from 4 show ?case using sextet_facts [OF b(1)] sextet_facts [OF b(3)] sextet_facts [OF b(5)]
      sextet_facts [OF b(6)]
    by auto
qed simp

lemma b64_roundtrip: "b64_decode (b64_encode s) = Some s"
proof -
  have "filter (\<lambda>c. c \<noteq> newline \<and> c \<noteq> CHR 0x0D) (b64_encode s) = b64_encode s"
    using b64_encode_chars by (auto simp: filter_id_conv)
  then show ?thesis by (simp add: b64_decode_def b64_groups_encode)
qed

lemma encodeOffer_4096:
  assumes "marshal x = Some b"
  shows "encodeOffer 4096 marshal x = (if length b \<le> 3072 then Some (Inr (b64_encode b)) else None)"
proof -
  have "encodedLen (length b) \<le> 4096 \<longleftrightarrow> length b \<le> 3072" unfolding encodedLen_def by presburger
  with assms show ?thesis by (auto simp: encodeOffer_def)
qed

lemma decodeOffer_encoded: "unmarsh b = Some x \<Longrightarrow> decodeOffer unmarsh (b64_encode b) = Inr x"
  by (simp add: decodeOffer_def b64_roundtrip)

text \<open>C37. What \<open>EncodeOffer\<close> writes \<open>DecodeOffer\<close> reads back, for every description that JSON takes
  there and back; and into the 4096 bytes the callers provide it writes exactly the descriptions
  whose JSON has at most 3072 bytes, and panics on all others.\<close>

theorem offer_roundtrip:
  assumes "marshal x = Some b" and "unmarsh b = Some x"
  shows "(if length b \<le> 3072
          then \<exists>w. encodeOffer 4096 marshal x = Some (Inr w) \<and> decodeOffer unmarsh w = Inr x
          else encodeOffer 4096 marshal x = None)"
  using assms by (simp add: encodeOffer_4096 decodeOffer_encoded)

theorem offer_roundtrip_witness:
  "encodeOffer 4096 Some ''{}'' = Some (Inr ''e30='') \<and> decodeOffer Some ''e30='' = Inr ''{}''"
proof -
  have "b64_encode ''{}'' = ''e30=''" by code_simp
  then show ?thesis
    using offer_roundtrip [of Some "''{}''" "''{}''" Some] by (simp add: encodeOffer_def encodedLen_def)
qed

end
