(* ===== verification/Handlers.thy ===== *)
theory Handlers
  imports Peer_Ops
begin

section \<open>The handlers of control messages: handlers.go and handleCTRLMsg\<close>

text \<open>
  Each handler takes the message and the text of its arguments. Arguments that do not parse are
  dropped without an answer. An error of the acknowledgement is only logged.
\<close>

subsection \<open>handlers.go\<close>

definition handleResize :: "env \<Rightarrow> peer_ref \<Rightarrow> ctrlMessage \<Rightarrow> raw option \<Rightarrow> agent \<Rightarrow> agent option" where
  "handleResize E p m raw a =
     (case dec_resize raw of
        None \<Rightarrow> Some a
      | Some args \<Rightarrow>
          (case panes_get (rz_pane args) (Panes a) of
             None \<Rightarrow> Some a
           | Some r \<Rightarrow> do {
               pn \<leftarrow> pane_at a r;
               if p_TTY pn = None then sendNack E p m ''Tried to resize a pane with no tty'' a
               else do {
                 a1 \<leftarrow> pane_resize r \<lparr>ws_rows = rz_sy args, ws_cols = rz_sx args, ws_x = 0, ws_y = 0\<rparr> a;
                 a2 \<leftarrow> broadcast E p ''resize'' (ResizeArgs args) a1;
                 sendAck E p m [] a2
               }
             }))"

definition set_marker :: "peer_ref \<Rightarrow> int \<Rightarrow> agent \<Rightarrow> agent option" where
  "set_marker p n a = do {
     pr \<leftarrow> peer_at a p;
     Some (set_peer p (pr\<lparr>pr_Marker := n\<rparr>) a)
   }"

definition handleRestore :: "env \<Rightarrow> peer_ref \<Rightarrow> ctrlMessage \<Rightarrow> raw option \<Rightarrow> agent \<Rightarrow> agent option" where
  "handleRestore E p m raw a =
     (case dec_restore raw of
        None \<Rightarrow> Some a
      | Some marker \<Rightarrow> do {
          a1 \<leftarrow> set_marker p marker a;
          sendAck E p m (Payload a1) a1
        })"

definition handleGetPayload :: "env \<Rightarrow> peer_ref \<Rightarrow> ctrlMessage \<Rightarrow> agent \<Rightarrow> agent option" where
  "handleGetPayload E p m a = sendAck E p m (Payload a) a"

definition handleSetPayload :: "env \<Rightarrow> peer_ref \<Rightarrow> ctrlMessage \<Rightarrow> raw option \<Rightarrow> agent \<Rightarrow> agent option" where
  "handleSetPayload E p m raw a =
     (case dec_payload raw of
        None \<Rightarrow> Some a
      | Some payload \<Rightarrow> do {
          let a1 = a\<lparr>Payload := payload\<rparr>;
          a2 \<leftarrow> broadcast E p ''set_payload'' (SetPayloadArgs payload) a1;
          sendAck E p m (Payload a2) a2
        })"

text \<open>\<open>handleMark\<close>. The loop over the panes waits forever at a buffer whose mutex is never released;
  the marks set before stay, and no acknowledgement is sent.\<close>

fun mark_panes :: "int \<Rightarrow> pane_ref list \<Rightarrow> agent \<Rightarrow> (agent \<times> bool) option" where
  "mark_panes n [] a = Some (a, True)"
| "mark_panes n (r # rs) a = do {
     pn \<leftarrow> pane_at a r;
     if p_stuck pn then Some (a, False)
     else mark_panes n rs (set_pane r (pn\<lparr>p_Buffer := mark n (p_Buffer pn)\<rparr>) a)
   }"

definition handleMark :: "env \<Rightarrow> peer_ref \<Rightarrow> ctrlMessage \<Rightarrow> agent \<Rightarrow> agent option" where
  "handleMark E p m a = do {
     let n = go_inc (lastMarker a);
     a1 \<leftarrow> set_marker p n (a\<lparr>lastMarker := n\<rparr>);
     (a2, finished) \<leftarrow> mark_panes n (panes_all (e_panes E (panes (Panes a1))) (Panes a1)) a1;
     if finished then sendAck E p m (show_int n) a2 else Some a2
   }"

text \<open>The label of the channel of \<open>reconnect_pane\<close> and \<open>add_pane\<close>: the message's id and the pane's.\<close>

definition channel_label :: "ctrlMessage \<Rightarrow> int \<Rightarrow> bytes" where
  "channel_label m i = show_int (cm_ref m) @ '':'' @ show_int i"

text \<open>\<open>peer.PC\<close> must be there.\<close>

definition create_dc :: "env \<Rightarrow> peer_ref \<Rightarrow> bytes \<Rightarrow> agent \<Rightarrow> dc option option" where
  "create_dc E p l a = do {
     pr \<leftarrow> peer_at a p;
     if pr_PC pr then Some (e_create_dc E p l) else None
   }"

definition handleReconnectPane ::
  "env \<Rightarrow> peer_ref \<Rightarrow> ctrlMessage \<Rightarrow> raw option \<Rightarrow> agent \<Rightarrow> agent option" where
  "handleReconnectPane E p m raw a =
     (case dec_reconnect raw of
        None \<Rightarrow> Some a
      | Some i \<Rightarrow> do {
          d \<leftarrow> create_dc E p (channel_label m i) a;
          Some (case d of
                  None \<Rightarrow> a
                | Some d \<Rightarrow> a\<lparr>on_open := (on_open a)(d \<mapsto> OpenReconnect p m i)\<rparr>)
        })"

text \<open>Its \<open>OnOpen\<close> closure.\<close>

definition opened_reconnect :: "env \<Rightarrow> peer_ref \<Rightarrow> ctrlMessage \<Rightarrow> int \<Rightarrow> dc \<Rightarrow> agent \<Rightarrow> agent option" where
  "opened_reconnect E p m i d a = do {
     (a1, res) \<leftarrow> reconnect E p d i a;
     (case res of
        Inl _ \<Rightarrow> sendNack E p m (''Failed to reconnect to: '' @ show_int i) a1
      | Inr r \<Rightarrow> sendAck E p m (show_int (pane_id a1 r)) a1)
   }"

definition add_pane_size :: "addPaneArgs \<Rightarrow> winsize" where
  "add_pane_size args =
     (if 0 < ap_rows args \<and> 0 < ap_cols args
      then \<lparr>ws_rows = ap_rows args, ws_cols = ap_cols args, ws_x = ap_x args, ws_y = ap_y args\<rparr>
      else \<lparr>ws_rows = 24, ws_cols = 80, ws_x = 0, ws_y = 0\<rparr>)"

text \<open>\<open>a.Command[0]\<close> panics on an empty command.\<close>

definition add_pane_command :: "env \<Rightarrow> bytes list \<Rightarrow> bytes list option" where
  "add_pane_command E cmd =
     (case cmd of
        [] \<Rightarrow> None
      | c # rest \<Rightarrow>
          Some (if c = ''*''
                then (case e_shell E of None \<Rightarrow> ''/bin/bash'' | Some shell \<Rightarrow> shell) # rest
                else cmd))"

definition handleAddPane :: "env \<Rightarrow> peer_ref \<Rightarrow> ctrlMessage \<Rightarrow> raw option \<Rightarrow> agent \<Rightarrow> agent option" where
  "handleAddPane E p m raw a =
     (case dec_addPane raw of
        None \<Rightarrow> Some a
      | Some args \<Rightarrow> do {
          cmd \<leftarrow> add_pane_command E (ap_command args);
          (a1, res) \<leftarrow> newPane p (Some (add_pane_size args)) (ap_parent args) a;
          (case res of
             None \<Rightarrow> Some a1
           | Some r \<Rightarrow> do {
               let l = channel_label m (pane_id a1 r);
               dco \<leftarrow> create_dc E p l a1;
               (case dco of
                  None \<Rightarrow> sendNack E p m (''Failed to create data channel : '' @ l) a1
                | Some d \<Rightarrow> Some (a1\<lparr>on_open := (on_open a1)(d \<mapsto> OpenAddPane p m r cmd)\<rparr>))
             })
        })"

text \<open>Its \<open>OnOpen\<close> closure: the result of \<open>Run\<close> is ignored.\<close>

definition opened_add_pane ::
  "env \<Rightarrow> peer_ref \<Rightarrow> ctrlMessage \<Rightarrow> pane_ref \<Rightarrow> bytes list \<Rightarrow> dc \<Rightarrow> agent \<Rightarrow> agent option" where
  "opened_add_pane E p m r cmd d a = do {
     let a1 = (case e_welcome E of None \<Rightarrow> a | Some w \<Rightarrow> fst (dc_send E d w a));
     (a2, _) \<leftarrow> pane_run E r cmd a1;
     let (a3, c) = add_client d r p a2;
     a4 \<leftarrow> sendAck E p m (show_int (pane_id a3 r)) a3;
     Some (a4\<lparr>on_msg := (on_msg a4)(d \<mapsto> ToPane p r), on_close := (on_close a4)(d \<mapsto> c)\<rparr>)
   }"

subsection \<open>Dispatch\<close>

text \<open>\<open>handleCTRLMsg\<close> of \<open>webexec.go\<close>, which is the configuration's \<open>OnCTRLMsg\<close>.\<close>

definition dispatch :: "env \<Rightarrow> peer_ref \<Rightarrow> ctrlMessage \<Rightarrow> raw option \<Rightarrow> agent \<Rightarrow> agent option" where
  "dispatch E p m raw a =
     (if cm_type m = ''resize'' then handleResize E p m raw a
      else if cm_type m = ''restore'' then handleRestore E p m raw a
      else if cm_type m = ''get_payload'' then handleGetPayload E p m a
      else if cm_type m = ''set_payload'' then handleSetPayload E p m raw a
      else if cm_type m = ''mark'' then handleMark E p m a
      else if cm_type m = ''reconnect_pane'' then handleReconnectPane E p m raw a
      else if cm_type m = ''add_pane'' then handleAddPane E p m raw a
      else sendNack E p m ''unknown control message type'' a)"

text \<open>\<open>handleCTRLMsg\<close> of \<open>peers/peer.go\<close>: what arrives on the control channel. An answer that finds
  its channel full waits there, and the handler with it.\<close>

definition handleCTRLMsg :: "env \<Rightarrow> peer_ref \<Rightarrow> raw option \<Rightarrow> agent \<Rightarrow> agent option" where
  "handleCTRLMsg E p msg a =
     (case dec_ctrl msg of
        None \<Rightarrow> Some a
      | Some m \<Rightarrow>
          if cm_type m = ''ack'' then map_option fst (handleAck p (cm_raw m) a)
          else if cm_type m = ''nack'' then map_option fst (handleNack p m (cm_raw m) a)
          else dispatch E p m (cm_raw m) a)"

subsection \<open>Callbacks\<close>

text \<open>A data channel opens: its \<open>OnOpen\<close> closure runs, once.\<close>

definition channel_opens :: "env \<Rightarrow> dc \<Rightarrow> agent \<Rightarrow> agent option" where
  "channel_opens E d a =
     (case on_open a d of
        None \<Rightarrow> Some a
      | Some x \<Rightarrow>
          (let a1 = a\<lparr>on_open := (on_open a)(d := None)\<rparr>
           in case x of
                OpenLabelled p \<Rightarrow> opened_labelled E p d a1
              | OpenAddPane p m r cmd \<Rightarrow> opened_add_pane E p m r cmd d a1
              | OpenReconnect p m i \<Rightarrow> opened_reconnect E p m i d a1))"

text \<open>A message arrives: bytes for a pane, JSON (with its text) on the control channel.\<close>

definition message_arrives :: "env \<Rightarrow> dc \<Rightarrow> bytes \<Rightarrow> raw option \<Rightarrow> agent \<Rightarrow> agent option" where
  "message_arrives E d b msg a =
     (case on_msg a d of
        None \<Rightarrow> Some a
      | Some (ToPane p r) \<Rightarrow> pane_onMessage E r b (setLastPeer E p a)
      | Some (ToControl p) \<Rightarrow> handleCTRLMsg E p msg a)"

definition channel_closes :: "env \<Rightarrow> dc \<Rightarrow> agent \<Rightarrow> agent" where
  "channel_closes E d a = (case on_close a d of None \<Rightarrow> a | Some c \<Rightarrow> drop_client E c a)"

subsection \<open>They keep the invariant\<close>

lemma bind_Some_iff: "Option.bind x f = Some y \<longleftrightarrow> (\<exists>u. x = Some u \<and> f u = Some y)"
  by (cases x) auto

lemma handleResize_keeps [inv_intro]:
  assumes "handleResize E p m raw a = Some b"
  shows "keeps a b"
proof (cases "dec_resize raw")
  case None
  with assms show ?thesis by (simp add: handleResize_def)
next
  case args: (Some args)
  show ?thesis
  proof (cases "panes_get (rz_pane args) (Panes a)")
    case None
    with args assms show ?thesis by (simp add: handleResize_def)
  next
    case (Some r)
    with args assms obtain pn where pn: "pane_at a r = Some pn"
      by (auto simp: handleResize_def bind_Some_iff)
    show ?thesis
    proof (cases "p_TTY pn")
      case None
      with args Some pn assms show ?thesis by (simp add: handleResize_def sendNack_keeps)
    next
      case (Some t)
      let ?ws = "\<lparr>ws_rows = rz_sy args, ws_cols = rz_sx args, ws_x = 0, ws_y = 0\<rparr>"
      from args \<open>panes_get _ _ = Some r\<close> pn assms Some
      have "Option.bind (pane_resize r ?ws a) (\<lambda>a1.
          Option.bind (broadcast E p ''resize'' (ResizeArgs args) a1) (sendAck E p m [])) = Some b"
        by (simp add: handleResize_def)
      then obtain a1 a2 where a1: "pane_resize r ?ws a = Some a1"
        and a2: "broadcast E p ''resize'' (ResizeArgs args) a1 = Some a2"
        and b: "sendAck E p m [] a2 = Some b"
        by (auto simp: bind_Some_iff)
      have "keeps a a1" using a1 by (rule pane_resize_keeps)
      also have "keeps a1 a2" using a2 by (rule broadcast_keeps)
      also have "keeps a2 b" using b by (rule sendAck_keeps)
      finally show ?thesis .
    qed
  qed
qed

lemma set_marker_keeps: "set_marker p n a = Some b \<Longrightarrow> keeps a b"
  by (auto simp: set_marker_def bind_Some_iff set_peer_same_keeps)

lemma handleRestore_keeps [inv_intro]: "handleRestore E p m raw a = Some b \<Longrightarrow> keeps a b"
  by (auto simp: handleRestore_def bind_Some_iff split: option.splits
      dest!: set_marker_keeps sendAck_keeps intro: keeps_trans)

lemma handleGetPayload_keeps [inv_intro]: "handleGetPayload E p m a = Some b \<Longrightarrow> keeps a b"
  by (auto simp: handleGetPayload_def dest!: sendAck_keeps)

text \<open>An update of a field no part of the invariant looks at.\<close>

lemma Payload_keeps: "keeps a (a\<lparr>Payload := x\<rparr>)"
proof (rule simple_update_keeps)
  show "agent_inv a \<Longrightarrow> callbacks_ok (a\<lparr>Payload := x\<rparr>)"
    by (rule callbacks_ok_grows [OF agent_invD(4)]) (simp_all add: grows_same)
qed (auto simp: panes_ok_def pane_ok_def history_ok_def has_peer_def peers_ok_def
      waiting_ok_def clients_ok_def client_ok_def has_pane_def)

lemma lastMarker_keeps: "keeps a (a\<lparr>lastMarker := x\<rparr>)"
proof (rule simple_update_keeps)
  show "agent_inv a \<Longrightarrow> callbacks_ok (a\<lparr>lastMarker := x\<rparr>)"
    by (rule callbacks_ok_grows [OF agent_invD(4)]) (simp_all add: grows_same)
qed (auto simp: panes_ok_def pane_ok_def history_ok_def has_peer_def peers_ok_def
      waiting_ok_def clients_ok_def client_ok_def has_pane_def)

lemma on_close_keeps: "keeps a (a\<lparr>on_close := oc\<rparr>)"
proof (rule simple_update_keeps)
  show "agent_inv a \<Longrightarrow> callbacks_ok (a\<lparr>on_close := oc\<rparr>)"
    by (rule callbacks_ok_grows [OF agent_invD(4)]) (simp_all add: grows_same)
qed (auto simp: panes_ok_def pane_ok_def history_ok_def has_peer_def peers_ok_def
      waiting_ok_def clients_ok_def client_ok_def has_pane_def)

lemma handleSetPayload_keeps [inv_intro]:
  assumes "handleSetPayload E p m raw a = Some b"
  shows "keeps a b"
proof (cases "dec_payload raw")
  case None
  with assms show ?thesis by (simp add: handleSetPayload_def)
next
  case (Some x)
  with assms obtain a2 where
    a2: "broadcast E p ''set_payload'' (SetPayloadArgs x) (a\<lparr>Payload := x\<rparr>) = Some a2" and
    b: "sendAck E p m (Payload a2) a2 = Some b"
    by (auto simp: handleSetPayload_def bind_Some_iff Let_def)
  have "keeps a (a\<lparr>Payload := x\<rparr>)" by (rule Payload_keeps)
  also have "keeps \<dots> a2" using a2 by (rule broadcast_keeps)
  also have "keeps a2 b" using b by (rule sendAck_keeps)
  finally show ?thesis .
qed

lemma mark_panes_keeps: "mark_panes n rs a = Some (b, fin) \<Longrightarrow> keeps a b"
proof (induction rs arbitrary: a)
  case (Cons r rs)
  then obtain pn where pn: "pane_at a r = Some pn" by (auto simp: bind_Some_iff)
  show ?case
  proof (cases "p_stuck pn")
    case True
    with Cons.prems pn show ?thesis by simp
  next
    case False
    let ?pn = "pn\<lparr>p_Buffer := mark n (p_Buffer pn)\<rparr>"
    have "keeps a (set_pane r ?pn a)"
    proof (rule set_pane_keeps [OF pn])
      show "pane_grows False pn ?pn" by (simp add: pane_grows_def phase_of_def)
      assume "agent_inv a"
      from inv_pane_ok [OF this pn] show "pane_ok a r ?pn"
        by (auto simp: pane_ok_def history_ok_def intro: mark_rel)
    qed
    also have "keeps \<dots> b" using Cons.IH Cons.prems pn False by simp
    finally show ?thesis .
  qed
qed simp

lemma handleMark_keeps [inv_intro]:
  assumes "handleMark E p m a = Some b"
  shows "keeps a b"
proof -
  let ?n = "go_inc (lastMarker a)"
  from assms obtain a1 a2 fin where a1: "set_marker p ?n (a\<lparr>lastMarker := ?n\<rparr>) = Some a1" and
    a2: "mark_panes ?n (panes_all (e_panes E (panes (Panes a1))) (Panes a1)) a1 = Some (a2, fin)" and
    b: "if fin then sendAck E p m (show_int ?n) a2 = Some b else b = a2"
    by (auto simp: handleMark_def bind_Some_iff Let_def split: if_splits)
  have "keeps a (a\<lparr>lastMarker := ?n\<rparr>)" by (rule lastMarker_keeps)
  also have "keeps \<dots> a1" using a1 by (rule set_marker_keeps)
  also have "keeps a1 a2" using a2 by (rule mark_panes_keeps)
  also have "keeps a2 b" using b sendAck_keeps by (cases fin) auto
  finally show ?thesis .
qed

lemma handleReconnectPane_keeps [inv_intro]:
  assumes "handleReconnectPane E p m raw a = Some b" and "has_cdc a p"
  shows "keeps a b"
proof -
  have "b = a \<or> (\<exists>d i. b = a\<lparr>on_open := (on_open a)(d \<mapsto> OpenReconnect p m i)\<rparr>)"
    using assms(1) by (auto simp: handleReconnectPane_def bind_Some_iff split: option.splits)
  moreover have "keeps a (a\<lparr>on_open := (on_open a)(d \<mapsto> OpenReconnect p m i)\<rparr>)" for d i
    using set_on_open_inv [of a "OpenReconnect p m i" d] assms(2) by (simp add: keeps_def grows_same)
  ultimately show ?thesis by auto
qed

lemma handleAddPane_spends [inv_intro]:
  assumes add: "handleAddPane E p m raw a = Some b" and cdc: "has_cdc a p"
  shows "spends 1 0 a b"
proof (cases "dec_addPane raw")
  case None
  with add show ?thesis by (simp add: handleAddPane_def keeps_spends)
next
  case (Some args)
  with add obtain cmd a1 res where cmd: "add_pane_command E (ap_command args) = Some cmd" and
    new: "newPane p (Some (add_pane_size args)) (ap_parent args) a = Some (a1, res)"
    by (auto simp: handleAddPane_def bind_Some_iff)
  show ?thesis
  proof (cases res)
    case None
    with new have "a1 = a" by (auto elim: newPane_cases)
    with add Some cmd new None show ?thesis
      by (auto simp: handleAddPane_def keeps_spends)
  next
    case res: (Some r)
    let ?l = "channel_label m (pane_id a1 r)"
    from add Some cmd new res obtain dco where dco: "create_dc E p ?l a1 = Some dco"
      by (auto simp: handleAddPane_def bind_Some_iff Let_def)
    with add Some cmd new res have
      b: "case dco of None \<Rightarrow> sendNack E p m (''Failed to create data channel : '' @ ?l) a1 = Some b
        | Some d \<Rightarrow> b = a1\<lparr>on_open := (on_open a1)(d \<mapsto> OpenAddPane p m r cmd)\<rparr>"
      by (cases dco) (auto simp: handleAddPane_def Let_def)
    have ne: "cmd \<noteq> []" using cmd by (auto simp: add_pane_command_def split: list.splits if_splits)
    show ?thesis unfolding spends_def
    proof (intro impI)
      assume "agent_inv a \<and> 1 \<le> panes_left (Panes a) \<and> 0 \<le> clients_left (CDB a)"
      then have inv: "agent_inv a" and room: "0 < panes_left (Panes a)" by auto
      obtain pn where n: "agent_inv a1" "grows a a1" "CDB a1 = CDB a"
        "panes_left (Panes a1) = panes_left (Panes a) - 1" "pane_at a1 r = Some pn" "p_TTY pn = None"
        "not_awaited a1 r"
        using newPane_inv [OF inv has_cdc_peer [OF cdc] room] new res by metis
      have "agent_inv b \<and> grows a1 b \<and> panes_left (Panes b) = panes_left (Panes a1) \<and>
          clients_left (CDB b) = clients_left (CDB a1)"
      proof (cases dco)
        case None
        with b have "keeps a1 b" by (auto intro: sendNack_keeps)
        with n(1) show ?thesis by (simp add: keeps_def)
      next
        case (Some d)
        have ok: "open_ok a1 (OpenAddPane p m r cmd)"
          using n(2,5) ne cdc by (simp add: has_pane_def has_cdc_grows)
        have "agent_inv (a1\<lparr>on_open := (on_open a1)(d \<mapsto> OpenAddPane p m r cmd)\<rparr>)"
          using n(5-7) by (intro set_on_open_inv [OF n(1) ok]) simp
        with Some b show ?thesis by (simp add: grows_same)
      qed
      with n room show "agent_inv b \<and> grows a b \<and> panes_left (Panes a) \<le> panes_left (Panes b) + 1 \<and>
          clients_left (CDB a) \<le> clients_left (CDB b) + 0"
        by (auto intro: grows_emp_trans)
    qed
  qed
qed

lemma dispatch_spends [inv_intro]:
  assumes "dispatch E p m raw a = Some b" and "has_cdc a p"
  shows "spends 1 0 a b"
  using assms
  by (auto simp: dispatch_def simp del: One_nat_def split: if_splits
      intro: keeps_spends handleResize_keeps handleRestore_keeps handleGetPayload_keeps
        handleSetPayload_keeps handleMark_keeps handleReconnectPane_keeps handleAddPane_spends
        sendNack_keeps)

lemma handleCTRLMsg_spends [inv_intro]:
  assumes "handleCTRLMsg E p msg a = Some b" and "has_cdc a p"
  shows "spends 1 0 a b"
  using assms
  by (auto simp: handleCTRLMsg_def simp del: One_nat_def split: if_splits option.splits
      intro: keeps_spends dispatch_spends handleAck_keeps handleNack_keeps)

lemma message_arrives_spends [inv_intro]:
  assumes "message_arrives E d b msg a = Some a'"
  shows "spends 1 0 a a'"
proof -
  have "spends 1 0 a a'" if inv: "agent_inv a"
  proof (cases "on_msg a d")
    case None
    with assms show ?thesis by (simp add: message_arrives_def keeps_spends)
  next
    case (Some x)
    with agent_invD(4) [OF inv] have ok: "msg_ok a x" by (simp add: callbacks_ok_def)
    show ?thesis
    proof (cases x)
      case (ToPane p r)
      have "keeps a (setLastPeer E p a)" using ok ToPane by (intro setLastPeer_keeps) simp
      also have "keeps \<dots> a'"
        using assms Some ToPane by (auto simp: message_arrives_def intro: pane_onMessage_keeps)
      finally show ?thesis by (rule keeps_spends)
    next
      case (ToControl p)
      with assms Some ok show ?thesis by (auto simp: message_arrives_def simp del: One_nat_def intro: handleCTRLMsg_spends)
    qed
  qed
  then show ?thesis by (simp add: spends_def)
qed

lemma channel_closes_keeps [inv_intro]: "keeps a (channel_closes E d a)"
  by (auto simp: channel_closes_def drop_client_keeps split: option.splits)

subsection \<open>Opening a channel\<close>

text \<open>Here a pane may start. \<open>after\<close> is what remains true then.\<close>

definition after :: "nat \<Rightarrow> nat \<Rightarrow> agent \<Rightarrow> agent \<Rightarrow> bool" where
  "after np nc a b \<longleftrightarrow> agent_inv b \<and> grows_but UNIV a b \<and>
     panes_left (Panes a) \<le> panes_left (Panes b) + np \<and>
     clients_left (CDB a) \<le> clients_left (CDB b) + nc"

lemma spends_after:
  assumes "spends np nc a b" and "agent_inv a" and "np \<le> panes_left (Panes a)"
    and "nc \<le> clients_left (CDB a)"
  shows "after np nc a b"
  using assms grows_mono [of "{}" a b UNIV] by (simp add: spends_def after_def)

lemma clear_on_open_inv:
  assumes inv: "agent_inv a"
  shows "agent_inv (a\<lparr>on_open := (on_open a)(d := None)\<rparr>)" (is "agent_inv ?b")
proof -
  have g: "grows a ?b" by (simp add: grows_same)
  have "callbacks_ok ?b"
    using agent_invD(4) [OF inv]
    by (auto simp: callbacks_ok_def intro: open_ok_grows [OF g] msg_ok_grows [OF g] timer_ok_grows [OF g])
  moreover have "waiting_ok ?b"
    using agent_invD(5) [OF inv] unfolding waiting_ok_def by auto
  ultimately show ?thesis
    using agent_invD [OF inv]
    by (auto simp: agent_inv_def panes_ok_def pane_ok_def history_ok_def has_peer_def peers_ok_def
        clients_ok_def client_ok_def has_pane_def)
qed

lemma opened_add_pane_after:
  assumes inv: "agent_inv a" and ok: "open_ok a (OpenAddPane p m r cmd)" and aw: "not_awaited a r"
    and new: "\<And>pn. pane_at a r = Some pn \<Longrightarrow> p_TTY pn = None" and room: "0 < clients_left (CDB a)"
    and opened: "opened_add_pane E p m r cmd d a = Some b"
  shows "after 0 1 a b"
proof -
  define a1 where "a1 = (case e_welcome E of None \<Rightarrow> a | Some w \<Rightarrow> fst (dc_send E d w a))"
  from opened obtain a2 run_ok where a2: "pane_run E r cmd a1 = Some (a2, run_ok)"
    by (auto simp: opened_add_pane_def a1_def bind_Some_iff Let_def)
  obtain a3 c where a3: "add_client d r p a2 = (a3, c)" by fastforce
  from opened a2 a3 obtain a4 where a4: "sendAck E p m (show_int (pane_id a3 r)) a3 = Some a4"
    and b: "b = a4\<lparr>on_msg := (on_msg a4)(d \<mapsto> ToPane p r), on_close := (on_close a4)(d \<mapsto> c)\<rparr>"
    by (auto simp: opened_add_pane_def a1_def bind_Some_iff Let_def)
  have k1: "keeps a a1" by (auto simp: a1_def dc_send_keeps split: option.splits)
  have same: "pane_at a1 = pane_at a" "on_open a1 = on_open a"
    by (auto simp: a1_def split: option.splits)
  obtain pn where pn: "pane_at a1 r = Some pn" "p_TTY pn = None"
    using ok new same by (auto simp: has_pane_def)
  note i1 = keepsD [OF k1 inv]
  have aw1: "not_awaited a1 r" using aw same by (simp add: not_awaited_def)
  note run = pane_run_inv [OF i1(1) pn aw1 a2]
  have g2: "grows_but UNIV a a2"
    using grows_emp_trans [OF i1(2) run(2)] by (rule grows_mono) simp
  have refs: "has_peer a2 p" "has_pane a2 r"
    using ok g2 by (auto intro: has_grows has_cdc_peer)
  have left2: "clients_left (CDB a2) = clients_left (CDB a)" "panes_left (Panes a2) = panes_left (Panes a)"
    using i1 run by simp_all
  obtain db where add: "clients_add d r p (CDB a2) = (db, c)" and a3': "a3 = a2\<lparr>CDB := db\<rparr>"
    using a3 by (auto simp: add_client_def split: prod.splits)
  have att: "attach d p r a2 = a3\<lparr>on_msg := (on_msg a3)(d \<mapsto> ToPane p r), on_close := (on_close a3)(d \<mapsto> c)\<rparr>"
    by (simp add: attach_def a3)
  note at = attach_inv [OF run(1) refs, of d]
  have at: "agent_inv (attach d p r a2)" "grows a2 (attach d p r a2)"
    "clients_left (CDB (attach d p r a2)) = clients_left (CDB a2) - 1"
    using at left2 room by simp_all
  have i3: "agent_inv a3"
  proof -
    have "callbacks_ok a3"
      by (rule callbacks_ok_grows [OF agent_invD(4) [OF run(1)]]) (simp_all add: a3' grows_same)
    moreover have "clients_ok a3" using at(1) unfolding agent_inv_def att clients_ok_def client_ok_def
      by (simp add: has_pane_def has_peer_def)
    ultimately show ?thesis using agent_invD [OF run(1)]
      by (auto simp: agent_inv_def a3' panes_ok_def pane_ok_def history_ok_def has_peer_def peers_ok_def
          waiting_ok_def)
  qed
  note i4 = keepsD [OF sendAck_keeps [OF a4] i3]
  have g3: "grows a2 a3" by (simp add: a3' grows_same)
  have g4: "grows_but UNIV a a4"
    by (rule grows_trans_emp [OF g2 grows_emp_trans [OF g3 i4(2)]])
  have hp4: "has_peer a4 p" "has_pane a4 r"
    using ok g4 by (auto intro: has_grows has_cdc_peer)
  have k: "keeps (a4\<lparr>on_msg := (on_msg a4)(d \<mapsto> ToPane p r)\<rparr>) b"
    unfolding b by (rule on_close_keeps)
  have k4: "keeps a4 b"
    by (rule keeps_trans [OF set_on_msg_keeps k]) (use hp4 in simp)
  note i5 = keepsD [OF k4 i4(1)]
  have "grows_but UNIV a b" using g4 i5(2) by (rule grows_trans_emp)
  with i5 i4 left2 at(3) room show ?thesis
    by (simp add: after_def a3' att)
qed

lemma opened_reconnect_spends [inv_intro]:
  assumes "opened_reconnect E p m i d a = Some b" and "has_peer a p"
  shows "spends 0 1 a b"
proof -
  from assms(1) obtain a1 res where a1: "reconnect E p d i a = Some (a1, res)"
    by (auto simp: opened_reconnect_def bind_Some_iff)
  with assms(1) have b: "case res of Inl _ \<Rightarrow> sendNack E p m (''Failed to reconnect to: '' @ show_int i) a1 = Some b
      | Inr r \<Rightarrow> sendAck E p m (show_int (pane_id a1 r)) a1 = Some b"
    by (cases res) (auto simp: opened_reconnect_def)
  have "keeps a1 b" using b by (auto split: sum.splits intro: sendNack_keeps sendAck_keeps)
  with reconnect_spends(1) [OF a1 assms(2)] show ?thesis by (rule spends_keeps)
qed

lemma channel_opens_after [inv_intro]:
  assumes opens: "channel_opens E d a = Some b" and inv: "agent_inv a"
    and room: "1 \<le> panes_left (Panes a)" "2 \<le> clients_left (CDB a)"
  shows "after 1 2 a b"
proof (cases "on_open a d")
  case None
  with opens inv show ?thesis by (simp add: channel_opens_def after_def)
next
  case (Some x)
  let ?a1 = "a\<lparr>on_open := (on_open a)(d := None)\<rparr>"
  have inv1: "agent_inv ?a1" using inv by (rule clear_on_open_inv)
  have g1: "grows_but X a ?a1" for X by (simp add: grows_same)
  have ok: "open_ok ?a1 x"
    using agent_invD(4) [OF inv] Some open_ok_grows [OF g1 [of "{}"]] by (auto simp: callbacks_ok_def)
  have "after 1 2 ?a1 b"
  proof (cases x)
    case (OpenLabelled p)
    with opens Some ok have "spends 1 2 ?a1 b"
      by (auto simp: channel_opens_def simp del: One_nat_def intro: opened_labelled_spends)
    with inv1 room show ?thesis by (intro spends_after) simp_all
  next
    case (OpenReconnect p m i)
    with opens Some ok have "spends 0 1 ?a1 b"
      by (auto simp: channel_opens_def simp del: One_nat_def intro: opened_reconnect_spends has_cdc_peer)
    then have "spends 1 2 ?a1 b" by (rule spends_mono) simp_all
    with inv1 room show ?thesis by (intro spends_after) simp_all
  next
    case (OpenAddPane p m r cmd)
    have "after 0 1 ?a1 b"
    proof (rule opened_add_pane_after [OF inv1])
      show "open_ok ?a1 (OpenAddPane p m r cmd)" using ok OpenAddPane by simp
      show "not_awaited ?a1 r"
        using agent_invD(5) [OF inv] Some OpenAddPane unfolding not_awaited_def waiting_ok_def
        by (simp add: fun_upd_def) blast
      show "\<And>pn. pane_at ?a1 r = Some pn \<Longrightarrow> p_TTY pn = None"
        using agent_invD(5) [OF inv] Some OpenAddPane unfolding waiting_ok_def
        by simp blast
    qed (use opens Some OpenAddPane room in \<open>auto simp: channel_opens_def\<close>)
    then show ?thesis by (simp add: after_def)
  qed
  then show ?thesis
    using grows_trans [OF g1 [of UNIV], of UNIV b] by (simp add: after_def)
qed

subsection \<open>Where they panic\<close>

lemma sendControlMessage_total:
  assumes "has_cdc a p"
  shows "\<exists>b ok. sendControlMessage E p typ args a = Some (b, ok)"
proof -
  obtain pr d where "peer_at a p = Some pr" "pr_cdc pr = Some d"
    using assms by (auto simp: has_cdc_def)
  then show ?thesis
    by (simp add: sendControlMessage_def newCTRLMessage_def sendMessage_def Let_def)
qed

lemma sendAck_total: "has_cdc a p \<Longrightarrow> \<exists>b. sendAck E p m body a = Some b"
  using sendControlMessage_total by (force simp: sendAck_def)

lemma sendNack_total: "has_cdc a p \<Longrightarrow> \<exists>b. sendNack E p m desc a = Some b"
  using sendControlMessage_total by (force simp: sendNack_def)

lemma broadcast_total:
  assumes inv: "agent_inv a" and env: "env_ok E"
  shows "\<exists>b. broadcast E p typ args a = Some b \<and> agent_inv b \<and> grows a b"
proof -
  have "finite (dom (Peers a))" using inv by (simp add: agent_inv_def peers_ok_def)
  with env have "range_order (Peers a) (e_peers E (Peers a))"
    by (simp add: env_ok_def good_order_def)
  then have peers: "has_peer a q" if "q \<in> set (range_values (Peers a) (e_peers E (Peers a)))" for q
  proof -
    from that \<open>range_order _ _\<close> obtain fp where "Peers a fp = Some q"
      by (auto simp: set_range_values ran_def)
    with agent_invD(3) [OF inv] show ?thesis unfolding peers_ok_def has_peer_def by fastforce
  qed
  have one: "\<exists>t. broadcast_one E p typ args q s = Some t \<and> agent_inv t \<and> grows a t"
    if q: "q \<in> set (range_values (Peers a) (e_peers E (Peers a)))" and s: "agent_inv s \<and> grows a s" for q s
  proof -
    have "has_peer s q" using s peers [OF q] by (auto intro: has_grows)
    then obtain pr where pr: "peer_at s q = Some pr" by (auto simp: has_peer_def)
    have "\<exists>t. broadcast_one E p typ args q s = Some t"
    proof (cases "q \<noteq> p \<and> pr_cdc pr \<noteq> None")
      case True
      with pr have "has_cdc s q" by (auto simp: has_cdc_def)
      then obtain t ok where "sendControlMessage E q typ args s = Some (t, ok)"
        using sendControlMessage_total by blast
      with pr True show ?thesis by (simp add: broadcast_one_def)
    qed (use pr in \<open>auto simp: broadcast_one_def\<close>)
    moreover have "keeps s t" if "broadcast_one E p typ args q s = Some t" for t
      using that by (auto simp: broadcast_one_def bind_Some_iff split: if_splits intro: sendControlMessage_keeps)
    ultimately show ?thesis using s by (meson grows_emp_trans keepsD)
  qed
  show ?thesis
    unfolding broadcast_def
  proof (rule each_total [where P = "\<lambda>s. agent_inv s \<and> grows a s"])
    show "agent_inv a \<and> grows a a" using inv by simp
  qed (rule one)
qed

lemma mark_panes_total:
  assumes "\<forall>r \<in> set rs. has_pane a r"
  shows "\<exists>b fin. mark_panes n rs a = Some (b, fin)"
  using assms
proof (induction rs arbitrary: a)
  case (Cons r rs)
  then obtain pn where "pane_at a r = Some pn" by (auto simp: has_pane_def)
  with Cons show ?case by (auto simp: has_pane_def)
qed auto

lemma newBuffer_100000: "\<exists>buf. newBuffer 100000 = Some buf"
  using newBuffer_rel [of pane_buffer_size] by auto

lemma newPane_total:
  assumes "parent_pid parent a = Some pp"
  shows "\<exists>b res. newPane p ws parent a = Some (b, res)"
proof (cases pp)
  case (Some pid)
  obtain buf where "newBuffer 100000 = Some buf" using newBuffer_100000 by blast
  with assms Some show ?thesis by (simp add: newPane_def Let_def split: prod.split)
qed (use assms in \<open>simp add: newPane_def\<close>)

text \<open>The conditions, read off the code, under which a control message brings the agent down.\<close>

definition resize_panics :: "raw option \<Rightarrow> agent \<Rightarrow> bool" where
  "resize_panics raw a =
     (case dec_resize raw of
        None \<Rightarrow> False
      | Some args \<Rightarrow>
          (case Option.bind (panes_get (rz_pane args) (Panes a)) (pane_at a) of
             None \<Rightarrow> False
           | Some pn \<Rightarrow>
               (case p_TTY pn of
                  None \<Rightarrow> False
                | Some t \<Rightarrow>
                    (case p_Ws pn of
                       None \<Rightarrow> True
                     | Some ws \<Rightarrow> (ws_rows ws \<noteq> rz_sy args \<or> ws_cols ws \<noteq> rz_sx args) \<and>
                                 (\<forall>f. t \<noteq> TtyFile f)))))"

definition has_connection :: "agent \<Rightarrow> peer_ref \<Rightarrow> bool" where
  "has_connection a p \<longleftrightarrow> (\<exists>pr. peer_at a p = Some pr \<and> pr_PC pr)"

definition add_pane_panics :: "peer_ref \<Rightarrow> raw option \<Rightarrow> agent \<Rightarrow> bool" where
  "add_pane_panics p raw a =
     (case dec_addPane raw of
        None \<Rightarrow> False
      | Some args \<Rightarrow>
          ap_command args = [] \<or>
          (case parent_pid (ap_parent args) a of
             None \<Rightarrow> True
           | Some None \<Rightarrow> False
           | Some (Some _) \<Rightarrow> \<not> has_connection a p))"

definition control_panics :: "peer_ref \<Rightarrow> ctrlMessage \<Rightarrow> agent \<Rightarrow> bool" where
  "control_panics p m a \<longleftrightarrow>
     cm_type m = ''resize'' \<and> resize_panics (cm_raw m) a \<or>
     cm_type m = ''reconnect_pane'' \<and> dec_reconnect (cm_raw m) \<noteq> None \<and> \<not> has_connection a p \<or>
     cm_type m = ''add_pane'' \<and> add_pane_panics p (cm_raw m) a"

lemma handleResize_panics:
  assumes inv: "agent_inv a" and env: "env_ok E" and cdc: "has_cdc a p"
  shows "handleResize E p m raw a = None \<longleftrightarrow> resize_panics raw a"
proof (cases "dec_resize raw")
  case None
  then show ?thesis by (simp add: handleResize_def resize_panics_def)
next
  case args: (Some args)
  show ?thesis
  proof (cases "panes_get (rz_pane args) (Panes a)")
    case None
    with args show ?thesis by (simp add: handleResize_def resize_panics_def)
  next
    case r: (Some r)
    from inv r obtain pn where pn: "pane_at a r = Some pn" by (rule inv_table_pane)
    show ?thesis
    proof (cases "p_TTY pn")
      case None
      with args r pn sendNack_total [OF cdc] show ?thesis
        by (auto simp: handleResize_def resize_panics_def)
    next
      case (Some t)
      let ?ws = "\<lparr>ws_rows = rz_sy args, ws_cols = rz_sx args, ws_x = 0, ws_y = 0\<rparr>"
      have eq: "handleResize E p m raw a = Option.bind (pane_resize r ?ws a) (\<lambda>a1.
          Option.bind (broadcast E p ''resize'' (ResizeArgs args) a1) (sendAck E p m []))"
        using args r pn Some by (simp add: handleResize_def)
      have "resize_panics raw a \<longleftrightarrow> pane_resize r ?ws a = None"
        using args r pn Some
        by (auto simp: resize_panics_def pane_resize_def split: option.splits tty.splits)
      moreover have "\<exists>b. handleResize E p m raw a = Some b" if a1: "pane_resize r ?ws a = Some a1" for a1
      proof -
        note k1 = keepsD [OF pane_resize_keeps [OF a1] inv]
        obtain a2 where a2: "broadcast E p ''resize'' (ResizeArgs args) a1 = Some a2" "grows a1 a2"
          using broadcast_total [OF k1(1) env] by blast
        have "has_cdc a2 p" using cdc k1(2) a2(2) by (meson has_cdc_grows)
        with sendAck_total [of a2] a1 a2 show ?thesis by (simp add: eq)
      qed
      ultimately show ?thesis by (cases "pane_resize r ?ws a") (auto simp: eq)
    qed
  qed
qed

lemma set_marker_total: "has_peer a p \<Longrightarrow> \<exists>b. set_marker p n a = Some b"
  by (auto simp: set_marker_def has_peer_def)

lemma handleRestore_total:
  assumes "agent_inv a" and "has_cdc a p"
  shows "\<exists>b. handleRestore E p m raw a = Some b"
proof (cases "dec_restore raw")
  case (Some n)
  obtain a1 where a1: "set_marker p n a = Some a1"
    using set_marker_total has_cdc_peer [OF assms(2)] by blast
  have "has_cdc a1 p" using keepsD(2) [OF set_marker_keeps [OF a1] assms(1)] assms(2) by (rule has_cdc_grows)
  with sendAck_total [of a1 p E m] a1 Some show ?thesis by (simp add: handleRestore_def)
qed (simp add: handleRestore_def)

lemma handleSetPayload_total:
  assumes "agent_inv a" and "env_ok E" and "has_cdc a p"
  shows "\<exists>b. handleSetPayload E p m raw a = Some b"
proof (cases "dec_payload raw")
  case (Some x)
  have inv1: "agent_inv (a\<lparr>Payload := x\<rparr>)" using keepsD(1) [OF Payload_keeps assms(1)] .
  obtain a2 where a2: "broadcast E p ''set_payload'' (SetPayloadArgs x) (a\<lparr>Payload := x\<rparr>) = Some a2"
    "grows (a\<lparr>Payload := x\<rparr>) a2"
    using broadcast_total [OF inv1 assms(2)] by blast
  have "has_cdc (a\<lparr>Payload := x\<rparr>) p" using assms(3) by (simp add: has_cdc_def)
  with a2(2) have "has_cdc a2 p" by (rule has_cdc_grows)
  with sendAck_total [of a2 p E m] a2 Some show ?thesis by (simp add: handleSetPayload_def Let_def)
qed (simp add: handleSetPayload_def)

lemma panes_all_has_pane:
  assumes inv: "agent_inv a" and env: "env_ok E"
  shows "\<forall>r \<in> set (panes_all (e_panes E (panes (Panes a))) (Panes a)). has_pane a r"
proof -
  have "finite (dom (panes (Panes a)))"
  proof (rule finite_subset)
    show "dom (panes (Panes a)) \<subseteq> {1..nextID (Panes a)}"
      using inv by (auto simp: agent_inv_def panes_ok_def panes_inv_def)
  qed simp
  with env have "range_order (panes (Panes a)) (e_panes E (panes (Panes a)))"
    by (simp add: env_ok_def good_order_def)
  then show ?thesis
    using agent_invD(1) [OF inv]
    by (fastforce simp: panes_all_def set_range_values ran_def panes_ok_def has_pane_def)
qed

lemma handleMark_total:
  assumes inv: "agent_inv a" and env: "env_ok E" and cdc: "has_cdc a p"
  shows "\<exists>b. handleMark E p m a = Some b"
proof -
  let ?n = "go_inc (lastMarker a)" and ?a0 = "a\<lparr>lastMarker := go_inc (lastMarker a)\<rparr>"
  have i0: "agent_inv ?a0" using keepsD(1) [OF lastMarker_keeps inv] .
  have c0: "has_cdc ?a0 p" using cdc by (simp add: has_cdc_def)
  obtain a1 where a1: "set_marker p ?n ?a0 = Some a1"
    using set_marker_total has_cdc_peer [OF c0] by blast
  note k1 = keepsD [OF set_marker_keeps [OF a1] i0]
  obtain a2 fin where a2: "mark_panes ?n (panes_all (e_panes E (panes (Panes a1))) (Panes a1)) a1 = Some (a2, fin)"
    using mark_panes_total panes_all_has_pane [OF k1(1) env] by blast
  have "has_cdc a2 p"
    using has_cdc_grows [OF keepsD(2) [OF mark_panes_keeps [OF a2] k1(1)]] has_cdc_grows [OF k1(2) c0] .
  with sendAck_total [of a2 p E m] a1 a2 show ?thesis by (simp add: handleMark_def Let_def)
qed

lemma create_dc_None: "has_peer a p \<Longrightarrow> create_dc E p l a = None \<longleftrightarrow> \<not> has_connection a p"
  by (auto simp: create_dc_def has_connection_def has_peer_def)

lemma handleAddPane_panics:
  assumes inv: "agent_inv a" and cdc: "has_cdc a p" and room: "0 < panes_left (Panes a)"
  shows "handleAddPane E p m raw a = None \<longleftrightarrow> add_pane_panics p raw a"
proof (cases "dec_addPane raw")
  case None
  then show ?thesis by (simp add: handleAddPane_def add_pane_panics_def)
next
  case args: (Some args)
  show ?thesis
  proof (cases "add_pane_command E (ap_command args)")
    case None
    then have "ap_command args = []" by (simp add: add_pane_command_def split: list.splits)
    with None args show ?thesis by (simp add: handleAddPane_def add_pane_panics_def)
  next
    case cmd: (Some cmd)
    then have ne: "ap_command args \<noteq> []" by (auto simp: add_pane_command_def)
    show ?thesis
    proof (cases "newPane p (Some (add_pane_size args)) (ap_parent args) a")
      case None
      then have "parent_pid (ap_parent args) a = None"
        using newPane_total [of "ap_parent args" a _ p "Some (add_pane_size args)"] by force
      with None args cmd ne show ?thesis by (simp add: handleAddPane_def add_pane_panics_def)
    next
      case (Some x)
      then obtain a1 res where new: "newPane p (Some (add_pane_size args)) (ap_parent args) a = Some (a1, res)"
        by (cases x) auto
      obtain pp where pp: "parent_pid (ap_parent args) a = Some pp"
        using new by (auto simp: newPane_def bind_Some_iff)
      show ?thesis
      proof (cases res)
        case None
        then have "pp = None" using new pp newBuffer_100000
          by (auto simp: newPane_def Let_def split: option.splits prod.splits)
        with None args cmd ne new pp show ?thesis by (simp add: handleAddPane_def add_pane_panics_def)
      next
        case r: (Some r)
        then obtain pid where pid: "pp = Some pid" using new pp by (cases pp) (auto simp: newPane_def)
        have n: "agent_inv a1" "grows a a1"
          using newPane_inv [OF inv has_cdc_peer [OF cdc] room] new r by blast+
        have same: "peer_at a1 = peer_at a"
          using new r by (auto elim: newPane_cases)
        let ?l = "channel_label m (pane_id a1 r)"
        have c1: "has_cdc a1 p" using n(2) cdc by (rule has_cdc_grows)
        have "handleAddPane E p m raw a = None \<longleftrightarrow> create_dc E p ?l a1 = None"
          using args cmd new r sendNack_total [OF c1]
          by (auto simp: handleAddPane_def Let_def bind_Some_iff split: option.splits bind_splits)
        also have "\<dots> \<longleftrightarrow> \<not> has_connection a p"
          using create_dc_None [of a1 p E ?l] has_cdc_peer [OF c1] same by (simp add: has_connection_def)
        finally show ?thesis using args ne pp pid by (simp add: add_pane_panics_def)
      qed
    qed
  qed
qed

lemma dispatch_panics:
  assumes "agent_inv a" and "env_ok E" and "has_cdc a p" and "0 < panes_left (Panes a)"
  shows "dispatch E p m (cm_raw m) a = None \<longleftrightarrow> control_panics p m a"
proof -
  have rec: "handleReconnectPane E p m raw a = None \<longleftrightarrow>
      dec_reconnect raw \<noteq> None \<and> \<not> has_connection a p" for raw
  proof (cases "dec_reconnect raw")
    case (Some i)
    with create_dc_None [OF has_cdc_peer [OF assms(3)], of E "channel_label m i"] show ?thesis
      by (cases "create_dc E p (channel_label m i) a") (auto simp: handleReconnectPane_def)
  qed (simp add: handleReconnectPane_def)
  show ?thesis
    using handleResize_panics [OF assms(1-3)] handleAddPane_panics [OF assms(1,3,4)] rec
      handleRestore_total [OF assms(1,3), of E m "cm_raw m"]
      handleSetPayload_total [OF assms(1-3), of m "cm_raw m"]
      handleMark_total [OF assms(1-3), of m] sendAck_total [OF assms(3), of E m "Payload a"]
      sendNack_total [OF assms(3), of E m]
    by (auto simp: dispatch_def control_panics_def handleGetPayload_def)
qed

lemma handleCTRLMsg_panics:
  assumes "agent_inv a" and "env_ok E" and "has_cdc a p" and "0 < panes_left (Panes a)"
  shows "handleCTRLMsg E p msg a = None \<longleftrightarrow> (\<exists>m. dec_ctrl msg = Some m \<and> control_panics p m a)"
proof (cases "dec_ctrl msg")
  case None
  then show ?thesis by (simp add: handleCTRLMsg_def)
next
  case (Some m)
  have ans: "\<exists>r. answer p n b a = Some r" for n b
    using has_cdc_peer [OF assms(3)] by (auto simp: answer_def has_peer_def)
  have "handleAck p raw a \<noteq> None" "handleNack p m raw a \<noteq> None" for raw
    using ans by (force simp: handleAck_def handleNack_def split: option.splits)+
  with Some dispatch_panics [OF assms] show ?thesis
    by (auto simp: handleCTRLMsg_def control_panics_def)
qed

end
