(* ===== verification/Agent_Steps.thy ===== *)
theory Agent_Steps
  imports Handlers
begin

section \<open>The runs of an agent\<close>

text \<open>
  The agent as a step relation: each callback of the WebRTC library, each turn of a sender, each
  timer and each call of a server is one step, in any order and with any answers of the
  environment. A step in which the program panics has no successor; \<open>crashes\<close> tells when the two
  steps a client can cause do. The two counters are assumed to have room: fewer than \<open>2 ^ 63\<close>
  panes and clients so far.
\<close>

definition room :: "agent \<Rightarrow> bool" where
  "room a \<longleftrightarrow> 1 \<le> panes_left (Panes a) \<and> 2 \<le> clients_left (CDB a)"

inductive callback_step :: "agent \<Rightarrow> agent \<Rightarrow> bool" where
  state_change: "stateChange E p st a = Some b \<Longrightarrow> callback_step a b"
| channel_request: "has_peer a p \<Longrightarrow> callback_step a (onChannelReq E p d a)"
| open_channel: "room a \<Longrightarrow> channel_opens E d a = Some b \<Longrightarrow> callback_step a b"
| message: "room a \<Longrightarrow> message_arrives E d bs msg a = Some b \<Longrightarrow> callback_step a b"
| close_channel: "callback_step a (channel_closes E d a)"
| timer_fires: "timers a = ts @ t # us \<Longrightarrow> fire E t (a\<lparr>timers := ts @ us\<rparr>) = Some b \<Longrightarrow> callback_step a b"

text \<open>The calls of the servers come on top.\<close>

inductive outer_step :: "agent \<Rightarrow> agent \<Rightarrow> bool" where
  callback: "callback_step a b \<Longrightarrow> outer_step a b"
| connect: "newPeer E fp a = (b, res) \<Longrightarrow> outer_step a b"
| candidate: "addCandidate E p c a = Some (b, res) \<Longrightarrow> outer_step a b"
| hang_up: "peer_close p a = Some b \<Longrightarrow> outer_step a b"
| ask: "wait_start E p typ args a = Some (b, res) \<Longrightarrow> outer_step a b"
| stop_waiting: "wait_end p n timedout a = Some (b, res) \<Longrightarrow> outer_step a b"
| set_layout: "outer_step a (a\<lparr>Payload := bs\<rparr>)"

text \<open>The read loops and senders of the panes are the agent's own goroutines. A sender that waits for
  the buffer's mutex takes no further chunk.\<close>

inductive agent_step :: "agent \<Rightarrow> agent \<Rightarrow> bool" where
  outer: "outer_step a b \<Longrightarrow> agent_step a b"
| chunk_sent: "pane_at a r = Some pn \<Longrightarrow> p_blocked pn < p_readers pn \<Longrightarrow>
    sender_turn E r m a = Some b \<Longrightarrow> agent_step a b"
| end_of_output: "pane_at a r = Some pn \<Longrightarrow> 0 < p_readers pn \<Longrightarrow>
    reader_end E r a = Some b \<Longrightarrow> agent_step a b"

lemmas outer_step_channel_request = outer_step.callback [OF callback_step.channel_request]
lemmas outer_step_open_channel = outer_step.callback [OF callback_step.open_channel]
lemmas outer_step_message = outer_step.callback [OF callback_step.message]
lemmas outer_step_close_channel = outer_step.callback [OF callback_step.close_channel]

lemmas agent_step_connect = agent_step.outer [OF outer_step.connect]
lemmas agent_step_candidate = agent_step.outer [OF outer_step.candidate]
lemmas agent_step_hang_up = agent_step.outer [OF outer_step.hang_up]
lemmas agent_step_channel_request = agent_step.outer [OF outer_step_channel_request]
lemmas agent_step_open_channel = agent_step.outer [OF outer_step_open_channel]
lemmas agent_step_message = agent_step.outer [OF outer_step_message]
lemmas agent_step_close_channel = agent_step.outer [OF outer_step_close_channel]

inductive agent_reachable :: "agent \<Rightarrow> bool" where
  boot: "agent_reachable initial_agent"
| step: "agent_reachable a \<Longrightarrow> agent_step a b \<Longrightarrow> agent_reachable b"

lemma outer_run_reachable: "outer_step\<^sup>*\<^sup>* a b \<Longrightarrow> agent_reachable a \<Longrightarrow> agent_reachable b"
  by (induction rule: rtranclp_induct) (auto intro: agent_reachable.step agent_step.outer)

inductive_cases agent_stepE: "agent_step a b"

subsection \<open>The invariant holds\<close>

lemma drop_timers_keeps:
  assumes "set us \<subseteq> set (timers a)"
  shows "keeps a (a\<lparr>timers := us\<rparr>)"
proof (rule simple_update_keeps)
  let ?b = "a\<lparr>timers := us\<rparr>"
  have g: "grows a ?b" by (simp add: grows_same)
  show "callbacks_ok ?b" if inv: "agent_inv a"
    using agent_invD(4) [OF inv] assms
    by (auto simp: callbacks_ok_def intro: open_ok_grows [OF g] msg_ok_grows [OF g] timer_ok_grows [OF g])
qed (auto simp: panes_ok_def pane_ok_def history_ok_def has_peer_def peers_ok_def
      waiting_ok_def clients_ok_def client_ok_def has_pane_def)

lemma grows_UNIV: "grows_but X a b \<Longrightarrow> grows_but UNIV a b"
  by (erule grows_mono) simp

lemma keeps_step: "keeps a b \<Longrightarrow> agent_inv a \<Longrightarrow> agent_inv b \<and> grows_but UNIV a b"
  by (meson grows_UNIV keepsD)

lemma callback_step_inv: "callback_step a b \<Longrightarrow> agent_inv a \<Longrightarrow> agent_inv b \<and> grows_but UNIV a b"
proof (induction rule: callback_step.induct)
  case (open_channel a E d b)
  with channel_opens_after [of E d a b] show ?case by (simp add: room_def after_def)
next
  case (message a E d bs msg b)
  have "spends 1 0 a b" using message(2) by (rule message_arrives_spends)
  with message grows_UNIV show ?case by (auto simp: spends_def room_def)
next
  case (timer_fires a ts t us E b)
  have "keeps a (a\<lparr>timers := ts @ us\<rparr>)" using timer_fires(1) by (intro drop_timers_keeps) auto
  also have "keeps \<dots> b" using timer_fires(2) by (rule fire_keeps)
  finally show ?case using timer_fires(3) by (rule keeps_step)
qed (rule keeps_step, blast intro: stateChange_keeps onChannelReq_keeps channel_closes_keeps, assumption)+

lemma outer_step_inv: "outer_step a b \<Longrightarrow> agent_inv a \<Longrightarrow> agent_inv b \<and> grows_but UNIV a b"
proof (induction rule: outer_step.induct)
  case (callback a b)
  then show ?case by (rule callback_step_inv)
next
  case (connect E fp a b res)
  with newPeer_inv grows_UNIV show ?case by metis
qed (rule keeps_step, blast intro: addCandidate_keeps peer_close_keeps wait_start_keeps wait_end_keeps
      Payload_keeps, assumption)+

lemma agent_step_inv: "agent_step a b \<Longrightarrow> agent_inv a \<Longrightarrow> agent_inv b \<and> grows_but UNIV a b"
proof (induction rule: agent_step.induct)
  case (outer a b)
  then show ?case by (rule outer_step_inv)
qed (rule keeps_step, blast intro: sender_turn_keeps reader_end_keeps, assumption)+

lemma reachable_inv: "agent_reachable a \<Longrightarrow> agent_inv a"
  by (induction rule: agent_reachable.induct) (use initial_agent_inv agent_step_inv in blast)+

end
