(* ===== verification/Example_Run.thy ===== *)
theory Example_Run
  imports Agent_Steps "HOL-Library.Char_ord" "HOL-Library.List_Lexorder"
begin

section \<open>A run of the agent\<close>

text \<open>
  A concrete run, which the witnesses of the properties of runs use: a peer connects (its
  reference is 0), opens the control channel 0, and asks on channel 1 for a terminal running
  bash, which becomes pane 0 with id 1. The environment grants everything; maps are ranged over in
  the order of their keys.
\<close>

definition demo_env :: env where
  "demo_env =
     \<lparr>e_label = (\<lambda>d. if d = 0 then ''%'' else ''24x80,bash''), e_dcid = Some, e_open = (\<lambda>d. True),
      e_send_ok = (\<lambda>d. True), e_now = 5000000000,
      e_clients = (\<lambda>m. sorted_list_of_set (dom m)), e_panes = (\<lambda>m. sorted_list_of_set (dom m)),
      e_peers = (\<lambda>m. sorted_list_of_set (dom m)),
      e_run = None, e_env = None, e_env_keys = (\<lambda>m. []), e_process = (\<lambda>i. True),
      e_cwd = (\<lambda>i. Some ''/''), e_home = Some ''/home/u'', e_spawn = (\<lambda>x. Some (42, 7)),
      e_new_pc = True, e_create_dc = (\<lambda>p l. Some 2), e_ice_ok = True, e_shell = None,
      e_welcome = None, e_tty_write = (\<lambda>t b. (length b, None)),
      e_screen = (\<lambda>ops. \<lparr>sc_cols = 0, sc_rows = 0, sc_cell = (\<lambda>x y. \<lparr>g_char = 32, g_fg = 0, g_bg = 0\<rparr>),
        sc_cursor_x = 0, sc_cursor_y = 0\<rparr>),
      e_default_fg = 0x1000000, e_default_bg = 0x1000001\<rparr>"

lemma good_order_sorted: "good_order (\<lambda>m. sorted_list_of_set (dom m))"
  by (simp add: good_order_def range_order_def)

lemma demo_env_ok: "env_ok demo_env"
  by (simp add: env_ok_def demo_env_def good_order_sorted)

lemma demo_env_simps [simp]:
  "e_label demo_env 0 = ''%''" "e_label demo_env (Suc d) = ''24x80,bash''" "e_dcid demo_env d = Some d"
  "e_open demo_env d" "e_send_ok demo_env d" "e_now demo_env = 5000000000" "e_run demo_env = None"
  "e_env demo_env = None" "e_home demo_env = Some ''/home/u''" "e_spawn demo_env x = Some (42, 7)"
  "e_new_pc demo_env" "e_create_dc demo_env p l = Some 2"
  "e_clients demo_env m = sorted_list_of_set (dom m)" "e_panes demo_env m1 = sorted_list_of_set (dom m1)"
  "e_peers demo_env m2 = sorted_list_of_set (dom m2)" "e_welcome demo_env = None"
  "e_tty_write demo_env t b = (length b, None)" "e_shell demo_env = None"
  by (simp_all add: demo_env_def)

definition demo_peer :: peer where
  "demo_peer = \<lparr>pr_FP = ''AB'', pr_LastRef = 0, pr_PC = True, pr_cdc = Some 0, pr_Marker = - 1,
     pr_acks = Map.empty, pr_pending = [], pr_draining = False\<rparr>"

definition demo_size :: winsize where
  "demo_size = \<lparr>ws_rows = 24, ws_cols = 80, ws_x = 0, ws_y = 0\<rparr>"

definition demo_buf :: buffer where
  "demo_buf = the (newBuffer 100000)"

definition demo_pane :: pane where
  "demo_pane = \<lparr>p_ID = 1, p_parent = 0, p_C = Some 42, p_IsRunning = True, p_TTY = Some (TtyFile 7),
     p_Buffer = demo_buf, p_Ws = Some demo_size, p_vt = Some [VtNew 80 24],
     p_cancelled = False, p_peer = 0, p_readers = 2, p_stuck = False, p_blocked = 0\<rparr>"

definition demo_client :: client where
  "demo_client = \<lparr>c_dc = 1, c_pane = 0, c_peer = 0, c_id = 0\<rparr>"

text \<open>After the control channel was opened, and after the pane was.\<close>

definition demo_control :: agent where
  "demo_control =
     \<lparr>Peers = [''AB'' \<mapsto> 0], peer_at = [0 \<mapsto> demo_peer], next_peer = 1,
      Panes = newPanesDB, pane_at = Map.empty, next_pane = 0, CDB = newClientsDB,
      Payload = [], lastMarker = 0, mostRecent = None,
      on_open = Map.empty, on_msg = [0 \<mapsto> ToControl 0], on_close = Map.empty, timers = [], sent = []\<rparr>"

definition demo_running :: agent where
  "demo_running =
     \<lparr>Peers = [''AB'' \<mapsto> 0], peer_at = [0 \<mapsto> demo_peer], next_peer = 1,
      Panes = \<lparr>panes = [1 \<mapsto> 0], nextID = 1\<rparr>, pane_at = [0 \<mapsto> demo_pane], next_pane = 1,
      CDB = \<lparr>clients = [0 \<mapsto> demo_client], lastID = 1\<rparr>,
      Payload = [], lastMarker = 0, mostRecent = None,
      on_open = Map.empty, on_msg = [0 \<mapsto> ToControl 0, 1 \<mapsto> ToPane 0 0],
      on_close = [1 \<mapsto> demo_client], timers = [], sent = [Sent 1 ''1,24x80'']\<rparr>"

lemma demo_label: "parse_label ''24x80,bash'' = Some (Execute (Some demo_size) [''bash''])"
proof (rule parse_label_sized)
  have "show_winsize demo_size = ''24x80''"
    by (simp add: show_winsize_def show_uint16_def demo_size_def) code_simp
  then show "parseWinsize ''24x80'' = Some demo_size"
    using parse_show_winsize [of "[]" demo_size] by (simp add: demo_size_def)
qed (simp_all add: is_digit_def)

lemma demo_control_label: "parse_label ''%'' = Some ControlChannel"
  by (simp add: parse_label_def Let_def)

lemma demo_buffer: "newBuffer 100000 = Some demo_buf"
  using newBuffer_100000 by (auto simp: demo_buf_def)

lemma demo_first_message: "first_message 1 (Some demo_size) = ''1,24x80''"
  by code_simp

definition demo_connected :: agent where
  "demo_connected = initial_agent\<lparr>Peers := [''AB'' \<mapsto> 0], peer_at := [0 \<mapsto> demo_peer\<lparr>pr_cdc := None\<rparr>],
     next_peer := 1\<rparr>"

definition demo_requests :: agent where
  "demo_requests = onChannelReq demo_env 0 0 demo_connected"

lemma demo_connects:
  "newPeer demo_env ''AB'' initial_agent =
     (demo_connected, Some 0)"
  by (simp add: demo_connected_def newPeer_def initial_agent_def Let_def set_peer_def demo_peer_def)

lemma demo_opens_control: "channel_opens demo_env 0 demo_requests = Some demo_control"
  by (simp add: channel_opens_def demo_requests_def onChannelReq_def demo_connected_def initial_agent_def
      opened_labelled_def getOrCreatePane_def demo_control_label open_control_def Let_def
      demo_control_def demo_peer_def set_peer_def)

lemma demo_opens_pane:
  "channel_opens demo_env 1 (onChannelReq demo_env 0 1 demo_control) = Some demo_running"
  by (simp add: channel_opens_def onChannelReq_def demo_control_def opened_labelled_def
      getOrCreatePane_def demo_label execute_def newPane_def parent_pid_def demo_buffer Let_def
      panes_add_def newPanesDB_def set_pane_def fresh_pane_def sendFirstMessage_def dc_send_def emit_def
      demo_first_message [unfolded demo_size_def] pane_run_def run_command_def execCommand_def exec_dir_def exec_env_def
      start_reader_def attach_def add_client_def clients_add_def newClientsDB_def demo_running_def
      demo_pane_def demo_client_def max_int_def demo_size_def numeral_2_eq_2)

lemma demo_control_run: "outer_step\<^sup>*\<^sup>* initial_agent demo_control"
proof -
  have "outer_step\<^sup>*\<^sup>* initial_agent demo_connected"
    using outer_step.connect [OF demo_connects] by (rule r_into_rtranclp)
  also have "outer_step demo_connected demo_requests"
    unfolding demo_requests_def
    by (rule outer_step_channel_request) (simp add: demo_connected_def has_peer_def)
  also have "outer_step demo_requests demo_control"
  proof (rule outer_step_open_channel [OF _ demo_opens_control])
    show "room demo_requests"
      by (simp add: room_def demo_requests_def onChannelReq_def demo_connected_def initial_agent_def
          newPanesDB_def newClientsDB_def panes_left_def clients_left_def max_int_def Let_def)
  qed
  finally show ?thesis .
qed

lemma demo_running_run: "outer_step\<^sup>*\<^sup>* initial_agent demo_running"
proof -
  note demo_control_run
  also have "outer_step demo_control (onChannelReq demo_env 0 1 demo_control)"
    by (rule outer_step_channel_request) (simp add: has_peer_def demo_control_def)
  also have "outer_step (onChannelReq demo_env 0 1 demo_control) demo_running"
  proof (rule outer_step_open_channel [OF _ demo_opens_pane])
    show "room (onChannelReq demo_env 0 1 demo_control)"
      by (simp add: room_def onChannelReq_def demo_control_def
          newPanesDB_def newClientsDB_def panes_left_def clients_left_def max_int_def)
  qed
  finally show ?thesis .
qed

lemmas demo_control_reachable = outer_run_reachable [OF demo_control_run agent_reachable.boot]
lemmas demo_running_reachable = outer_run_reachable [OF demo_running_run agent_reachable.boot]

text \<open>In the example run, \<open>add_pane\<close> of a command that does not start, on channel 2.\<close>

definition demo_fail :: env where
  "demo_fail = demo_env\<lparr>e_spawn := (\<lambda>x. None)\<rparr>"

definition demo_add :: "raw option" where
  "demo_add = Some ([], JObj [(''type'', [], JStr ''add_pane''), (''message_id'', [], JNum ''3''),
     (''args'', [], JObj [(''command'', [], JArr [([], JStr ''nosuch'')])])])"

definition demo_add_message :: ctrlMessage where
  "demo_add_message = \<lparr>cm_time = 0, cm_ref = 3, cm_type = ''add_pane'',
     cm_raw = Some ([], JObj [(''command'', [], JArr [([], JStr ''nosuch'')])]), cm_bound = True\<rparr>"

definition demo_new_pane :: pane where
  "demo_new_pane = fresh_pane 0 (Some demo_size) 0 demo_buf 1"

definition demo_added :: agent where
  "demo_added = demo_control\<lparr>Panes := \<lparr>panes = [1 \<mapsto> 0], nextID = 1\<rparr>, pane_at := [0 \<mapsto> demo_new_pane],
     next_pane := 1, on_open := [2 \<mapsto> OpenAddPane 0 demo_add_message 0 [''nosuch'']]\<rparr>"

lemma demo_add_parsed: "dec_ctrl demo_add = Some demo_add_message"
  by code_simp

lemma demo_add_args: "dec_addPane (cm_raw demo_add_message) = Some \<lparr>ap_command = [''nosuch''],
    ap_rows = 0, ap_cols = 0, ap_x = 0, ap_y = 0, ap_parent = 0\<rparr>"
  by code_simp

lemma demo_adds: "message_arrives demo_fail 0 [] demo_add demo_control = Some demo_added"
proof -
  have "add_pane_command demo_fail [''nosuch''] = Some [''nosuch'']"
    by (simp add: add_pane_command_def)
  moreover have "e_create_dc demo_fail p l = Some 2" for p l by (simp add: demo_fail_def)
  ultimately have "handleAddPane demo_fail 0 demo_add_message (cm_raw demo_add_message) demo_control
      = Some demo_added"
    unfolding handleAddPane_def demo_add_args
    by (simp add: newPane_def parent_pid_def demo_buffer Let_def panes_add_def create_dc_def
        add_pane_size_def demo_size_def demo_added_def demo_new_pane_def demo_control_def demo_peer_def
        set_pane_def newPanesDB_def max_int_def)
  moreover have "on_msg demo_control 0 = Some (ToControl 0)" by (simp add: demo_control_def)
  moreover have "cm_type demo_add_message = ''add_pane''" by (simp add: demo_add_message_def)
  ultimately show ?thesis
    by (simp add: message_arrives_def handleCTRLMsg_def demo_add_parsed dispatch_def)
qed

lemma demo_added_run: "outer_step\<^sup>*\<^sup>* initial_agent demo_added"
proof -
  have "room demo_control"
    by (simp add: room_def demo_control_def newPanesDB_def newClientsDB_def panes_left_def
        clients_left_def max_int_def)
  then have "outer_step demo_control demo_added" using demo_adds by (rule outer_step_message)
  with demo_control_run show ?thesis by (rule rtranclp.rtrancl_into_rtrancl)
qed

lemmas demo_added_reachable = outer_run_reachable [OF demo_added_run agent_reachable.boot]

lemma demo_added_room: "room demo_added"
  by (simp add: room_def demo_added_def demo_control_def newClientsDB_def panes_left_def
      clients_left_def max_int_def)

end
