(* ===== verification/Agent_Hosts.thy ===== *)
theory Agent_Hosts
  imports Agent_Steps
begin

section \<open>Programs around an agent\<close>

text \<open>
  The agent lives inside larger states: that of the HTTP server, of the unix socket, of the
  peerbook client. Their steps do more than one step of the agent, or a part of one when a handler
  panics half way, so what the agent promises is not inherited by counting steps. \<open>agent_host\<close> is
  what such a state owes its agent: every step keeps the invariant and loses no pane and no peer.
  What follows from it is shown here once.
\<close>

definition carries :: "agent \<Rightarrow> agent \<Rightarrow> bool" where
  "carries a b \<longleftrightarrow> (agent_inv a \<longrightarrow> agent_inv b \<and> grows_but UNIV a b)"

lemma carries_refl [simp]: "carries a a"
  by (simp add: carries_def)

lemma carries_trans [trans]: "carries a b \<Longrightarrow> carries b c \<Longrightarrow> carries a c"
  using grows_trans [of UNIV a b UNIV c] by (simp add: carries_def)

lemma keeps_carries: "keeps a b \<Longrightarrow> carries a b"
  by (simp add: carries_def keeps_step)

lemma step_carries: "agent_step a b \<Longrightarrow> carries a b"
  by (simp add: carries_def agent_step_inv)

lemma newPeer_carries: "newPeer E fp a = (b, res) \<Longrightarrow> carries a b"
  by (rule step_carries) (rule agent_step_connect)

lemmas carries_intros = keeps_carries [OF peer_close_keeps] keeps_carries [OF addCandidate_keeps]
  newPeer_carries step_carries

locale agent_host =
  fixes agent_of :: "'s \<Rightarrow> agent" and step :: "'s \<Rightarrow> 's \<Rightarrow> bool"
  assumes step_carries_agent: "step s t \<Longrightarrow> carries (agent_of s) (agent_of t)"
begin

lemma run_inv:
  assumes "step\<^sup>*\<^sup>* s t" and "agent_inv (agent_of s)"
  shows "agent_inv (agent_of t) \<and> grows_but UNIV (agent_of s) (agent_of t)"
proof -
  from assms(1) have "carries (agent_of s) (agent_of t)"
    by (induction rule: rtranclp_induct) (auto intro: carries_trans step_carries_agent)
  with assms(2) show ?thesis by (simp add: carries_def)
qed

lemma peer_stays: "step\<^sup>*\<^sup>* s t \<Longrightarrow> agent_inv (agent_of s) \<Longrightarrow> has_peer (agent_of s) p \<Longrightarrow> has_peer (agent_of t) p"
  using run_inv has_peer_grows by blast

lemma pane_moves_on:
  assumes "step\<^sup>*\<^sup>* s t" and "agent_inv (agent_of s)" and "pane_at (agent_of s) r = Some pn"
  obtains pn' where "pane_at (agent_of t) r = Some pn'" and "p_ID pn' = p_ID pn"
    and "phase_of pn \<le> phase_of pn'"
  using growsD_pane [OF conjunct2 [OF run_inv [OF assms(1,2)]] assms(3)] unfolding pane_grows_def by metis

lemma dead_pane_refused:
  assumes "step\<^sup>*\<^sup>* s t" and "agent_inv (agent_of s)"
    and "pane_at (agent_of s) r = Some pn" and "phase_of pn = Dead"
  shows "reconnect E p d (p_ID pn) (agent_of t) =
    Some (emit (ClosedChannel d) (agent_of t), Inl PaneNotRunning)"
proof -
  obtain pn' where pn': "pane_at (agent_of t) r = Some pn'" "p_ID pn' = p_ID pn" "Dead \<le> phase_of pn'"
    using pane_moves_on [OF assms(1-3)] assms(4) by auto
  have "pane_ok (agent_of t) r pn'" using run_inv [OF assms(1,2)] pn'(1) inv_pane_ok by blast
  then have "panes_get (p_ID pn) (Panes (agent_of t)) = Some r"
    using pn'(2) by (simp add: pane_ok_def panes_get_def)
  moreover have "phase_of pn' = Dead" using pn'(3) by (simp add: antisym)
  then have "\<not> p_IsRunning pn'" by (auto simp: phase_of_def split: if_splits)
  ultimately show ?thesis using pn'(1) by (simp add: reconnect_def)
qed

end

text \<open>When several such states share one agent, each sees the agent change while it does nothing. A
  part keeps what it owns through its own steps and through those of the others: \<open>put b s\<close> is the
  state \<open>s\<close> that finds the agent \<open>b\<close> when its turn comes.\<close>

locale agent_part = agent_host agent_of step
  for agent_of :: "'s \<Rightarrow> agent" and step :: "'s \<Rightarrow> 's \<Rightarrow> bool" +
  fixes put :: "agent \<Rightarrow> 's \<Rightarrow> 's" and own :: "'s \<Rightarrow> bool"
  assumes agent_put: "agent_of (put b s) = b"
    and put_agent: "put (agent_of s) s = s"
    and put_put: "put c (put b s) = put c s"
    and own_step: "step s t \<Longrightarrow> agent_inv (agent_of s) \<Longrightarrow> own s \<Longrightarrow> own t"
    and own_put: "own s \<Longrightarrow> grows_but UNIV (agent_of s) b \<Longrightarrow> own (put b s)"
begin

lemma turn:
  assumes "step (put a s) t" and "agent_inv a" and "own (put a s)"
  shows "agent_inv (agent_of t)" and "grows_but UNIV a (agent_of t)" and "own (put (agent_of t) t)"
  using step_carries_agent [OF assms(1)] own_step [OF assms(1)] assms(2,3)
  by (simp_all add: agent_put put_agent carries_def)

lemma others_turn: "own (put a s) \<Longrightarrow> grows_but UNIV a b \<Longrightarrow> own (put b s)"
  using own_put [of "put a s" b] by (simp add: agent_put put_put)

end

text \<open>The agent by itself.\<close>

interpretation bare: agent_host "\<lambda>a. a" agent_step
  by unfold_locales (rule step_carries)

end
