(* ===== verification/Run_Properties.thy ===== *)
theory Run_Properties
  imports Example_Run Agent_Hosts
begin

section \<open>What holds in every run\<close>

text \<open>
  The invariant of \<open>Agent_Inv\<close> in every reachable state: the history of a pane is what it printed,
  output never panics, which control messages do, and how panes live.
\<close>

subsection \<open>Output is never lost and never panics\<close>

lemma sender_turn_total:
  assumes inv: "agent_inv a" and pn: "pane_at a r = Some pn"
  shows "\<exists>b. sender_turn E r m a = Some b"
proof -
  obtain ps where "buf_rel pane_buffer_size (p_Buffer pn) (blank pane_buffer_size @ printed r (sent a)) ps"
    using inv pn by (rule history_ok_rel)
  from add_rel [OF this, of m] obtain buf where "add m (p_Buffer pn) = Some buf" by blast
  with pn show ?thesis by (simp add: sender_turn_def Let_def)
qed

lemma pane_kill_total: "has_pane a r \<Longrightarrow> \<exists>b. pane_kill E r a = Some b"
  by (auto simp: pane_kill_def Let_def has_pane_def)

lemma reader_end_total:
  assumes "agent_inv a" and "pane_at a r = Some pn"
  shows "\<exists>b. reader_end E r a = Some b"
proof -
  have "panes_get (p_ID pn) (Panes a) = Some r"
    using inv_pane_ok [OF assms] by (simp add: pane_ok_def panes_get_def)
  then show ?thesis using pane_kill_total [of a r E] assms(2) by (simp add: reader_end_def has_pane_def)
qed

lemma fire_total:
  assumes inv: "agent_inv a" and ok: "timer_ok a t"
  shows "\<exists>b. fire E t a = Some b"
proof (cases t)
  case (SendDump d r)
  with ok show ?thesis by (auto simp: fire_def has_vt_def)
next
  case (SendSince d r n)
  with ok obtain pn where pn: "pane_at a r = Some pn" by (auto simp: has_pane_def)
  show ?thesis
  proof (cases "getSinceMarker n (p_Buffer pn)")
    case None
    with pn SendSince show ?thesis by (simp add: fire_def)
  next
    case (Some x)
    have "history_ok a r (p_Buffer pn)" using inv_pane_ok [OF inv pn] by (simp add: pane_ok_def)
    from this Some obtain bs buf where "x = Returns (bs, buf)" by (rule getSinceMarker_history)
    with Some pn SendSince show ?thesis by (simp add: fire_def)
  qed
qed

text \<open>C1. In every reachable state the ring of every pane stands for exactly what the pane has
  printed: the chunks its senders have handled, in order, after the zero bytes of the new buffer.\<close>

theorem pane_history:
  assumes "agent_reachable a" and "pane_at a r = Some pn"
  shows "\<exists>ps. buf_rel 100000 (p_Buffer pn) (blank 100000 @ printed r (sent a)) ps"
  using history_ok_rel [OF reachable_inv [OF assms(1)] assms(2)] by blast

theorem pane_history_witness:
  "\<exists>ps. buf_rel 100000 demo_buf (blank 100000) ps"
  using pane_history [OF demo_running_reachable, of 0 demo_pane]
  by (simp add: demo_running_def demo_pane_def printed_def)

text \<open>C16. Handling output never panics: in every reachable state, for every pane, a turn of its
  sender with any chunk, the end of its read loop, and every armed timer run through.\<close>

theorem output_never_panics:
  assumes "agent_reachable a" and "pane_at a r = Some pn"
  shows "sender_turn E r m a \<noteq> None \<and> reader_end E r a \<noteq> None \<and>
    (\<forall>t \<in> set (timers a). fire E t a \<noteq> None)"
proof (intro conjI)
  note inv = reachable_inv [OF assms(1)]
  show "sender_turn E r m a \<noteq> None" using sender_turn_total [OF inv assms(2)] by auto
  show "reader_end E r a \<noteq> None" using reader_end_total [OF inv assms(2)] by auto
  show "\<forall>t \<in> set (timers a). fire E t a \<noteq> None"
    using fire_total [OF inv] agent_invD(4) [OF inv] by (auto simp: callbacks_ok_def)
qed

theorem output_never_panics_witness:
  "sender_turn demo_env 0 ''hi'' demo_running \<noteq> None"
  using output_never_panics [OF demo_running_reachable, of 0 demo_pane]
  by (simp add: demo_running_def)

subsection \<open>The life of a pane\<close>

text \<open>C9. A pane keeps its identity and its life goes one way: whatever step the agent takes, a pane
  that was there is still there with the same id, and it never goes back from running to new or
  from dead to running.\<close>

theorem pane_life:
  assumes "agent_reachable a" and "agent_step a b" and "pane_at a r = Some pn"
  shows "\<exists>pn'. pane_at b r = Some pn' \<and> p_ID pn' = p_ID pn \<and> phase_of pn \<le> phase_of pn'"
  using agent_step_inv [OF assms(2) reachable_inv [OF assms(1)]] assms(3)
  by (auto simp: grows_but_def pane_grows_def) blast

theorem pane_life_witness:
  "\<exists>pn'. pane_at (channel_closes demo_env 1 demo_running) 0 = Some pn' \<and> p_ID pn' = 1 \<and>
     Running \<le> phase_of pn'"
  using pane_life [OF demo_running_reachable agent_step_close_channel, of 0 demo_pane]
  by (simp add: demo_running_def demo_pane_def phase_of_def)

text \<open>C21. Pane ids are unique: in every reachable state two panes with the same id are the same, and
  the table finds every pane under its id.\<close>

theorem pane_ids_unique:
  assumes "agent_reachable a" and "pane_at a r = Some pn" and "pane_at a q = Some qn"
  shows "panes_get (p_ID pn) (Panes a) = Some r \<and> (p_ID pn = p_ID qn \<longrightarrow> r = q)"
  using inv_pane_ok [OF reachable_inv [OF assms(1)] assms(2)]
    inv_pane_ok [OF reachable_inv [OF assms(1)] assms(3)]
  by (auto simp: pane_ok_def panes_get_def)

theorem pane_ids_unique_witness: "panes_get 1 (Panes demo_running) = Some 0"
  using pane_ids_unique [OF demo_running_reachable, of 0 demo_pane 0 demo_pane]
  by (simp add: demo_running_def demo_pane_def)

subsection \<open>The life of a peer\<close>

text \<open>C14. A peer keeps its fingerprint and its life goes one way as well: in every run a closed
  connection stays closed and a control channel stays. At most eight candidates wait with it, and
  \<open>AddCandidate\<close> never panics; it waits exactly when the connection is closed, nobody takes the
  candidates and eight of them are there.\<close>

theorem peer_life:
  assumes "agent_reachable a" and "agent_step\<^sup>*\<^sup>* a b" and "peer_at a p = Some pr"
  shows "\<exists>pr'. peer_at b p = Some pr' \<and> pr_FP pr' = pr_FP pr \<and> (pr_PC pr' \<longrightarrow> pr_PC pr) \<and>
    (pr_cdc pr \<noteq> None \<longrightarrow> pr_cdc pr' \<noteq> None) \<and> length (pr_pending pr') \<le> 8 \<and>
    (\<exists>d res. addCandidate E p c b = Some (d, res) \<and>
       (res = Waits \<longleftrightarrow> \<not> pr_PC pr' \<and> \<not> pr_draining pr' \<and> length (pr_pending pr') = 8))"
proof -
  note run = bare.run_inv [OF assms(2) reachable_inv [OF assms(1)]]
  obtain pr' where pr': "peer_at b p = Some pr'" "peer_grows pr pr'"
    using growsD_peer [OF conjunct2 [OF run] assms(3)] .
  have "length (pr_pending pr') \<le> 8" using agent_invD(3) [OF conjunct1 [OF run]] pr'(1) by (auto simp: peers_ok_def)
  with pr' show ?thesis by (auto simp: peer_grows_def addCandidate_def)
qed

theorem peer_life_witness:
  "\<exists>b d. peer_close 0 demo_control = Some b \<and> addCandidate demo_env 0 ''c'' b = Some (d, Kept)"
proof -
  let ?pr = "demo_peer\<lparr>pr_PC := False\<rparr>"
  let ?b = "set_peer 0 ?pr (emit (ClosedConnection 0) demo_control)"
  have b: "peer_close 0 demo_control = Some ?b"
    by (simp add: peer_close_def demo_control_def demo_peer_def)
  then have "agent_step\<^sup>*\<^sup>* demo_control ?b" by (blast intro: agent_step_hang_up)
  then obtain d res where "addCandidate demo_env 0 ''c'' ?b = Some (d, res)" "res \<noteq> Waits"
    using peer_life [OF demo_control_reachable, of ?b 0 demo_peer demo_env "''c''"]
    by (auto simp: demo_control_def demo_peer_def)
  then have "addCandidate demo_env 0 ''c'' ?b = Some (d, Kept)"
    by (auto simp: addCandidate_def demo_peer_def)
  with b show ?thesis by blast
qed

subsection \<open>Control messages\<close>

text \<open>C4. Exactly when a control message brings the agent down, whatever a client sends on its
  control channel: a resize of a running pane that has no size, or whose terminal is no file
  though the size differs; a \<open>reconnect_pane\<close> after the connection was closed; an \<open>add_pane\<close> with
  an empty command, with a parent whose command never started, or after the connection was
  closed. Everything else, garbage included, is handled.\<close>

theorem control_message_panics:
  assumes "agent_reachable a" and "env_ok E" and "room a" and "on_msg a d = Some (ToControl p)"
  shows "message_arrives E d b msg a = None \<longleftrightarrow>
    (\<exists>m. dec_ctrl msg = Some m \<and> control_panics p m a)"
proof -
  note inv = reachable_inv [OF assms(1)]
  have "has_cdc a p" using agent_invD(4) [OF inv] assms(4) by (force simp: callbacks_ok_def)
  from handleCTRLMsg_panics [OF inv assms(2) this] assms(3,4) show ?thesis
    by (simp add: message_arrives_def room_def)
qed

definition demo_add_pane :: "raw option" where
  "demo_add_pane = Some ([], JObj [(''type'', [], JStr ''add_pane''), (''args'', [], JObj [])])"

theorem control_message_panics_witness:
  "message_arrives demo_env 0 [] demo_add_pane demo_running = None"
proof -
  have "room demo_running" by (simp add: room_def demo_running_def panes_left_def clients_left_def max_int_def)
  moreover have "on_msg demo_running 0 = Some (ToControl 0)" by (simp add: demo_running_def)
  moreover have "dec_ctrl demo_add_pane = Some \<lparr>cm_time = 0, cm_ref = 0, cm_type = ''add_pane'',
      cm_raw = Some ([], JObj []), cm_bound = True\<rparr>"
    by (simp add: demo_add_pane_def) code_simp
  moreover have "dec_addPane (Some ([], JObj [])) = Some \<lparr>ap_command = [], ap_rows = 0, ap_cols = 0,
      ap_x = 0, ap_y = 0, ap_parent = 0\<rparr>"
    by (simp add: dec_addPane_def unmarshal_def)
  ultimately show ?thesis
    using control_message_panics [OF demo_running_reachable demo_env_ok, of 0 0 "[]" demo_add_pane]
    by (simp add: control_panics_def add_pane_panics_def)
qed

end
