(* ===== verification/Client_Properties.thy ===== *)
theory Client_Properties
  imports Run_Properties Agent_Hosts
begin

section \<open>Who gets what: the clients of the panes\<close>

text \<open>
  Which channels get what a pane prints: killing a pane and its clients, delivering a chunk, and
  coming back to a pane by its id or by a label.
\<close>

subsection \<open>Killing a pane\<close>

lemma drop_client_CDB:
  "CDB (drop_client E c a) =
    (case clients_delete (e_dcid E) (pane_id a) (e_clients E (clients (CDB a))) c (CDB a) of
       Inl _ \<Rightarrow> CDB a | Inr db \<Rightarrow> db)"
  by (simp add: drop_client_def split: sum.split)

lemma pane_id_cong: "pane_at b = pane_at a \<Longrightarrow> pane_id b = pane_id a"
  by (simp add: fun_eq_iff pane_id_def)

lemma kill_clients_CDB:
  "CDB (kill_clients E cs a) = delete_clients (e_dcid E) (pane_id a) (e_clients E) cs (CDB a)"
proof (induction cs arbitrary: a)
  case (Cons c cs)
  let ?a1 = "if still_open E (c_dc c) a then emit (ClosedChannel (c_dc c)) a else a"
  have same: "pane_id ?a1 = pane_id a" by (rule pane_id_cong) simp
  have "CDB ?a1 = CDB a" by simp
  moreover have "pane_id (drop_client E c ?a1) = pane_id a" by (rule pane_id_cong) simp
  ultimately show ?case
    using Cons.IH [of "drop_client E c ?a1"] same by (simp add: drop_client_CDB split: sum.split)
qed simp

lemma delete_clients_keep:
  assumes "clients db k = Some v" and "\<forall>c \<in> set cs. pid (c_pane c) \<noteq> pid (c_pane v)"
    and "good_order ord" and "clients_inv db"
  shows "clients (delete_clients dcid pid ord cs db) k = Some v"
  using assms(1,2,4)
proof (induction cs arbitrary: db)
  case (Cons c cs)
  show ?case
  proof (cases "clients_delete dcid pid (ord (clients db)) c db")
    case (Inl e)
    with Cons show ?thesis by simp
  next
    case (Inr db')
    have o: "range_order (clients db) (ord (clients db))"
      using assms(3) Cons.prems(3) by (simp add: good_order_def clients_inv_def)
    from Inr o obtain j w where "clients db j = Some w" "same_client dcid pid w c"
      "db' = db\<lparr>clients := (clients db)(j := None)\<rparr>" by (rule clients_delete_Inr)
    with Cons.prems(1,2) have "clients db' k = Some v" by (auto simp: same_client_def)
    with Cons.IH [of db'] Cons.prems clients_delete_inv [OF _ Inr] Inr show ?thesis by simp
  qed
qed simp

lemma client_pane_id:
  assumes inv: "agent_inv a" and c: "clients (CDB a) i = Some c" and r: "has_pane a r"
  shows "pane_id a (c_pane c) = pane_id a r \<longleftrightarrow> c_pane c = r"
proof -
  from agent_invD(2) [OF inv] c have "has_pane a (c_pane c)" by (auto simp: clients_ok_def client_ok_def)
  then obtain pn where pn: "pane_at a (c_pane c) = Some pn" by (auto simp: has_pane_def)
  from r obtain qn where qn: "pane_at a r = Some qn" by (auto simp: has_pane_def)
  from inv_pane_ok [OF inv pn] inv_pane_ok [OF inv qn] pn qn show ?thesis
    by (auto simp: pane_id_def pane_ok_def)
qed

lemma clients_order:
  "agent_inv a \<Longrightarrow> env_ok E \<Longrightarrow> range_order (clients (CDB a)) (e_clients E (clients (CDB a)))"
  by (simp add: agent_inv_def clients_ok_def clients_inv_def env_ok_def good_order_def)

lemma clients_of_filter:
  assumes inv: "agent_inv a" and env: "env_ok E" and r: "has_pane a r"
  shows "clients_of E r a =
    filter (\<lambda>c. c_pane c = r) (range_values (clients (CDB a)) (e_clients E (clients (CDB a))))"
  unfolding clients_of_def all4Pane_def
proof (rule filter_cong [OF refl])
  fix c
  assume "c \<in> set (range_values (clients (CDB a)) (e_clients E (clients (CDB a))))"
  then obtain i where "clients (CDB a) i = Some c"
    using set_range_values [OF clients_order [OF inv env]] by (auto simp: ran_def)
  with client_pane_id [OF inv _ r] show "pane_id a (c_pane c) = pane_id a r \<longleftrightarrow> c_pane c = r" by blast
qed

lemma pane_kill_state:
  assumes "pane_at a r = Some pn" and "pane_kill E r a = Some b"
  shows "CDB b = delete_clients (e_dcid E) (pane_id a) (e_clients E) (clients_of E r a) (CDB a)"
    and "\<exists>pn'. pane_at b r = Some pn' \<and> \<not> p_IsRunning pn'"
    and "p_TTY pn = Some t \<Longrightarrow> ClosedTty t \<in> set (sent b)"
proof -
  have b: "b = close_tty pn (kill_process pn (set_pane r (pn\<lparr>p_IsRunning := False,
      p_cancelled := p_cancelled pn \<or> p_IsRunning pn\<rparr>) (kill_clients E (clients_of E r a) a)))"
    using assms by (simp add: pane_kill_def Let_def)
  have same: "CDB (close_tty qn x) = CDB x" "CDB (kill_process qn x) = CDB x"
    "pane_at (close_tty qn x) = pane_at x" "pane_at (kill_process qn x) = pane_at x" for qn x
    by (simp_all add: close_tty_def kill_process_def split: option.split)
  show "CDB b = delete_clients (e_dcid E) (pane_id a) (e_clients E) (clients_of E r a) (CDB a)"
    by (simp add: b same kill_clients_CDB)
  show "\<exists>pn'. pane_at b r = Some pn' \<and> \<not> p_IsRunning pn'" by (simp add: b same)
  show "p_TTY pn = Some t \<Longrightarrow> ClosedTty t \<in> set (sent b)" by (simp add: b close_tty_def)
qed

lemma clients_of_deleted:
  assumes inv: "agent_inv a" and env: "env_ok E" and hp: "has_pane a r"
  shows "clients (delete_clients (e_dcid E) (pane_id a) (e_clients E) (clients_of E r a) (CDB a)) i =
    (case clients (CDB a) i of None \<Rightarrow> None | Some c \<Rightarrow> if c_pane c = r then None else Some c)"
    (is "clients ?db i = _")
proof -
  have cinv: "clients_inv (CDB a)" using inv by (simp add: agent_inv_def clients_ok_def)
  have good: "good_order (e_clients E)" using env by (simp add: env_ok_def)
  have sub: "clients ?db i = Some v \<Longrightarrow> clients (CDB a) i = Some v" for v
    by (rule delete_clients_subset)
  show ?thesis
  proof (cases "clients (CDB a) i")
    case None
    with sub show ?thesis by (cases "clients ?db i") auto
  next
    case c: (Some c)
    show ?thesis
    proof (cases "c_pane c = r")
      case True
      have "clients ?db i = None"
      proof (cases "clients ?db i")
        case (Some v)
        then have "pane_id a (c_pane v) \<noteq> pane_id a r"
          unfolding clients_of_def by (rule all4Pane_cleared [OF good cinv])
        with sub [OF Some] c True show ?thesis by simp
      qed
      with c True show ?thesis by simp
    next
      case False
      have "pane_id a (c_pane x) \<noteq> pane_id a (c_pane c)" if "x \<in> set (clients_of E r a)" for x
        using that client_pane_id [OF inv c hp] False by (simp add: clients_of_def all4Pane_def)
      then have "clients ?db i = Some c"
        using c good cinv by (intro delete_clients_keep) auto
      with c False show ?thesis by simp
    qed
  qed
qed

text \<open>C7. \<open>Kill\<close> removes all the clients of its pane and no other: the clients left are exactly
  those of the other panes, although each \<open>Delete\<close> may remove another client than the one it is
  given. The pane does not run any more, and its terminal, if it had one, is closed.\<close>

theorem kill_clears_clients:
  assumes "agent_reachable a" and "env_ok E" and "pane_at a r = Some pn" and "pane_kill E r a = Some b"
  shows "clients (CDB b) i = (case clients (CDB a) i of None \<Rightarrow> None
      | Some c \<Rightarrow> if c_pane c = r then None else Some c) \<and>
    (\<exists>pn'. pane_at b r = Some pn' \<and> \<not> p_IsRunning pn') \<and>
    (\<forall>t. p_TTY pn = Some t \<longrightarrow> ClosedTty t \<in> set (sent b))"
proof -
  note inv = reachable_inv [OF assms(1)]
  have "has_pane a r" using assms(3) by (simp add: has_pane_def)
  note gone = clients_of_deleted [OF inv assms(2) this, of i]
  note st = pane_kill_state [OF assms(3,4)]
  show ?thesis using gone st by (simp only: st(1)) blast
qed

lemma demo_kill: "\<exists>b. pane_kill demo_env 0 demo_running = Some b"
  by (rule pane_kill_total) (simp add: has_pane_def demo_running_def)

theorem kill_clears_clients_witness:
  "\<exists>b. pane_kill demo_env 0 demo_running = Some b \<and> clients (CDB demo_running) 0 = Some demo_client \<and>
     clients (CDB b) 0 = None \<and> ClosedTty (TtyFile 7) \<in> set (sent b)"
proof -
  obtain b where b: "pane_kill demo_env 0 demo_running = Some b" using demo_kill by blast
  have pn: "pane_at demo_running 0 = Some demo_pane" by (simp add: demo_running_def)
  from kill_clears_clients [OF demo_running_reachable demo_env_ok pn b, of 0] b show ?thesis
    by (auto simp: demo_running_def demo_pane_def demo_client_def)
qed

subsection \<open>Delivering output\<close>

definition delivery :: "env \<Rightarrow> bytes \<Rightarrow> client \<Rightarrow> event list" where
  "delivery E m c =
     (if e_open E (c_dc c) then (if e_send_ok E (c_dc c) then [Sent (c_dc c) m] else [])
      else [ClosedChannel (c_dc c)])"

lemma sent_deliver: "sent (deliver E m cs a) = sent a @ concat (map (delivery E m) cs)"
  by (induction cs arbitrary: a) (simp_all add: delivery_def dc_send_def)

lemma filter_delivery:
  "filter (\<lambda>e. e = Sent d m) (delivery E m c) =
    (if c_dc c = d \<and> e_open E d \<and> e_send_ok E d then [Sent d m] else [])"
  by (auto simp: delivery_def)

lemma count_deliveries:
  "length (filter (\<lambda>e. e = Sent d m) (concat (map (delivery E m) cs))) =
    (if e_open E d \<and> e_send_ok E d then length (filter (\<lambda>c. c_dc c = d) cs) else 0)"
  by (induction cs) (auto simp: filter_delivery)

text \<open>C8. One turn of the sender delivers its chunk to exactly the clients of its pane, once for
  each registration: on an open channel that takes it, as many times as the channel is registered
  for the pane, and on no other channel.\<close>

theorem sender_delivers_once:
  assumes "agent_reachable a" and "env_ok E" and "pane_at a r = Some pn" and "sender_turn E r m a = Some b"
  shows "\<exists>evs. sent b = sent a @ evs \<and>
    (\<forall>d. length (filter (\<lambda>e. e = Sent d m) evs) =
       (if e_open E d \<and> e_send_ok E d
        then card {i. \<exists>c. clients (CDB a) i = Some c \<and> c_pane c = r \<and> c_dc c = d} else 0))"
proof -
  note inv = reachable_inv [OF assms(1)]
  have hp: "has_pane a r" using assms(3) by (simp add: has_pane_def)
  let ?cs = "clients_of E r a" and ?rest = "if p_stuck pn then [] else [Printed r m]"
  have "sent b = sent (deliver E m ?cs a) @ ?rest"
    using assms(3,4) by (auto simp: sender_turn_def Let_def split: if_splits bind_splits)
  then have s: "sent b = sent a @ concat (map (delivery E m) ?cs) @ ?rest"
    by (simp add: sent_deliver)
  have "length (filter (\<lambda>c. c_dc c = d) ?cs) =
      card {i. \<exists>c. clients (CDB a) i = Some c \<and> c_pane c = r \<and> c_dc c = d}" for d
    unfolding clients_of_filter [OF inv assms(2) hp] filter_filter
    using length_filter_range_values [OF clients_order [OF inv assms(2)], of "\<lambda>c. c_pane c = r \<and> c_dc c = d"]
    by simp
  with s show ?thesis by (intro exI [of _ "concat (map (delivery E m) ?cs) @ ?rest"]) (simp add: count_deliveries)
qed

theorem sender_delivers_once_witness:
  "\<exists>b evs. sender_turn demo_env 0 ''hi'' demo_running = Some b \<and> sent b = sent demo_running @ evs \<and>
     length (filter (\<lambda>e. e = Sent 1 ''hi'') evs) = 1"
proof -
  have pn: "pane_at demo_running 0 = Some demo_pane" by (simp add: demo_running_def)
  obtain b where b: "sender_turn demo_env 0 ''hi'' demo_running = Some b"
    using sender_turn_total [OF reachable_inv [OF demo_running_reachable] pn] by blast
  have "{i. \<exists>c. clients (CDB demo_running) i = Some c \<and> c_pane c = 0 \<and> c_dc c = 1} = {0}"
    by (auto simp: demo_running_def demo_client_def split: if_splits)
  with sender_delivers_once [OF demo_running_reachable demo_env_ok pn b] b show ?thesis by fastforce
qed

subsection \<open>Coming back to a pane\<close>

definition registrations :: "dc \<Rightarrow> pane_ref \<Rightarrow> agent \<Rightarrow> int set" where
  "registrations d r a = {i. \<exists>c. clients (CDB a) i = Some c \<and> c_pane c = r \<and> c_dc c = d}"

lemma registrations_attach:
  assumes "clients_inv (CDB a)"
  shows "registrations d r (attach d p r a) = insert (lastID (CDB a)) (registrations d r a)"
    and "lastID (CDB a) \<notin> registrations d r a" and "finite (registrations d r a)"
proof -
  show "registrations d r (attach d p r a) = insert (lastID (CDB a)) (registrations d r a)"
    by (auto simp: registrations_def attach_def add_client_def clients_add_def Let_def split: if_splits)
  show "lastID (CDB a) \<notin> registrations d r a"
    using assms by (auto simp: registrations_def clients_inv_def)
  have "registrations d r a \<subseteq> dom (clients (CDB a))" by (auto simp: registrations_def)
  then show "finite (registrations d r a)"
    using assms by (meson clients_inv_def finite_subset)
qed

lemma card_registrations_attach:
  "clients_inv (CDB a) \<Longrightarrow>
   card (registrations d r (attach d p r a)) = Suc (card (registrations d r a))"
  using registrations_attach(1) [of a d r p] registrations_attach(2,3) [of a d r] by simp

lemma reconnect_running:
  assumes "panes_get i (Panes a) = Some r" and "pane_at a r = Some pn" and "p_IsRunning pn"
    and "reconnect E p d i a = Some (b, res)"
  shows "res = Inr r" and "CDB b = CDB (attach d p r a)"
proof -
  from assms obtain pr :: peer where b: "restore E r d (pr_Marker pr) (attach d p r a) = Some b"
    by (auto simp: reconnect_def Let_def bind_Some_iff)
  then show "CDB b = CDB (attach d p r a)"
    by (auto simp: restore_def split: if_splits bind_splits option.splits)
  from assms show "res = Inr r" by (auto simp: reconnect_def Let_def bind_Some_iff)
qed

text \<open>C19. A client that comes back to a running pane by opening a channel labelled \<open>>id\<close> is
  registered twice, by \<open>Reconnect\<close> and again by the \<open>OnOpen\<close> closure of \<open>OnChannelReq\<close>; by the
  delivery property it gets every chunk twice.\<close>

theorem reconnect_by_label_registers_twice:
  assumes "agent_reachable a" and "room a" and "on_open a d = Some (OpenLabelled p)"
    and "parse_label (e_label E d) = Some (ReconnectTo i)"
    and "panes_get i (Panes a) = Some r" and "pane_at a r = Some pn" and "p_IsRunning pn"
    and "channel_opens E d a = Some b"
  shows "card (registrations d r b) = card (registrations d r a) + 2"
proof -
  let ?a1 = "a\<lparr>on_open := (on_open a)(d := None)\<rparr>"
  note inv = reachable_inv [OF assms(1)]
  have inv1: "agent_inv ?a1" using inv by (rule clear_on_open_inv)
  have peer: "has_peer ?a1 p"
    using agent_invD(4) [OF inv] assms(3) by (force simp: callbacks_ok_def has_peer_def)
  from assms(3,4,8) obtain a2 res where a2: "reconnect E p d i ?a1 = Some (a2, res)"
    by (auto simp: channel_opens_def opened_labelled_def getOrCreatePane_def bind_Some_iff)
  have tab: "panes_get i (Panes ?a1) = Some r" and pn: "pane_at ?a1 r = Some pn"
    using assms(5,6) by simp_all
  note rec = reconnect_running [OF tab pn assms(7) a2]
  have b: "b = attach d p r a2"
    using assms(3,4,8) a2 rec(1)
    by (simp add: channel_opens_def opened_labelled_def getOrCreatePane_def)
  have cinv1: "clients_inv (CDB ?a1)" using inv by (simp add: agent_inv_def clients_ok_def)
  have "spends 0 1 ?a1 a2" using a2 peer by (rule reconnect_spends)
  then have "agent_inv a2" using inv1 assms(2) by (simp add: spends_def room_def)
  then have cinv2: "clients_inv (CDB a2)" by (simp add: agent_inv_def clients_ok_def)
  have "registrations d r a2 = registrations d r (attach d p r ?a1)"
    by (simp add: registrations_def rec(2))
  then show ?thesis
    using card_registrations_attach [OF cinv2, of d r p] card_registrations_attach [OF cinv1, of d r p]
    by (simp add: b registrations_def)
qed

text \<open>Channel 2 of the example run asks to come back to pane 1.\<close>

definition demo_back :: env where
  "demo_back = demo_env\<lparr>e_label := (\<lambda>d. ''>1'')\<rparr>"

lemma demo_back_label: "parse_label ''>1'' = Some (ReconnectTo 1)"
proof -
  have "atoi ''1'' = Some 1" by code_simp
  then show ?thesis by (simp add: parse_label_def command_request_def is_digit_def Let_def)
qed

lemma demo_back_reachable: "agent_reachable (onChannelReq demo_back 0 2 demo_running)"
  using demo_running_reachable
  by (rule agent_reachable.step) (rule agent_step_channel_request, simp add: has_peer_def demo_running_def)

theorem reconnect_by_label_registers_twice_witness:
  "\<exists>b. channel_opens demo_back 2 (onChannelReq demo_back 0 2 demo_running) = Some b \<and>
     card (registrations 2 0 b) = 2"
proof -
  let ?a = "onChannelReq demo_back 0 2 demo_running"
  have a: "?a = demo_running\<lparr>on_open := [2 \<mapsto> OpenLabelled 0]\<rparr>"
    by (simp add: onChannelReq_def demo_back_def demo_running_def)
  have none: "registrations 2 0 ?a = {}"
    unfolding a by (auto simp: registrations_def demo_running_def demo_client_def split: if_splits)
  have opens: "\<exists>b. channel_opens demo_back 2 ?a = Some b"
    unfolding a by (simp add: channel_opens_def opened_labelled_def getOrCreatePane_def demo_back_label
        reconnect_def panes_get_def restore_def attach_def add_client_def clients_add_def Let_def
        demo_back_def demo_running_def demo_pane_def demo_peer_def)
  then obtain b where b: "channel_opens demo_back 2 ?a = Some b" by blast
  have "room ?a" unfolding a by (simp add: room_def demo_running_def panes_left_def clients_left_def max_int_def)
  moreover have "on_open ?a 2 = Some (OpenLabelled 0)" unfolding a by simp
  moreover have "parse_label (e_label demo_back 2) = Some (ReconnectTo 1)"
    by (simp add: demo_back_def demo_back_label)
  moreover have "panes_get 1 (Panes ?a) = Some 0" "pane_at ?a 0 = Some demo_pane"
    unfolding a by (simp_all add: demo_running_def panes_get_def)
  ultimately have "card (registrations 2 0 b) = card (registrations 2 0 ?a) + 2"
    using reconnect_by_label_registers_twice [OF demo_back_reachable] b by (simp add: demo_pane_def)
  with b none show ?thesis by simp
qed

text \<open>C15. The dead stay dead: once the command of a pane has ended and \<open>Kill\<close> has run, nothing the
  agent does later brings the pane back. Whoever asks to reconnect to its id has his channel
  closed, and nobody is registered.\<close>

theorem dead_pane_stays_dead:
  assumes "agent_reachable a" and "agent_step\<^sup>*\<^sup>* a b" and "pane_at a r = Some pn" and "phase_of pn = Dead"
  shows "reconnect E p d (p_ID pn) b = Some (emit (ClosedChannel d) b, Inl PaneNotRunning)"
  by (rule bare.dead_pane_refused [OF assms(2) reachable_inv [OF assms(1)] assms(3,4)])

theorem dead_pane_stays_dead_witness:
  "\<exists>b. pane_kill demo_env 0 demo_running = Some b \<and>
     reconnect demo_env 0 5 1 b = Some (emit (ClosedChannel 5) b, Inl PaneNotRunning)"
proof -
  obtain b where b: "pane_kill demo_env 0 demo_running = Some b" using demo_kill by blast
  have pn: "pane_at demo_running 0 = Some demo_pane" by (simp add: demo_running_def)
  have "reader_end demo_env 0 demo_running = Some b"
    using b pn by (simp add: reader_end_def panes_get_def demo_pane_def demo_running_def)
  then have "agent_step demo_running b"
    using pn by (intro agent_step.end_of_output [OF pn]) (simp_all add: demo_pane_def)
  with demo_running_reachable have reach: "agent_reachable b" by (rule agent_reachable.step)
  from b pn obtain pn' where "pane_at b 0 = Some pn'" "p_ID pn' = 1" "phase_of pn' = Dead"
    by (auto simp: pane_kill_def Let_def close_tty_def kill_process_def phase_of_def demo_pane_def)
  with dead_pane_stays_dead [OF reach, of b 0 pn' demo_env 0 5] b show ?thesis by auto
qed

end
