(* ===== verification/Message_Properties.thy ===== *)
theory Message_Properties
  imports Client_Properties
begin

section \<open>Control messages and their answers\<close>

text \<open>
  The questions the agent asks its clients and the answers it waits for, and messages to all the
  other clients.
\<close>

subsection \<open>Acknowledgements\<close>

definition count_up :: "peer \<Rightarrow> peer" where
  "count_up pr = pr\<lparr>pr_LastRef := go_inc (pr_LastRef pr)\<rparr>"

lemma wait_start_acks:
  assumes "wait_start E p typ args a = Some (b, res)"
  obtains pr where "peer_at b p = Some pr" "pr_acks pr (pr_LastRef pr) = Some None"
    "res = None \<or> res = Some (pr_LastRef pr)"
proof -
  from assms obtain a1 msg where a1: "newCTRLMessage E p typ args a = Some (a1, msg)"
    by (auto simp: wait_start_def split: bind_splits)
  then obtain pr0 where "peer_at a p = Some pr0" by (auto simp: newCTRLMessage_def split: bind_splits)
  with a1 have pr: "peer_at a1 p = Some (count_up pr0)" "om_ref msg = pr_LastRef (count_up pr0)"
    by (auto simp: newCTRLMessage_def count_up_def Let_def)
  with assms a1 show thesis
    by (auto simp: wait_start_def sendMessage_def Let_def split: bind_splits if_splits intro: that)
qed

text \<open>C18. A question gets its answer: when the message of \<open>SendControlMessageAndWait\<close> was sent with
  id \<open>n\<close>, the client's \<open>ack\<close> of \<open>n\<close> is delivered, and the call returns its body and leaves no
  entry behind.\<close>

theorem ack_roundtrip:
  assumes "wait_start E p typ args a = Some (a1, Some n)"
    and "dec_ack raw = Some \<lparr>aa_ref = n, aa_body = body\<rparr>"
  shows "\<exists>a2 a3 pr. handleAck p raw a1 = Some (a2, Delivered) \<and>
    wait_end p n False a2 = Some (a3, Some body) \<and> peer_at a3 p = Some pr \<and> pr_acks pr n = None"
proof -
  from assms(1) obtain pr where pr: "peer_at a1 p = Some pr" "pr_acks pr n = Some None"
    by (auto elim: wait_start_acks)
  then show ?thesis
    by (simp add: handleAck_def assms(2) answer_def wait_end_def Let_def)
qed

definition demo_ack :: "raw option" where
  "demo_ack = Some ([], JObj [(''ref'', [], JNum ''1''), (''body'', [], JStr ''text'')])"

lemma demo_ack_args: "dec_ack demo_ack = Some \<lparr>aa_ref = 1, aa_body = ''text''\<rparr>"
  by code_simp

lemma demo_wait: "\<exists>a1. wait_start demo_env 0 ''get_clipboard'' NoArgs demo_control = Some (a1, Some 1)"
  by (simp add: wait_start_def newCTRLMessage_def sendMessage_def Let_def demo_control_def demo_peer_def
      go_inc_def max_int_def)

theorem ack_roundtrip_witness:
  "\<exists>a1 a2 a3. wait_start demo_env 0 ''get_clipboard'' NoArgs demo_control = Some (a1, Some 1) \<and>
     handleAck 0 demo_ack a1 = Some (a2, Delivered) \<and> wait_end 0 1 False a2 = Some (a3, Some ''text'')"
proof -
  obtain a1 where a1: "wait_start demo_env 0 ''get_clipboard'' NoArgs demo_control = Some (a1, Some 1)"
    using demo_wait by blast
  from ack_roundtrip [OF this demo_ack_args] a1 show ?thesis by blast
qed

text \<open>A refusal does not reach who waits: \<open>handleNack\<close> looks up the id of the \<open>nack\<close> message
  itself. The \<open>nack\<close> of the awaited message \<open>n\<close> is dropped, whatever id it names, unless its own
  message id happens to be awaited, and the call runs into its timeout.\<close>

lemma nack_not_delivered:
  assumes "wait_start E p typ args a = Some (a1, Some n)" and "dec_nack raw = Some args'"
    and "na_ref args' = n" and "peer_at a1 p = Some pr" and "pr_acks pr (cm_ref m) = None"
  shows "handleNack p m raw a1 = Some (a1, NobodyWaits) \<and>
    (\<exists>a2. wait_end p n True a1 = Some (a2, None)) \<and>
    (\<exists>a2. wait_end p n False a1 = Some (a2, None))"
proof -
  from assms(1) obtain pr' where "peer_at a1 p = Some pr'" "pr_acks pr' n = Some None"
    by (auto elim: wait_start_acks)
  with assms show ?thesis by (simp add: handleNack_def answer_def wait_end_def Let_def)
qed

definition demo_nack :: "raw option" where
  "demo_nack = Some ([], JObj [(''ref'', [], JNum ''1''), (''desc'', [], JStr ''no'')])"

lemma nack_not_delivered_example:
  "\<exists>a1. wait_start demo_env 0 ''get_clipboard'' NoArgs demo_control = Some (a1, Some 1) \<and>
     handleNack 0 \<lparr>cm_time = 0, cm_ref = 5, cm_type = ''nack'', cm_raw = None, cm_bound = True\<rparr>
       demo_nack a1 = Some (a1, NobodyWaits)"
proof -
  obtain a1 where a1: "wait_start demo_env 0 ''get_clipboard'' NoArgs demo_control = Some (a1, Some 1)"
    using demo_wait by blast
  have nack: "dec_nack demo_nack = Some \<lparr>na_desc = ''no'', na_ref = 1\<rparr>" by code_simp
  obtain pr where pr: "peer_at a1 0 = Some pr" "pr_acks pr 5 = None"
    using a1
    by (auto simp: wait_start_def newCTRLMessage_def sendMessage_def Let_def demo_control_def
        demo_peer_def go_inc_def max_int_def)
  from nack_not_delivered [OF a1 nack _ pr(1), of "\<lparr>cm_time = 0, cm_ref = 5, cm_type = ''nack'',
      cm_raw = None, cm_bound = True\<rparr>"] pr(2) a1 show ?thesis by simp
qed

text \<open>A question that could not be sent leaves its entry behind: the call fails, but the map of
  awaited answers still has its id.\<close>

lemma failed_question_leaks:
  assumes "wait_start E p typ args a = Some (b, None)"
  shows "\<exists>pr. peer_at b p = Some pr \<and> pr_acks pr (pr_LastRef pr) = Some None"
  using assms by (auto elim: wait_start_acks)

lemma failed_question_leaks_example:
  "\<exists>b pr. wait_start (demo_env\<lparr>e_send_ok := (\<lambda>d. False)\<rparr>) 0 ''get_clipboard'' NoArgs demo_control = Some (b, None) \<and>
     peer_at b 0 = Some pr \<and> pr_acks pr (pr_LastRef pr) = Some None"
proof -
  obtain b where b: "wait_start (demo_env\<lparr>e_send_ok := (\<lambda>d. False)\<rparr>) 0 ''get_clipboard'' NoArgs demo_control
      = Some (b, None)"
    by (simp add: wait_start_def newCTRLMessage_def sendMessage_def Let_def demo_control_def demo_peer_def)
  with failed_question_leaks [OF b] show ?thesis by blast
qed

subsection \<open>Broadcast\<close>

definition gets_broadcast :: "agent \<Rightarrow> peer_ref \<Rightarrow> peer_ref \<Rightarrow> bool" where
  "gets_broadcast a p q \<longleftrightarrow> q \<noteq> p \<and> q \<in> ran (Peers a) \<and> has_cdc a q"

definition broadcast_event :: "env \<Rightarrow> peer_ref \<Rightarrow> bytes \<Rightarrow> out_args \<Rightarrow> agent \<Rightarrow> peer_ref \<Rightarrow> event list" where
  "broadcast_event E p typ args a q =
     (case peer_at a q of
        None \<Rightarrow> []
      | Some pr \<Rightarrow>
          (case pr_cdc pr of
             None \<Rightarrow> []
           | Some d \<Rightarrow>
               if q \<noteq> p \<and> e_send_ok E d
               then [SentControl d \<lparr>om_time = e_now E div 1000000, om_ref = pr_LastRef (count_up pr),
                       om_type = typ, om_args = args\<rparr>]
               else []))"

lemma broadcast_one_effect:
  assumes "broadcast_one E p typ args x a = Some b"
  shows "peer_at b = (if x \<noteq> p \<and> has_cdc a x then (peer_at a)(x := map_option count_up (peer_at a x))
      else peer_at a)" and "sent b = sent a @ broadcast_event E p typ args a x"
    and "has_cdc b y \<longleftrightarrow> has_cdc a y"
proof -
  from assms obtain pr where pr: "peer_at a x = Some pr" by (auto simp: broadcast_one_def split: bind_splits)
  have "peer_at b = (if x \<noteq> p \<and> has_cdc a x then (peer_at a)(x := map_option count_up (peer_at a x))
      else peer_at a) \<and> sent b = sent a @ broadcast_event E p typ args a x"
  proof (cases "x \<noteq> p \<and> pr_cdc pr \<noteq> None")
    case True
    then obtain d where d: "pr_cdc pr = Some d" by auto
    from True pr assms obtain ok where "sendControlMessage E x typ args a = Some (b, ok)"
      by (auto simp: broadcast_one_def)
    with pr d True show ?thesis
      by (auto simp: sendControlMessage_def newCTRLMessage_def sendMessage_def Let_def count_up_def
          broadcast_event_def has_cdc_def split: if_splits)
  next
    case False
    with assms pr show ?thesis
      by (auto simp: broadcast_one_def has_cdc_def broadcast_event_def split: option.split)
  qed
  then show "peer_at b = (if x \<noteq> p \<and> has_cdc a x then (peer_at a)(x := map_option count_up (peer_at a x))
      else peer_at a)" and "sent b = sent a @ broadcast_event E p typ args a x"
    and "has_cdc b y \<longleftrightarrow> has_cdc a y"
    using pr by (auto simp: has_cdc_def count_up_def)
qed

lemma broadcast_loop_effect:
  assumes "each (broadcast_one E p typ args) qs a = Some b" and "distinct qs"
  shows "peer_at b q = (if q \<in> set qs \<and> q \<noteq> p \<and> has_cdc a q then map_option count_up (peer_at a q)
    else peer_at a q) \<and>
    sent b = sent a @ concat (map (broadcast_event E p typ args a) qs)"
  using assms
proof (induction qs arbitrary: a)
  case (Cons x qs)
  from Cons.prems(1) obtain a1 where a1: "broadcast_one E p typ args x a = Some a1"
    and rest: "each (broadcast_one E p typ args) qs a1 = Some b"
    by (auto split: option.splits)
  note one = broadcast_one_effect [OF a1]
  have x: "x \<notin> set qs" using Cons.prems(2) by simp
  have others: "peer_at a1 y = peer_at a y" if "y \<in> set qs" for y
    using x that by (auto simp: one(1))
  then have same: "broadcast_event E p typ args a1 y = broadcast_event E p typ args a y"
    if "y \<in> set qs" for y
    using that by (simp add: broadcast_event_def)
  have "concat (map (broadcast_event E p typ args a1) qs) = concat (map (broadcast_event E p typ args a) qs)"
    by (intro arg_cong [where f = concat] map_cong refl same)
  then have ev: "sent b = sent a @ concat (map (broadcast_event E p typ args a) (x # qs))"
    using Cons.IH [OF rest] Cons.prems(2) one(2) by simp
  have "peer_at b q = (if q \<in> set qs \<and> q \<noteq> p \<and> has_cdc a1 q then map_option count_up (peer_at a1 q)
      else peer_at a1 q)"
    using Cons.IH [OF rest] Cons.prems(2) by simp
  then have "peer_at b q = (if q \<in> set (x # qs) \<and> q \<noteq> p \<and> has_cdc a q
      then map_option count_up (peer_at a q) else peer_at a q)"
    using one(1) one(3) [of q] others [of q] x by (cases "q = x") (simp_all split: if_splits)
  with ev show ?case by simp
qed simp

lemma peers_distinct:
  assumes "agent_inv a" and "range_order (Peers a) ks"
  shows "distinct (range_values (Peers a) ks)"
proof -
  have "inj_on (\<lambda>k. the (Peers a k)) (set ks)"
  proof (rule inj_onI)
    fix k l
    assume "k \<in> set ks" "l \<in> set ks" and eq: "the (Peers a k) = the (Peers a l)"
    then obtain p q where "Peers a k = Some p" "Peers a l = Some q"
      using assms(2) by (auto simp: range_order_def)
    moreover from this have "p = q" using eq by simp
    moreover have "\<exists>pr. peer_at a p = Some pr \<and> pr_FP pr = f" if "Peers a f = Some p" for f p
      using agent_invD(3) [OF assms(1)] that by (simp add: peers_ok_def)
    ultimately show "k = l" by (metis option.inject)
  qed
  with assms(2) show ?thesis by (simp add: range_values_def distinct_map range_order_def)
qed

text \<open>C17. A broadcast reaches each of the others once: every peer of the table but the sender that
  has a control channel is sent one message (if its channel takes it) with the next number of its
  own count, in the order of the range; nothing else is sent and no other peer changes.\<close>

theorem broadcast_reaches_others:
  assumes "agent_reachable a" and "env_ok E" and "broadcast E p typ args a = Some b"
  shows "peer_at b q = (if gets_broadcast a p q then map_option count_up (peer_at a q) else peer_at a q) \<and>
    (\<exists>qs. distinct qs \<and> set qs = ran (Peers a) \<and>
       sent b = sent a @ concat (map (broadcast_event E p typ args a) qs))"
proof -
  note inv = reachable_inv [OF assms(1)]
  let ?qs = "range_values (Peers a) (e_peers E (Peers a))"
  have o: "range_order (Peers a) (e_peers E (Peers a))"
    using inv assms(2) by (simp add: agent_inv_def peers_ok_def env_ok_def good_order_def)
  note loop = broadcast_loop_effect [OF assms(3) [unfolded broadcast_def] peers_distinct [OF inv o], of q]
  have "distinct ?qs \<and> set ?qs = ran (Peers a)"
    using peers_distinct [OF inv o] set_range_values [OF o] by simp
  with loop show ?thesis by (auto simp: gets_broadcast_def)
qed

theorem broadcast_reaches_others_witness:
  "\<exists>b. broadcast demo_env 9 ''resize'' NoArgs demo_running = Some b \<and>
     peer_at b 0 = Some (demo_peer\<lparr>pr_LastRef := 1\<rparr>)"
proof -
  obtain b where b: "broadcast demo_env 9 ''resize'' NoArgs demo_running = Some b"
    using broadcast_total [OF reachable_inv [OF demo_running_reachable] demo_env_ok] by blast
  have "gets_broadcast demo_running 9 0"
    by (simp add: gets_broadcast_def demo_running_def has_cdc_def demo_peer_def)
  with broadcast_reaches_others [OF demo_running_reachable demo_env_ok b, of 0] b show ?thesis
    by (simp add: demo_running_def count_up_def demo_peer_def go_inc_def max_int_def)
qed

end
