(* ===== verification/Restore_Properties.thy ===== *)
theory Restore_Properties
  imports Message_Properties
begin

section \<open>Marks, restores, and panes that fail to start\<close>

text \<open>
  The messages \<open>mark\<close> and \<open>restore\<close> over the tables, the ring and the timers together, and what is
  left of a pane whose command does not start.
\<close>

subsection \<open>From a mark to its restore\<close>

definition marked :: "int \<Rightarrow> pane \<Rightarrow> pane" where
  "marked n pn = pn\<lparr>p_Buffer := mark n (p_Buffer pn)\<rparr>"

lemma marked_buffer: "p_Buffer (marked n pn) = mark n (p_Buffer pn)"
  by (simp add: marked_def)

lemma mark_panes_effect:
  assumes "mark_panes n rs a = Some (b, fin)" and "distinct rs"
    and "\<forall>r pn. pane_at a r = Some pn \<longrightarrow> \<not> p_stuck pn"
  shows "fin \<and> sent b = sent a \<and> peer_at b = peer_at a \<and>
    pane_at b r = (if r \<in> set rs then map_option (marked n) (pane_at a r) else pane_at a r)"
  using assms
proof (induction rs arbitrary: a)
  case (Cons x rs)
  then obtain pn where pn: "pane_at a x = Some pn" by (auto split: bind_splits)
  with Cons.prems(3) have free: "\<not> p_stuck pn" by blast
  let ?a1 = "set_pane x (marked n pn) a"
  have rest: "mark_panes n rs ?a1 = Some (b, fin)"
    using Cons.prems(1) pn free by (simp add: marked_def)
  have "\<forall>r qn. pane_at ?a1 r = Some qn \<longrightarrow> \<not> p_stuck qn"
    using Cons.prems(3) free by (simp add: marked_def)
  from Cons.IH [OF rest _ this] Cons.prems(2) pn show ?case by (cases "r = x") simp_all
qed simp

lemma panes_all_set:
  assumes inv: "agent_inv a" and env: "env_ok E"
  shows "distinct (panes_all (e_panes E (panes (Panes a))) (Panes a))"
    and "set (panes_all (e_panes E (panes (Panes a))) (Panes a)) = {r. has_pane a r}"
proof -
  have pinv: "panes_inv (Panes a)" using inv by (simp add: agent_inv_def panes_ok_def)
  have "finite (dom (panes (Panes a)))"
  proof (rule finite_subset)
    show "dom (panes (Panes a)) \<subseteq> {1..nextID (Panes a)}" using pinv by (auto simp: panes_inv_def)
  qed simp
  with env have o: "range_order (panes (Panes a)) (e_panes E (panes (Panes a)))"
    by (simp add: env_ok_def good_order_def)
  have at: "\<exists>pn. pane_at a r = Some pn \<and> p_ID pn = i" if "panes (Panes a) i = Some r" for i r
    using inv that by (simp add: agent_inv_def panes_ok_def)
  have "inj_on (\<lambda>k. the (panes (Panes a) k)) (set (e_panes E (panes (Panes a))))"
  proof (rule inj_onI)
    fix k l
    assume "k \<in> set (e_panes E (panes (Panes a)))" "l \<in> set (e_panes E (panes (Panes a)))"
      and eq: "the (panes (Panes a) k) = the (panes (Panes a) l)"
    then obtain r q where "panes (Panes a) k = Some r" "panes (Panes a) l = Some q"
      using o by (auto simp: range_order_def)
    with eq at show "k = l" by (metis option.inject option.sel)
  qed
  with o show "distinct (panes_all (e_panes E (panes (Panes a))) (Panes a))"
    by (simp add: panes_all_def range_values_def distinct_map range_order_def)
  have "r \<in> ran (panes (Panes a))" if "has_pane a r" for r
    using that inv_pane_ok [OF inv] by (auto simp: has_pane_def pane_ok_def ran_def)
  moreover have "has_pane a r" if "r \<in> ran (panes (Panes a))" for r
    using that at by (auto simp: ran_def has_pane_def)
  ultimately show "set (panes_all (e_panes E (panes (Panes a))) (Panes a)) = {r. has_pane a r}"
    by (auto simp: panes_all_def set_range_values [OF o])
qed

lemma sendAck_effect:
  assumes "sendAck E p m body a = Some b"
  shows "pane_at b = pane_at a" and "printed r (sent b) = printed r (sent a)"
    and "peer_at b = (peer_at a)(p := map_option count_up (peer_at a p))"
  using assms
  by (auto simp: sendAck_def sendControlMessage_def newCTRLMessage_def sendMessage_def count_up_def Let_def
      split: bind_splits if_splits)

text \<open>\<open>ack_sent E m body q\<close>: the acknowledgement of \<open>m\<close> on the control channel of the peer \<open>q\<close>, if the
  channel takes it.\<close>

definition om_ack :: "env \<Rightarrow> ctrlMessage \<Rightarrow> bytes \<Rightarrow> peer \<Rightarrow> outMessage" where
  "om_ack E m body q =
     \<lparr>om_time = e_now E div 1000000, om_ref = go_inc (pr_LastRef q), om_type = ''ack'',
      om_args = AckArgs (cm_ref m) body\<rparr>"

definition ack_sent :: "env \<Rightarrow> ctrlMessage \<Rightarrow> bytes \<Rightarrow> peer \<Rightarrow> event list" where
  "ack_sent E m body q =
     (case pr_cdc q of
        None \<Rightarrow> []
      | Some cd \<Rightarrow> if e_send_ok E cd then [SentControl cd (om_ack E m body q)] else [])"

lemma sendAck_sent:
  assumes "sendAck E p m body a = Some b" and "peer_at a p = Some q"
  shows "sent b = sent a @ ack_sent E m body q"
  using assms
  by (auto simp: sendAck_def sendControlMessage_def newCTRLMessage_def sendMessage_def ack_sent_def om_ack_def Let_def
      split: bind_splits if_splits)

lemma handleMark_effect:
  assumes inv: "agent_inv a" and env: "env_ok E" and hm: "handleMark E p m a = Some b"
    and free: "\<forall>r pn. pane_at a r = Some pn \<longrightarrow> \<not> p_stuck pn"
  shows "pane_at b r = map_option (marked (go_inc (lastMarker a))) (pane_at a r) \<and>
    printed r (sent b) = printed r (sent a) \<and>
    (\<exists>pr. peer_at b p = Some pr \<and> pr_Marker pr = go_inc (lastMarker a))"
proof -
  let ?n = "go_inc (lastMarker a)" and ?a0 = "a\<lparr>lastMarker := go_inc (lastMarker a)\<rparr>"
  from hm obtain a1 a2 fin where a1: "set_marker p ?n ?a0 = Some a1" and
    a2: "mark_panes ?n (panes_all (e_panes E (panes (Panes a1))) (Panes a1)) a1 = Some (a2, fin)" and
    b: "if fin then sendAck E p m (show_int ?n) a2 = Some b else b = a2"
    by (auto simp: handleMark_def bind_Some_iff Let_def split: if_splits)
  have i1: "agent_inv a1"
    using keepsD(1) [OF set_marker_keeps [OF a1] keepsD(1) [OF lastMarker_keeps inv]] .
  from a1 obtain pr where s1: "pane_at a1 = pane_at a" "sent a1 = sent a" "peer_at a1 p = Some pr"
    "pr_Marker pr = ?n"
    by (auto simp: set_marker_def bind_Some_iff)
  have free1: "\<forall>r pn. pane_at a1 r = Some pn \<longrightarrow> \<not> p_stuck pn" using free s1 by simp
  note e2 = mark_panes_effect [OF a2 panes_all_set(1) [OF i1 env] free1, of r]
  with b have ack: "sendAck E p m (show_int ?n) a2 = Some b" by simp
  have "pane_at a2 r = map_option (marked ?n) (pane_at a r)"
    using e2 panes_all_set(2) [OF i1 env] s1 by (auto simp: has_pane_def)
  with e2 s1 sendAck_effect [OF ack] show ?thesis by (simp add: count_up_def)
qed

text \<open>\<open>since r ts\<close>: what the turns \<open>ts\<close> of the senders, each with its pane and chunk, print of the pane \<open>r\<close>.\<close>

definition since :: "pane_ref \<Rightarrow> (pane_ref \<times> bytes) list \<Rightarrow> bytes" where
  "since r ts = concat (map snd (filter (\<lambda>t. fst t = r) ts))"

abbreviation turn :: "env \<Rightarrow> pane_ref \<times> bytes \<Rightarrow> agent \<Rightarrow> agent option" where
  "turn E t \<equiv> sender_turn E (fst t) (snd t)"

lemma printed_deliver: "printed r (sent (deliver E m cs a)) = printed r (sent a)"
proof -
  have "chunk_of r e = []" if "e \<in> set (delivery E m c)" for c e
    using that by (auto simp: delivery_def split: if_splits)
  then have "concat (map (chunk_of r) (concat (map (delivery E m) cs))) = []"
    by (induction cs) auto
  then show ?thesis by (simp add: sent_deliver printed_def)
qed

lemma other_sender_effect:
  assumes "sender_turn E q m a = Some b" and "q \<noteq> r"
  shows "pane_at b r = pane_at a r \<and> printed r (sent b) = printed r (sent a)"
  using assms printed_deliver by (auto simp: sender_turn_def Let_def split: bind_splits if_splits)

lemma senders_effect:
  assumes "each (turn E) ts a = Some b" and "pane_at a r = Some pn" and "\<not> p_stuck pn"
    and "buf_rel N (p_Buffer pn) h ps"
  shows "\<exists>pn'. pane_at b r = Some pn' \<and> \<not> p_stuck pn' \<and> buf_rel N (p_Buffer pn') (h @ since r ts) ps \<and>
    printed r (sent b) = printed r (sent a) @ since r ts"
  using assms
proof (induction ts arbitrary: a pn h)
  case (Cons t ts)
  obtain q m where t: "t = (q, m)" by (cases t)
  from Cons.prems(1) obtain a1 where a1: "sender_turn E q m a = Some a1"
    and rest: "each (turn E) ts a1 = Some b"
    by (auto simp: t split: option.splits)
  show ?case
  proof (cases "q = r")
    case False
    with other_sender_effect [OF a1] Cons.IH [OF rest _ Cons.prems(3,4)] Cons.prems(2) show ?thesis
      by (simp add: t since_def)
  next
    case True
    from add_rel [OF Cons.prems(4), of m] obtain buf where buf: "add m (p_Buffer pn) = Some buf"
      "buf_rel N buf (h @ m) ps" by blast
    let ?pn = "pn\<lparr>p_vt := map_option (\<lambda>ops. ops @ [VtWrite m]) (p_vt pn), p_Buffer := buf\<rparr>"
    let ?d = "deliver E m (clients_of E r a) a"
    have b1: "a1 = emit (Printed r m) (set_pane r ?pn ?d)"
      using a1 Cons.prems(2,3) buf(1) by (simp add: True sender_turn_def Let_def)
    have pr: "printed r (sent a1) = printed r (sent a) @ m" by (simp add: b1 printed_deliver)
    have at: "pane_at a1 r = Some ?pn" by (simp add: b1)
    have "buf_rel N (p_Buffer ?pn) (h @ m) ps" using buf(2) by simp
    from Cons.IH [OF rest at _ this] Cons.prems(3) pr show ?thesis by (simp add: t True since_def)
  qed
qed (simp add: since_def)

text \<open>C6. From a mark to its restore: if after a client's \<open>mark\<close> the next things that happen are turns of the
  senders, of whichever panes, then the history of a pane read with his marker delivers, to a channel
  that takes it, exactly what that pane has printed since, in one piece. It takes that no buffer is
  locked at the mark, that less than the buffer's 100000 bytes of the pane were printed since, and that,
  unless that is nothing, the number of bytes printed in all is no multiple of that size.\<close>

theorem mark_then_restore:
  assumes "agent_reachable a" and "env_ok E" and "handleMark E p m a = Some a1"
    and "\<forall>q qn. pane_at a q = Some qn \<longrightarrow> \<not> p_stuck qn"
    and "0 \<le> lastMarker a" and "lastMarker a < max_int" and "pane_at a r = Some pn"
    and "each (turn E) ts a1 = Some a2" and "length (since r ts) < 100000"
    and "since r ts = [] \<or> length (printed r (sent a2)) mod 100000 \<noteq> 0" and "e_send_ok E' d"
  shows "\<exists>pr a3. peer_at a1 p = Some pr \<and> fire E' (SendSince d r (pr_Marker pr)) a2 = Some a3 \<and>
    sent a3 = sent a2 @ [Sent d (since r ts)]"
proof -
  note inv = reachable_inv [OF assms(1)]
  let ?n = "lastMarker a + 1" and ?h = "blank pane_buffer_size @ printed r (sent a)"
  have n: "go_inc (lastMarker a) = ?n" using assms(6) by simp
  from handleMark_effect [OF inv assms(2-4), of r, unfolded n] assms(7) obtain pr where
    e1: "pane_at a1 r = Some (marked ?n pn)" "printed r (sent a1) = printed r (sent a)"
      "peer_at a1 p = Some pr" "pr_Marker pr = ?n" by auto
  have free: "\<not> p_stuck (marked ?n pn)" using assms(4,7) by (simp add: marked_def)
  obtain ps where "buf_rel pane_buffer_size (p_Buffer pn) ?h ps"
    using inv assms(7) by (rule history_ok_rel)
  from mark_rel [OF this, of ?n]
  have "buf_rel pane_buffer_size (p_Buffer (marked ?n pn)) ?h (ps(?n \<mapsto> length ?h))"
    by (simp only: marked_buffer)
  from senders_effect [OF assms(8) e1(1) free this] obtain pn2 where
    pn2: "pane_at a2 r = Some pn2" "\<not> p_stuck pn2"
      "buf_rel pane_buffer_size (p_Buffer pn2) (?h @ since r ts) (ps(?n \<mapsto> length ?h))"
      "printed r (sent a2) = printed r (sent a1) @ since r ts" by blast
  have "length (?h @ since r ts) mod pane_buffer_size = length (printed r (sent a2)) mod 100000"
    by (simp add: pn2(4) e1(2))
  then have "spec_get pane_buffer_size (?h @ since r ts) (ps(?n \<mapsto> length ?h)) ?n = Some (since r ts)"
    using assms(5,9,10) by (auto simp: spec_get_def spec_recent_def)
  then have "getSinceMarker ?n (p_Buffer pn2) = Some (Returns (since r ts, drop_marker ?n (p_Buffer pn2)))"
    by (simp add: getSinceMarker_rel [OF pn2(3)])
  then show ?thesis
    using e1 pn2(1,2) assms(11) by (simp add: fire_def dc_send_def)
qed

theorem mark_then_restore_witness:
  "\<exists>a1 a2 a3 n. handleMark demo_env 0 \<lparr>cm_time = 0, cm_ref = 1, cm_type = ''mark'', cm_raw = None,
       cm_bound = True\<rparr> demo_running = Some a1 \<and>
     each (turn demo_env) [(0, ''he''), (0, ''llo'')] a1 = Some a2 \<and>
     fire demo_env (SendSince 9 0 n) a2 = Some a3 \<and> sent a3 = sent a2 @ [Sent 9 ''hello'']"
proof -
  note inv = reachable_inv [OF demo_running_reachable]
  let ?m = "\<lparr>cm_time = 0, cm_ref = 1, cm_type = ''mark'', cm_raw = None, cm_bound = True\<rparr>"
  have cdc: "has_cdc demo_running 0" by (simp add: has_cdc_def demo_running_def demo_peer_def)
  obtain a1 where a1: "handleMark demo_env 0 ?m demo_running = Some a1"
    using handleMark_total [OF inv demo_env_ok cdc] by blast
  have free: "\<forall>q qn. pane_at demo_running q = Some qn \<longrightarrow> \<not> p_stuck qn"
    by (simp add: demo_running_def demo_pane_def)
  have pn: "pane_at demo_running 0 = Some demo_pane" by (simp add: demo_running_def)
  note e = handleMark_effect [OF inv demo_env_ok a1 free, of 0]
  have i1: "agent_inv a1" using keepsD(1) [OF handleMark_keeps [OF a1] inv] .
  have "has_pane a1 0" using e pn by (simp add: has_pane_def)
  have total: "\<exists>b. each (turn demo_env) ts x = Some b \<and> agent_inv b \<and> has_pane b 0"
    if "agent_inv x \<and> has_pane x 0" "\<forall>t \<in> set ts. fst t = 0" for ts x
  proof (rule each_total [where P = "\<lambda>b. agent_inv b \<and> has_pane b 0"])
    fix t s
    assume t: "t \<in> set ts" and s: "agent_inv s \<and> has_pane s 0"
    then obtain qn where "pane_at s 0 = Some qn" by (auto simp: has_pane_def)
    with s obtain b where "sender_turn demo_env 0 (snd t) s = Some b"
      using sender_turn_total by blast
    moreover from this have "keeps s b" by (rule sender_turn_keeps)
    ultimately show "\<exists>b. turn demo_env t s = Some b \<and> agent_inv b \<and> has_pane b 0"
      using s t that(2) by (metis has_pane_grows keepsD(1,2))
  qed (rule that(1))
  obtain a2 where a2: "each (turn demo_env) [(0, ''he''), (0, ''llo'')] a1 = Some a2"
    using total [of a1 "[(0, ''he''), (0, ''llo'')]"] i1 \<open>has_pane a1 0\<close> by auto
  have p1: "printed 0 (sent a1) = []" using e by (simp add: demo_running_def printed_def)
  obtain pn1 where pn1: "pane_at a1 0 = Some pn1" "\<not> p_stuck pn1"
    using e pn by (auto simp: marked_def demo_pane_def)
  obtain ps where "buf_rel pane_buffer_size (p_Buffer pn1) (blank pane_buffer_size @ printed 0 (sent a1)) ps"
    using i1 pn1(1) by (rule history_ok_rel)
  from senders_effect [OF a2 pn1 this] p1 have "printed 0 (sent a2) = ''hello''" by (auto simp: since_def)
  with mark_then_restore [OF demo_running_reachable demo_env_ok a1 free _ _ pn a2, of demo_env 9] a1 a2
  show ?thesis by (auto simp: since_def demo_running_def max_int_def)
qed

subsection \<open>A pane that fails to start\<close>

text \<open>C20. When the command of an \<open>add_pane\<close> fails to start, the error is ignored: all the client is sent
  is the welcome on the new channel and an acknowledgement with the id of the pane on his control
  channel, the channel is registered, and the first bytes the client then types bring the agent
  down, because the pane has no terminal.\<close>

theorem failed_add_pane_panics:
  assumes "agent_reachable a" and "room a" and "on_open a d = Some (OpenAddPane p m r cmd)"
    and "pane_at a r = Some pn" and "peer_at a (p_peer pn) = Some pr"
    and "run_command E cmd (p_Ws pn) (p_parent pn) (pr_FP pr) = Some None"
  shows "\<exists>b q. channel_opens E d a = Some b \<and> peer_at a p = Some q \<and> pr_cdc q \<noteq> None \<and>
    sent b = sent a @
      (case e_welcome E of Some w \<Rightarrow> if e_send_ok E d then [Sent d w] else [] | None \<Rightarrow> []) @
      ack_sent E m (show_int (p_ID pn)) q \<and>
    registrations d r b \<noteq> {} \<and> message_arrives E' d bs msg b = None"
proof -
  note inv = reachable_inv [OF assms(1)]
  have new: "p_TTY pn = None" using agent_invD(5) [OF inv] assms(3,4) unfolding waiting_ok_def by blast
  have "has_cdc a p" using agent_invD(4) [OF inv] assms(3) by (force simp: callbacks_ok_def)
  then obtain q where q: "peer_at a p = Some q" "pr_cdc q \<noteq> None" by (auto simp: has_cdc_def)
  let ?a0 = "a\<lparr>on_open := (on_open a)(d := None)\<rparr>"
  define a1 where "a1 = (case e_welcome E of None \<Rightarrow> ?a0 | Some w \<Rightarrow> fst (dc_send E d w ?a0))"
  have same: "pane_at a1 = pane_at a" "peer_at a1 = peer_at a" "CDB a1 = CDB a"
    by (auto simp: a1_def split: option.split)
  have greeting: "sent a1 = sent a @
      (case e_welcome E of Some w \<Rightarrow> if e_send_ok E d then [Sent d w] else [] | None \<Rightarrow> [])"
    by (simp add: a1_def dc_send_def split: option.split)
  have run: "pane_run E r cmd a1 = Some (a1, False)"
    using assms(4-6) same by (simp add: pane_run_def)
  obtain a3 c where a3: "add_client d r p a1 = (a3, c)" by fastforce
  have s3: "peer_at a3 = peer_at a" "pane_at a3 = pane_at a" "sent a3 = sent a1"
    using a3 same by (auto simp: add_client_def split: prod.splits)
  have "has_cdc a3 p" using q by (simp add: has_cdc_def s3)
  then obtain a4 where a4: "sendAck E p m (show_int (pane_id a3 r)) a3 = Some a4"
    using sendAck_total by blast
  let ?b = "a4\<lparr>on_msg := (on_msg a4)(d \<mapsto> ToPane p r), on_close := (on_close a4)(d \<mapsto> c)\<rparr>"
  have "channel_opens E d a = Some ?b"
    using assms(3) run a3 a4 by (simp add: channel_opens_def opened_add_pane_def Let_def a1_def)
  moreover have "registrations d r ?b \<noteq> {}"
  proof -
    have "CDB a4 = CDB a3"
      using a4 by (auto simp: sendAck_def sendControlMessage_def newCTRLMessage_def sendMessage_def Let_def
          split: bind_splits if_splits)
    moreover have "lastID (CDB a) \<in> registrations d r a3"
      using a3 same by (auto simp: registrations_def add_client_def clients_add_def Let_def)
    ultimately show ?thesis by (auto simp: registrations_def)
  qed
  moreover have "sent ?b = sent a @
      (case e_welcome E of Some w \<Rightarrow> if e_send_ok E d then [Sent d w] else [] | None \<Rightarrow> []) @
      ack_sent E m (show_int (p_ID pn)) q"
    using sendAck_sent [OF a4, of q] q(1) s3 greeting assms(4) by (simp add: pane_id_def)
  moreover have "message_arrives E' d bs msg ?b = None"
    using sendAck_effect(1) [OF a4] s3 assms(4) new
    by (simp add: message_arrives_def pane_onMessage_def setLastPeer_def)
  ultimately show ?thesis using q by blast
qed

theorem failed_add_pane_panics_witness:
  "\<exists>b msg. channel_opens demo_fail 2 demo_added = Some b \<and> SentControl 0 msg \<in> set (sent b) \<and>
     om_type msg = ''ack'' \<and> message_arrives demo_env 2 ''x'' None b = None"
proof -
  have "room demo_added"
    by (simp add: room_def demo_added_def demo_control_def newClientsDB_def panes_left_def
        clients_left_def max_int_def)
  moreover have "on_open demo_added 2 = Some (OpenAddPane 0 demo_add_message 0 [''nosuch''])"
    "pane_at demo_added 0 = Some demo_new_pane" by (simp_all add: demo_added_def)
  moreover have peer: "peer_at demo_added 0 = Some demo_peer" by (simp add: demo_added_def demo_control_def)
  then have "peer_at demo_added (p_peer demo_new_pane) = Some demo_peer"
    by (simp add: demo_new_pane_def fresh_pane_def)
  moreover have "run_command demo_fail [''nosuch''] ws (p_parent demo_new_pane) fp = Some None" for ws fp
    by (simp add: run_command_def execCommand_def exec_dir_def demo_new_pane_def demo_fail_def
        fresh_pane_def)
  ultimately obtain b q where b: "channel_opens demo_fail 2 demo_added = Some b" "peer_at demo_added 0 = Some q"
    "sent b = sent demo_added @
       (case e_welcome demo_fail of Some w \<Rightarrow> if e_send_ok demo_fail 2 then [Sent 2 w] else [] | None \<Rightarrow> []) @
       ack_sent demo_fail demo_add_message (show_int (p_ID demo_new_pane)) q"
    "message_arrives demo_env 2 ''x'' None b = None"
    using failed_add_pane_panics [OF demo_added_reachable, of 2 0 demo_add_message 0 "[''nosuch'']"
        demo_new_pane demo_peer demo_fail demo_env "''x''" None] by blast
  from b(2) peer have "q = demo_peer" by simp
  with b show ?thesis
    by (intro exI [of _ b] exI [of _ "om_ack demo_fail demo_add_message (show_int (p_ID demo_new_pane)) demo_peer"])
      (simp add: ack_sent_def om_ack_def demo_peer_def demo_fail_def)
qed

end
