(* ===== verification/Signaling.thy ===== *)
theory Signaling
  imports Offers
begin

section \<open>What the three ways of signaling share\<close>

text \<open>
  A client reaches the agent over HTTP, over the unix socket or through peerbook. All three take a
  session description, read its fingerprint, make a peer and answer. \<open>rtc\<close> holds the answers of
  the WebRTC library for one such exchange: parsing the text of a description, the calls on the
  connection, and the JSON of descriptions and candidates.
\<close>

record description =
  d_type :: bytes
  d_sdp :: bytes

record rtc =
  rtc_sdp :: "bytes \<Rightarrow> sdp option"
  rtc_set_remote :: "description \<Rightarrow> bool"
  rtc_create_answer :: "description option"
  rtc_set_local :: "description \<Rightarrow> bool"
  rtc_local :: description
  rtc_lost :: bool
  rtc_marshal :: "description \<Rightarrow> bytes option"
  rtc_unmarshal :: "bytes \<Rightarrow> description option"
  rtc_candidate :: "bytes \<Rightarrow> bytes option"

definition offer_fingerprint :: "rtc \<Rightarrow> description \<Rightarrow> (fingerprint_error + bytes) option" where
  "offer_fingerprint R offer = getFingerprint (rtc_sdp R (d_sdp offer))"

text \<open>\<open>Listen\<close>: whether the candidates are gathered in time makes no difference to the result. A peer
  without a connection is a nil dereference. \<open>rtc_lost\<close>: the connection, which the library tries to
  make as soon as the local description is set, fails while \<open>Listen\<close> waits for the candidates; then the
  callback closes the peer, and there is nothing to take the local description from.\<close>

datatype listen_error = RemoteFailed | AnswerFailed | LocalFailed

definition listen :: "rtc \<Rightarrow> peer_ref \<Rightarrow> description \<Rightarrow> agent \<Rightarrow> (listen_error + description) option" where
  "listen R p offer a = do {
     pr \<leftarrow> peer_at a p;
     if \<not> pr_PC pr then None
     else Some (if \<not> rtc_set_remote R offer then Inl RemoteFailed
                else case rtc_create_answer R of
                       None \<Rightarrow> Inl AnswerFailed
                     | Some ans \<Rightarrow>
                         if \<not> rtc_set_local R ans then Inl LocalFailed else Inr (rtc_local R))
   }"

text \<open>\<open>listens\<close> is the call with the wait in it: the agent afterwards, and \<open>None\<close> for a panic.\<close>

definition listens ::
  "rtc \<Rightarrow> peer_ref \<Rightarrow> description \<Rightarrow> agent \<Rightarrow> agent \<times> (listen_error + description) option" where
  "listens R p offer a =
     (case listen R p offer a of
        Some (Inr ans) \<Rightarrow>
          (if rtc_lost R then (case peer_close p a of Some b \<Rightarrow> b | None \<Rightarrow> a, None) else (a, Some (Inr ans)))
      | res \<Rightarrow> (a, res))"

subsection \<open>New peers\<close>

lemma newPeer_Some:
  assumes "newPeer E fp a = (b, Some p)"
  shows "Peers b = (Peers a)(fp \<mapsto> p)"
    and "\<exists>pr. peer_at b p = Some pr \<and> pr_PC pr \<and> pr_FP pr = fp \<and> pr_cdc pr = None"
    and "e_new_pc E" and "p = next_peer a"
  using assms by (auto simp: newPeer_def Let_def split: if_splits)

lemma newPeer_None: "newPeer E fp a = (b, None) \<Longrightarrow> b = a"
  by (auto simp: newPeer_def Let_def split: if_splits)

lemma listen_new:
  assumes "newPeer E fp a = (b, Some p)"
  shows "\<exists>res. listen R p offer b = Some res"
  using newPeer_Some(2) [OF assms] by (auto simp: listen_def)

text \<open>\<open>joins E fp a p b\<close>: the agent after \<open>NewPeer\<close>, whose peer may have lost its connection since.\<close>

definition joins :: "env \<Rightarrow> bytes \<Rightarrow> agent \<Rightarrow> peer_ref \<Rightarrow> agent \<Rightarrow> bool" where
  "joins E fp a p b \<longleftrightarrow> (\<exists>b0. newPeer E fp a = (b0, Some p) \<and> (b = b0 \<or> peer_close p b0 = Some b))"

lemma joinsD:
  assumes "joins E fp a p b"
  shows "Peers b = (Peers a)(fp \<mapsto> p)" and "has_peer b p" and "p = next_peer a"
    and "has_peer a q \<Longrightarrow> has_peer b q"
proof -
  from assms obtain b0 where b0: "newPeer E fp a = (b0, Some p)" "b = b0 \<or> peer_close p b0 = Some b"
    by (auto simp: joins_def)
  then have closed: "Peers b = Peers b0" "has_peer b0 r \<longrightarrow> has_peer b r" for r
    by (auto simp: peer_close_def has_peer_def split: bind_splits)
  with newPeer_Some [OF b0(1)] show "Peers b = (Peers a)(fp \<mapsto> p)" "has_peer b p" "p = next_peer a"
    by (auto simp: has_peer_def)
  have "has_peer a q \<Longrightarrow> has_peer b0 q"
    using b0(1) by (auto simp: newPeer_def Let_def has_peer_def split: if_splits)
  then show "has_peer a q \<Longrightarrow> has_peer b q" using closed(2) by blast
qed

lemma listens_joins:
  assumes "newPeer E fp a = (a1, Some p)" and "listens R p offer a1 = (b, res)"
  shows "joins E fp a p b" and "res = Some (Inr ans) \<Longrightarrow> b = a1"
  using assms by (auto simp: joins_def listens_def split: option.splits sum.splits if_splits)

text \<open>A fingerprint taken from an offer has no colons and no lower case letters.\<close>

lemma compressFP_idem: "compressFP (compressFP s) = compressFP s"
proof -
  have "filter (\<lambda>d. d \<noteq> CHR '':'') (map upper (filter (\<lambda>d. d \<noteq> CHR '':'') s)) =
      map upper (filter (\<lambda>d. d \<noteq> CHR '':'') s)"
    by (auto simp: filter_id_conv)
  then show ?thesis by (simp add: compressFP_def remove_all_def to_upper_def)
qed

lemma getFingerprint_canonical:
  assumes "getFingerprint s = Some (Inr fp)"
  shows "compressFP fp = fp"
  using assms
  by (auto simp: getFingerprint_def Let_def compressFP_idem split: option.splits if_splits list.splits)

end
