(* ===== verification/Web_Server.thy ===== *)
theory Web_Server
  imports Signaling Agent_Steps File_Auth
begin

section \<open>The HTTP server: httpserver/http.go\<close>

text \<open>
  \<open>ConnectHandler\<close> with its three handlers. A request is what they read of it; \<open>rq_body\<close> is
  \<open>None\<close> when the body cannot be read. The text of an error answer is represented by its reason.
  \<open>net/http\<close> recovers the panic of a handler and drops the connection: that is \<open>Aborted\<close>, and what
  the handler did before it stays done. \<open>Unanswered\<close> is a handler that blocks for ever.
\<close>

type_synonym uuid = bytes

record request =
  rq_method :: bytes
  rq_authorization :: bytes
  rq_body :: "bytes option"
  rq_path :: bytes
  rq_forwarded_proto :: bytes
  rq_host :: bytes

datatype refusal =
    InvalidMethod
  | BodyUnreadable
  | BadFingerprint fingerprint_error
  | Unauthorized
  | PeerFailed
  | ListenFailed listen_error
  | InvalidSession
  | SessionUnknown
  | BadCandidate
  | CandidateRefused
  | BadRequest
  | BadOffer offer_error
  | EncodeFailed offer_error
  | NoHandler

datatype reply =
    Refused nat refusal
  | Replied nat "(bytes \<times> bytes) list" bytes
  | Aborted
  | Unanswered

text \<open>\<open>AuthBackend\<close>, the generator and parser of uuids, and the lexer of JSON come from outside.\<close>

record web_env =
  w_env :: env
  w_rtc :: rtc
  w_authorized :: "bytes list \<Rightarrow> bool"
  w_uuid :: uuid
  w_parse_uuid :: "bytes \<Rightarrow> uuid option"
  w_json :: "bytes \<Rightarrow> raw option"

record server =
  sv_agent :: agent
  sv_sessions :: "uuid \<rightharpoonup> peer_ref"

definition newConnectHandler :: "agent \<Rightarrow> server" where
  "newConnectHandler a = \<lparr>sv_agent = a, sv_sessions = Map.empty\<rparr>"

subsection \<open>Authorization\<close>

text \<open>The bearer token: what follows the first seven bytes of the header, \<open>None\<close> when it is too
  short. The word before the token is not looked at.\<close>

definition bearer_of :: "bytes \<Rightarrow> bytes option" where
  "bearer_of authorization =
     (if authorization = [] then Some []
      else if length authorization < 8 then None else Some (drop 7 authorization))"

definition request_authorized :: "web_env \<Rightarrow> request \<Rightarrow> bytes \<Rightarrow> bool" where
  "request_authorized W r fp =
     (case bearer_of (rq_authorization r) of
        None \<Rightarrow> False | Some bearer \<Rightarrow> w_authorized W [fp, bearer])"

text \<open>What \<open>HandleOffer\<close> and \<open>HandleConnect\<close> do with an offer: the reply that ends the request, or
  the new peer and its answer.\<close>

definition admit :: "web_env \<Rightarrow> request \<Rightarrow> description \<Rightarrow> agent \<Rightarrow> agent \<times> (reply + peer_ref \<times> description)" where
  "admit W r offer a =
     (case offer_fingerprint (w_rtc W) offer of
        None \<Rightarrow> (a, Inl Aborted)
      | Some (Inl e) \<Rightarrow> (a, Inl (Refused 400 (BadFingerprint e)))
      | Some (Inr fp) \<Rightarrow>
          if \<not> request_authorized W r fp then (a, Inl (Refused 401 Unauthorized))
          else (case newPeer (w_env W) fp a of
                  (a1, None) \<Rightarrow> (a1, Inl (Refused 500 PeerFailed))
                | (a1, Some p) \<Rightarrow>
                    (case listens (w_rtc W) p offer a1 of
                       (a2, None) \<Rightarrow> (a2, Inl Aborted)
                     | (a2, Some (Inl e)) \<Rightarrow> (a2, Inl (Refused 500 (ListenFailed e)))
                     | (a2, Some (Inr ans)) \<Rightarrow> (a2, Inr (p, ans)))))"

subsection \<open>POST /offer\<close>

fun show_hex :: "nat \<Rightarrow> bytes" where
  "show_hex n = (if n < 16 then [''0123456789abcdef'' ! n]
                 else show_hex (n div 16) @ [''0123456789abcdef'' ! (n mod 16)])"

declare show_hex.simps [simp del]

definition candidates_path :: bytes where
  "candidates_path = ''/candidates/''"

definition session_url :: "request \<Rightarrow> uuid \<Rightarrow> bytes" where
  "session_url r sid =
     (let scheme = (if rq_forwarded_proto r = [] then ''http'' else rq_forwarded_proto r)
      in scheme @ ''://'' @ rq_host r @ candidates_path @ sid)"

definition offer_headers :: "web_env \<Rightarrow> request \<Rightarrow> (bytes \<times> bytes) list" where
  "offer_headers W r =
     [(''Access-Control-Allow-Origin'', ''*''), (''Access-Control-Expose-Headers'', ''Location''),
      (''Content-Type'', ''application/sdp''),
      (''ETag'', show_hex (nat (e_now (w_env W) div 1000000000))),
      (''Location'', session_url r (w_uuid W))]"

definition handleOffer :: "web_env \<Rightarrow> request \<Rightarrow> server \<Rightarrow> server \<times> reply" where
  "handleOffer W r s =
     (if rq_method r \<noteq> ''POST'' then (s, Refused 400 InvalidMethod)
      else case rq_body r of
        None \<Rightarrow> (s, Refused 400 BodyUnreadable)
      | Some sdp \<Rightarrow>
          (case admit W r \<lparr>d_type = ''offer'', d_sdp = sdp\<rparr> (sv_agent s) of
             (a, Inl rep) \<Rightarrow> (s\<lparr>sv_agent := a\<rparr>, rep)
           | (a, Inr (p, ans)) \<Rightarrow>
               (s\<lparr>sv_agent := a, sv_sessions := (sv_sessions s)(w_uuid W \<mapsto> p)\<rparr>,
                Replied 201 (offer_headers W r) (d_sdp ans))))"

text \<open>The goroutine that waits for \<open>SessionTTL\<close>.\<close>

definition sessionTTL :: int where
  "sessionTTL = 30 * 10 ^ 9"

definition expire :: "uuid \<Rightarrow> server \<Rightarrow> server" where
  "expire sid s =
     (if sv_sessions s sid = None then s else s\<lparr>sv_sessions := (sv_sessions s)(sid := None)\<rparr>)"

subsection \<open>PATCH and DELETE /candidates/\<close>

text \<open>The end of \<open>HandleCandidate\<close>, once the peer is found.\<close>

definition patch_candidate :: "web_env \<Rightarrow> request \<Rightarrow> peer_ref \<Rightarrow> agent \<Rightarrow> agent \<times> reply" where
  "patch_candidate W r p a =
     (case rq_body r of
        None \<Rightarrow> (a, Refused 400 BodyUnreadable)
      | Some js \<Rightarrow>
          (case rtc_candidate (w_rtc W) js of
             None \<Rightarrow> (a, Refused 400 BadCandidate)
           | Some c \<Rightarrow>
               (case addCandidate (w_env W) p c a of
                  None \<Rightarrow> (a, Aborted)
                | Some (a1, Waits) \<Rightarrow> (a1, Unanswered)
                | Some (a1, Added False) \<Rightarrow> (a1, Refused 500 CandidateRefused)
                | Some (a1, _) \<Rightarrow> (a1, Replied 204 [] []))))"

definition handleCandidate :: "web_env \<Rightarrow> request \<Rightarrow> server \<Rightarrow> server \<times> reply" where
  "handleCandidate W r s =
     (if length (rq_path r) < length candidates_path then (s, Aborted)
      else case w_parse_uuid W (drop (length candidates_path) (rq_path r)) of
        None \<Rightarrow> (s, Refused 400 InvalidSession)
      | Some sid \<Rightarrow>
          if rq_method r = ''DELETE''
          then (s\<lparr>sv_sessions := (sv_sessions s)(sid := None)\<rparr>, Replied 204 [] [])
          else if rq_method r \<noteq> ''PATCH'' then (s, Refused 400 InvalidMethod)
          else (case sv_sessions s sid of
                  None \<Rightarrow> (s, Refused 404 SessionUnknown)
                | Some p \<Rightarrow>
                    (case patch_candidate W r p (sv_agent s) of (a, rep) \<Rightarrow> (s\<lparr>sv_agent := a\<rparr>, rep))))"

subsection \<open>POST /connect\<close>

record connectRequest =
  cr_fingerprint :: bytes
  cr_api_version :: int
  cr_offer :: bytes

definition put_connect :: "bytes \<Rightarrow> raw \<Rightarrow> connectRequest \<Rightarrow> connectRequest option" where
  "put_connect k v c =
     (if field_is ''fingerprint'' k
      then map_option (\<lambda>x. c\<lparr>cr_fingerprint := x\<rparr>) (dec_string (cr_fingerprint c) v)
      else if field_is ''api_version'' k
      then map_option (\<lambda>x. c\<lparr>cr_api_version := x\<rparr>) (dec_int (cr_api_version c) v)
      else if field_is ''offer'' k then map_option (\<lambda>x. c\<lparr>cr_offer := x\<rparr>) (dec_string (cr_offer c) v)
      else Some c)"

definition dec_connect :: "raw option \<Rightarrow> connectRequest option" where
  "dec_connect = unmarshal put_connect \<lparr>cr_fingerprint = [], cr_api_version = 0, cr_offer = []\<rparr>"

definition parsePeerReq :: "web_env \<Rightarrow> bytes option \<Rightarrow> refusal + description" where
  "parsePeerReq W body =
     (case dec_connect (Option.bind body (w_json W)) of
        None \<Rightarrow> Inl BadRequest
      | Some cr \<Rightarrow>
          (case decodeOffer (rtc_unmarshal (w_rtc W)) (cr_offer cr) of
             Inl e \<Rightarrow> Inl (BadOffer e) | Inr offer \<Rightarrow> Inr offer))"

definition handleConnect :: "web_env \<Rightarrow> request \<Rightarrow> server \<Rightarrow> server \<times> reply" where
  "handleConnect W r s =
     (if rq_method r \<noteq> ''POST'' then (s, Refused 405 InvalidMethod)
      else case parsePeerReq W (rq_body r) of
        Inl e \<Rightarrow> (s, Refused 400 e)
      | Inr offer \<Rightarrow>
          (case admit W r offer (sv_agent s) of
             (a, Inl rep) \<Rightarrow> (s\<lparr>sv_agent := a\<rparr>, rep)
           | (a, Inr (p, ans)) \<Rightarrow>
               (s\<lparr>sv_agent := a\<rparr>,
                case encodeOffer 4096 (rtc_marshal (w_rtc W)) ans of
                  None \<Rightarrow> Aborted
                | Some (Inl e) \<Rightarrow> Refused 400 (EncodeFailed e)
                | Some (Inr payload) \<Rightarrow> Replied 200 [] payload)))"

subsection \<open>Routing\<close>

text \<open>The three patterns of \<open>AddHandlers\<close> in a \<open>ServeMux\<close>, for a path in its clean form.\<close>

definition serve :: "web_env \<Rightarrow> request \<Rightarrow> server \<Rightarrow> server \<times> reply" where
  "serve W r s =
     (if rq_path r = ''/connect'' then handleConnect W r s
      else if rq_path r = ''/offer'' then handleOffer W r s
      else if take (length candidates_path) (rq_path r) = candidates_path then handleCandidate W r s
      else if rq_path r = ''/candidates'' then (s, Replied 301 [(''Location'', candidates_path)] [])
      else (s, Refused 404 NoHandler))"

text \<open>What \<open>GetHandler\<close> tells the CORS library, and the server \<open>StartHTTPServer\<close> makes.\<close>

record cors_options =
  AllowedOrigins :: "bytes list"
  AllowedMethods :: "bytes list"
  AllowedHeaders :: "bytes list"

definition getHandler :: "(cors_options \<Rightarrow> 'h \<Rightarrow> 'h) \<Rightarrow> 'h \<Rightarrow> 'h" where
  "getHandler cors mux =
     cors \<lparr>AllowedOrigins = [''*''], AllowedMethods = [''POST'', ''PATCH'', ''DELETE''], AllowedHeaders = [''*'']\<rparr> mux"

definition startHTTPServer :: "(cors_options \<Rightarrow> 'h \<Rightarrow> 'h) \<Rightarrow> 'h \<Rightarrow> bytes \<Rightarrow> bytes \<times> 'h" where
  "startHTTPServer cors mux address = (address, getHandler cors mux)"

text \<open>Each method a handler takes is one that pages from anywhere may use.\<close>

lemma cors_methods:
  assumes "serve W r s = (t, Replied n hs b)" and "n \<noteq> 301"
  shows "rq_method r \<in> set [''POST'', ''PATCH'', ''DELETE'']"
  using assms
  by (auto simp: serve_def handleConnect_def handleOffer_def handleCandidate_def
      split: if_splits option.splits prod.splits sum.splits)

subsection \<open>What a request can change\<close>

lemma admit_cases:
  assumes "admit W r offer a = (b, res)"
  obtains "b = a" "\<And>p ans. res \<noteq> Inr (p, ans)"
  | fp p where "offer_fingerprint (w_rtc W) offer = Some (Inr fp)" "request_authorized W r fp"
      "joins (w_env W) fp a p b"
      "\<And>q ans. res = Inr (q, ans) \<Longrightarrow> q = p \<and> newPeer (w_env W) fp a = (b, Some p)"
proof (cases "b = a \<and> (\<forall>p ans. res \<noteq> Inr (p, ans))")
  case False
  with assms obtain fp where fp: "offer_fingerprint (w_rtc W) offer = Some (Inr fp)"
    and auth: "request_authorized W r fp"
    by (auto simp: admit_def split: option.splits sum.splits if_splits)
  obtain a1 np where np: "newPeer (w_env W) fp a = (a1, np)" by (cases "newPeer (w_env W) fp a")
  show thesis
  proof (cases np)
    case None
    with assms fp auth np newPeer_None [of "w_env W" fp a a1] have "b = a \<and> (\<forall>p ans. res \<noteq> Inr (p, ans))"
      by (auto simp: admit_def)
    with False show thesis by simp
  next
    case (Some p)
    obtain a2 l where l: "listens (w_rtc W) p offer a1 = (a2, l)" by fastforce
    note j = listens_joins [OF np [unfolded Some] l]
    have "b = a2" "\<And>q ans. res = Inr (q, ans) \<Longrightarrow> q = p \<and> l = Some (Inr ans)"
      using assms fp auth np Some l by (auto simp: admit_def split: option.splits sum.splits)
    with fp auth np Some j that(2) show thesis by blast
  qed
qed (use that(1) in blast)

lemma joins_reachable: "joins E fp a p b \<Longrightarrow> agent_reachable a \<Longrightarrow> agent_reachable b"
  by (auto simp: joins_def intro: agent_reachable.step agent_step_connect agent_step_hang_up)

lemma admit_keeps_peers:
  assumes "admit W r offer a = (b, res)"
  shows "agent_reachable a \<Longrightarrow> agent_reachable b"
    and "res = Inr (p, ans) \<Longrightarrow> has_peer b p"
  using assms by (cases rule: admit_cases; auto intro: joins_reachable dest: joinsD(2))+

lemma patch_candidate_agent:
  assumes "patch_candidate W r p a = (b, rep)"
  shows "b = a \<or> (\<exists>c res. addCandidate (w_env W) p c a = Some (b, res))"
  using assms
  by (simp add: patch_candidate_def split: option.splits prod.splits candidate_result.splits bool.splits;
      blast)

lemma patch_candidate_replies:
  assumes "has_peer a p" and "patch_candidate W r p a = (b, rep)"
  shows "rep \<noteq> Aborted"
proof -
  have no: "(addCandidate (w_env W) p c a = None) = False" for c
    using assms(1) by (auto simp: addCandidate_def has_peer_def)
  with assms(2) show ?thesis
    by (auto simp: patch_candidate_def no split: option.splits candidate_result.splits bool.splits)
qed

lemma handleCandidate_cases:
  assumes "handleCandidate W r s = (t, rep)"
  obtains "t = s" "length candidates_path \<le> length (rq_path r) \<Longrightarrow> rep \<noteq> Aborted"
  | sid where "t = s\<lparr>sv_sessions := (sv_sessions s)(sid := None)\<rparr>" "rep = Replied 204 [] []"
  | sid p b where "sv_sessions s sid = Some p" "t = s\<lparr>sv_agent := b\<rparr>"
      "patch_candidate W r p (sv_agent s) = (b, rep)"
proof (cases "t = s \<and> (length candidates_path \<le> length (rq_path r) \<longrightarrow> rep \<noteq> Aborted)")
  case False
  then obtain sid where len: "\<not> length (rq_path r) < length candidates_path"
    and sid: "w_parse_uuid W (drop (length candidates_path) (rq_path r)) = Some sid"
    using assms by (auto simp: handleCandidate_def split: if_splits option.splits)
  show thesis
  proof (cases "rq_method r = ''DELETE''")
    case True
    with assms len sid show thesis using that(2) [of sid] by (simp add: handleCandidate_def)
  next
    case not_delete: False
    with assms len sid False obtain p where "sv_sessions s sid = Some p" and "rq_method r = ''PATCH''"
      by (auto simp: handleCandidate_def split: if_splits option.splits)
    with assms len sid not_delete show thesis using that(3) [of sid p]
      by (simp add: handleCandidate_def split: prod.splits)
  qed
qed (use that(1) in blast)

end
