(* ===== verification/Web_Properties.thy ===== *)
theory Web_Properties
  imports Web_Server Example_Run Agent_Hosts
begin

section \<open>What the HTTP server guarantees\<close>

text \<open>
  The server and the agent together: requests to the three handlers, the end of a session's time
  and the steps of the agent, in any order. Every state of the agent that such a run reaches is
  reachable for the agent, so the properties of the agent hold in it.
\<close>

definition handled :: "web_env \<Rightarrow> request \<Rightarrow> server \<Rightarrow> server \<times> reply \<Rightarrow> bool" where
  "handled W r s res \<longleftrightarrow>
     res = handleOffer W r s \<or> res = handleConnect W r s \<or> res = handleCandidate W r s"

inductive server_reachable :: "server \<Rightarrow> bool" where
  boot: "agent_reachable a \<Longrightarrow> server_reachable (newConnectHandler a)"
| request: "server_reachable s \<Longrightarrow> handled W r s (t, rep) \<Longrightarrow> server_reachable t"
| expiry: "server_reachable s \<Longrightarrow> server_reachable (expire sid s)"
| agent: "server_reachable s \<Longrightarrow> agent_step (sv_agent s) b \<Longrightarrow> server_reachable (s\<lparr>sv_agent := b\<rparr>)"

definition sessions_ok :: "server \<Rightarrow> bool" where
  "sessions_ok s \<longleftrightarrow> (\<forall>sid p. sv_sessions s sid = Some p \<longrightarrow> has_peer (sv_agent s) p)"

lemma step_has_peer:
  "agent_reachable a \<Longrightarrow> agent_step a b \<Longrightarrow> has_peer a p \<Longrightarrow> has_peer b p"
  using agent_step_inv has_peer_grows reachable_inv by blast

text \<open>A handler reaches its agent by at most one step, and adds at most a session of a new peer.\<close>

lemma handled_agent:
  assumes "handled W r s (t, rep)"
  obtains (same) "sv_agent t = sv_agent s" "\<And>sid p. sv_sessions t sid = Some p \<Longrightarrow> sv_sessions s sid = Some p"
  | (candidate) p c res where "addCandidate (w_env W) p c (sv_agent s) = Some (sv_agent t, res)"
      "sv_sessions t = sv_sessions s"
  | (admitted) offer fp p where "offer_fingerprint (w_rtc W) offer = Some (Inr fp)"
      "request_authorized W r fp" "joins (w_env W) fp (sv_agent s) p (sv_agent t)"
      "\<And>sid q. sv_sessions t sid = Some q \<Longrightarrow> q = p \<or> sv_sessions s sid = Some q"
proof -
  consider (offer) "handleOffer W r s = (t, rep)" | (connect) "handleConnect W r s = (t, rep)"
    | (cand) "handleCandidate W r s = (t, rep)"
    using assms unfolding handled_def by metis
  then show thesis
  proof cases
    case offer
    show thesis
    proof (cases "t = s")
      case False
      with offer obtain sdp b res where
        adm: "admit W r \<lparr>d_type = ''offer'', d_sdp = sdp\<rparr> (sv_agent s) = (b, res)" and
        t: "sv_agent t = b" "case res of Inl _ \<Rightarrow> sv_sessions t = sv_sessions s
          | Inr (p, _) \<Rightarrow> sv_sessions t = (sv_sessions s)(w_uuid W \<mapsto> p)"
        by (auto simp: handleOffer_def split: if_splits option.splits prod.splits sum.splits)
      from adm show thesis
      proof (cases rule: admit_cases)
        case 1
        with t show thesis by (intro same) (auto split: sum.splits)
      next
        case (2 fp p)
        have "q = p \<or> sv_sessions s sid = Some q" if "sv_sessions t sid = Some q" for sid q
          using t(2) 2(4) that by (auto split: sum.splits if_splits)
        with 2 t(1) show thesis by (intro admitted) simp_all
      qed
    qed (use same in simp)
  next
    case connect
    show thesis
    proof (cases "t = s")
      case False
      with connect obtain offer b res where "admit W r offer (sv_agent s) = (b, res)"
        and t: "t = s\<lparr>sv_agent := b\<rparr>"
        by (auto simp: handleConnect_def split: if_splits sum.splits prod.splits)
      then show thesis
      proof (cases rule: admit_cases)
        case 1
        with t show thesis by (intro same) simp_all
      next
        case (2 fp p)
        with t show thesis by (intro admitted) simp_all
      qed
    qed (use same in simp)
  next
    case cand
    then show thesis
    proof (cases rule: handleCandidate_cases)
      case (3 sid p b)
      from patch_candidate_agent [OF 3(3)] 3(2) same candidate show thesis by auto
    qed (auto intro: same split: if_splits)
  qed
qed

text \<open>So the server, too, is a host of its agent.\<close>

inductive web_step :: "server \<Rightarrow> server \<Rightarrow> bool" where
  request: "handled W r s (t, rep) \<Longrightarrow> web_step s t"
| expiry: "web_step s (expire sid s)"
| agent: "agent_step (sv_agent s) b \<Longrightarrow> web_step s (s\<lparr>sv_agent := b\<rparr>)"

lemma joins_carries: "joins E fp a p b \<Longrightarrow> carries a b"
  unfolding joins_def by (metis carries_trans carries_intros(1,3))

lemma handled_carries:
  assumes "handled W r s (t, rep)"
  shows "carries (sv_agent s) (sv_agent t)"
  using assms by (cases rule: handled_agent) (auto intro: carries_intros joins_carries)

interpretation web_host: agent_host sv_agent web_step
proof
  fix s t assume "web_step s t"
  then show "carries (sv_agent s) (sv_agent t)"
    by (cases rule: web_step.cases) (auto simp: expire_def intro: handled_carries step_carries)
qed

lemma server_reachable_inv:
  "server_reachable s \<Longrightarrow> agent_reachable (sv_agent s) \<and> sessions_ok s"
proof (induction rule: server_reachable.induct)
  case (request s W r t rep)
  from request(2) show ?case
  proof (cases rule: handled_agent)
    case same
    with request.IH show ?thesis by (auto simp: sessions_ok_def)
  next
    case (candidate p c res)
    have st: "agent_step (sv_agent s) (sv_agent t)" using candidate(1) by (rule agent_step_candidate)
    with request.IH candidate(2) show ?thesis
      by (auto simp: sessions_ok_def intro: agent_reachable.step step_has_peer)
  next
    case (admitted offer fp p)
    have "agent_reachable (sv_agent t)" using joins_reachable [OF admitted(3)] request.IH by blast
    moreover have "sessions_ok t"
      using joinsD(2,4) [OF admitted(3)] request.IH admitted(4) unfolding sessions_ok_def by blast
    ultimately show ?thesis by simp
  qed
next
  case (agent s b)
  then show ?case by (auto simp: sessions_ok_def intro: agent_reachable.step step_has_peer)
qed (auto simp: newConnectHandler_def sessions_ok_def expire_def)

lemma candidates_never_abort:
  assumes "sessions_ok s" and "length candidates_path \<le> length (rq_path r)"
    and "handleCandidate W r s = (t, rep)"
  shows "rep \<noteq> Aborted"
  using assms(3)
proof (cases rule: handleCandidate_cases)
  case (3 sid p b)
  with assms(1) show ?thesis
    using patch_candidate_replies [of "sv_agent s" p W r b rep] by (auto simp: sessions_ok_def)
qed (use assms(2) in simp_all)

lemma serve_handled: "serve W r s = (t, rep) \<Longrightarrow> t = s \<or> handled W r s (t, rep)"
  by (auto simp: serve_def handled_def split: if_splits)

lemma routed_candidates:
  "take (length candidates_path) (rq_path r) = candidates_path \<Longrightarrow>
   length candidates_path \<le> length (rq_path r)"
  by (metis length_take min_le_iff_disj order_refl)

subsection \<open>A request that the example run answers\<close>

definition demo_description :: description where
  "demo_description = \<lparr>d_type = ''answer'', d_sdp = ''v=0''\<rparr>"

definition demo_rtc :: rtc where
  "demo_rtc =
     \<lparr>rtc_sdp = (\<lambda>t. Some \<lparr>sdp_session = Some ''sha-256 c:d'', sdp_media = []\<rparr>),
      rtc_set_remote = (\<lambda>d. True), rtc_create_answer = Some demo_description,
      rtc_set_local = (\<lambda>d. True), rtc_local = demo_description, rtc_lost = False,
      rtc_marshal = (\<lambda>d. Some ''{}''),
      rtc_unmarshal = (\<lambda>b. if b = ''{}'' then Some demo_description else None),
      rtc_candidate = (\<lambda>b. Some b)\<rparr>"

definition demo_file :: fileAuth where
  "demo_file = \<lparr>tokensFilePath = ''auth''\<rparr>"

definition demo_web :: web_env where
  "demo_web =
     \<lparr>w_env = demo_env, w_rtc = demo_rtc,
      w_authorized = isAuthorized [''auth'' \<mapsto> write_lines [''CD'']] demo_file,
      w_uuid = ''11'', w_parse_uuid = Some,
      w_json = (\<lambda>b. Some (b, JObj [(''offer'', ([], JStr ''e30=''))]))\<rparr>"

definition demo_request :: "bytes \<Rightarrow> bytes \<Rightarrow> request" where
  "demo_request method path =
     \<lparr>rq_method = method, rq_authorization = [], rq_body = Some ''x'', rq_path = path,
      rq_forwarded_proto = [], rq_host = ''h''\<rparr>"

lemma demo_fingerprint: "offer_fingerprint demo_rtc d = Some (Inr ''CD'')"
proof -
  have "getFingerprint (Some \<lparr>sdp_session = Some ''sha-256 c:d'', sdp_media = []\<rparr>) = Some (Inr ''CD'')"
    by code_simp
  then show ?thesis by (simp add: offer_fingerprint_def demo_rtc_def)
qed

lemma demo_authorized: "request_authorized demo_web (demo_request m p) ''CD''"
proof -
  have "isAuthorized [''auth'' \<mapsto> write_lines [''CD'']] demo_file [''CD'', []]"
    by (simp add: isAuthorized_iff demo_file_def raw_lines_def drop_cr_def token_of_def before_def
        max_scan_token_def)
  then show ?thesis by (simp add: request_authorized_def bearer_of_def demo_request_def demo_web_def)
qed

lemma demo_parsed: "parsePeerReq demo_web (Some b) = Inr demo_description"
proof -
  have "b64_decode ''e30='' = Some ''{}''" by code_simp
  moreover have "field_is ''offer'' ''offer''" "\<not> field_is ''fingerprint'' ''offer''"
    "\<not> field_is ''api_version'' ''offer''"
    by code_simp+
  ultimately show ?thesis
    by (simp add: parsePeerReq_def dec_connect_def unmarshal_def put_connect_def dec_string_def
        demo_web_def demo_rtc_def decodeOffer_def)
qed

lemma newPeer_total:
  assumes "e_new_pc E"
  obtains b where "newPeer E fp a = (b, Some (next_peer a))"
  using assms by (auto simp: newPeer_def Let_def)

lemma demo_admits:
  obtains a where
    "admit demo_web (demo_request m path) offer (sv_agent s) = (a, Inr (next_peer (sv_agent s), demo_description))"
    "Peers a = (Peers (sv_agent s))(''CD'' \<mapsto> next_peer (sv_agent s))"
proof -
  have "e_new_pc demo_env" by simp
  then obtain a where a: "newPeer demo_env ''CD'' (sv_agent s) = (a, Some (next_peer (sv_agent s)))"
    by (rule newPeer_total)
  moreover have "listens demo_rtc (next_peer (sv_agent s)) offer a = (a, Some (Inr demo_description))"
    using newPeer_Some(2) [OF a] by (auto simp: listens_def listen_def demo_rtc_def)
  moreover have "w_env demo_web = demo_env" "w_rtc demo_web = demo_rtc" by (simp_all add: demo_web_def)
  ultimately show thesis
    using that [of a] newPeer_Some(1) [OF a]
    by (simp add: admit_def demo_fingerprint demo_authorized)
qed

subsection \<open>Who gets in\<close>

lemma addCandidate_Peers: "addCandidate E p c a = Some (b, res) \<Longrightarrow> Peers b = Peers a"
  by (auto simp: addCandidate_def add_ice_def split: bind_splits if_splits)

lemma request_authorized_file:
  assumes "w_authorized W = isAuthorized fs auth" and "request_authorized W r fp"
  shows "isAuthorized fs auth [fp] \<or>
     (8 \<le> length (rq_authorization r) \<and> isAuthorized fs auth [drop 7 (rq_authorization r)])"
proof -
  from assms(2) obtain bearer where b: "bearer_of (rq_authorization r) = Some bearer"
    and "w_authorized W [fp, bearer]"
    by (auto simp: request_authorized_def split: option.splits)
  with assms(1) have "isAuthorized fs auth [fp] \<or> isAuthorized fs auth [bearer]"
    by (simp add: file_backend.two_tokens)
  with b file_backend.empty_token [of fs auth] show ?thesis
    by (auto simp: bearer_of_def not_less split: if_splits)
qed

text \<open>C30. No request to the HTTP server changes the table of peers unless the file of authorized
  clients lists, when it is read, the fingerprint of the offer or the bearer token of the request
  (which is never the empty one); the change is then one new peer, under the fingerprint of its
  offer in upper case and without colons.\<close>

theorem http_admits_only_listed:
  assumes "w_authorized W = isAuthorized fs auth" and "handled W r s (t, rep)"
    and "Peers (sv_agent t) \<noteq> Peers (sv_agent s)"
  shows "\<exists>fp. Peers (sv_agent t) = (Peers (sv_agent s))(fp \<mapsto> next_peer (sv_agent s)) \<and>
    compressFP fp = fp \<and>
    (isAuthorized fs auth [fp] \<or>
     (8 \<le> length (rq_authorization r) \<and> isAuthorized fs auth [drop 7 (rq_authorization r)]))"
  using assms(2)
proof (cases rule: handled_agent)
  case (admitted offer fp p)
  with request_authorized_file [OF assms(1) admitted(2)] show ?thesis
    using joinsD(1,3) [OF admitted(3)] getFingerprint_canonical
    by (auto simp: offer_fingerprint_def)
qed (use assms(3) addCandidate_Peers in auto)

theorem http_admits_only_listed_witness:
  "\<exists>t rep. handleConnect demo_web (demo_request ''POST'' ''/connect'') (newConnectHandler initial_agent) = (t, rep) \<and>
     Peers (sv_agent t) = [''CD'' \<mapsto> 0] \<and>
     (\<exists>fp. compressFP fp = fp \<and> Peers (sv_agent t) = [fp \<mapsto> 0])"
proof -
  let ?s = "newConnectHandler initial_agent" and ?r = "demo_request ''POST'' ''/connect''"
  obtain a where adm: "admit demo_web ?r demo_description (sv_agent ?s) = (a, Inr (0, demo_description))"
    and a: "Peers a = [''CD'' \<mapsto> 0]"
    using demo_admits [of "''POST''" "''/connect''" demo_description ?s]
    by (auto simp: newConnectHandler_def initial_agent_def)
  have body: "rq_method ?r = ''POST''" "rq_body ?r = Some ''x''" by (simp_all add: demo_request_def)
  obtain t rep where h: "handleConnect demo_web ?r ?s = (t, rep)" by fastforce
  then have t: "sv_agent t = a"
    using adm by (auto simp: handleConnect_def body demo_parsed newConnectHandler_def)
  have "\<exists>fp. Peers (sv_agent t) = (Peers (sv_agent ?s))(fp \<mapsto> next_peer (sv_agent ?s)) \<and>
    compressFP fp = fp \<and>
    (isAuthorized [''auth'' \<mapsto> write_lines [''CD'']] demo_file [fp] \<or>
     (8 \<le> length (rq_authorization ?r) \<and>
      isAuthorized [''auth'' \<mapsto> write_lines [''CD'']] demo_file [drop 7 (rq_authorization ?r)]))"
  proof (rule http_admits_only_listed)
    show "handled demo_web ?r ?s (t, rep)" using h by (simp add: handled_def)
  qed (use t a in \<open>simp_all add: demo_web_def newConnectHandler_def initial_agent_def\<close>)
  with h t a show ?thesis by (auto simp: newConnectHandler_def initial_agent_def)
qed

text \<open>C32. An authorized client gets, when the library grants everything, exactly the server's
  description back: \<open>DecodeOffer\<close> of the body of the answer to \<open>POST /connect\<close> is the local
  description, and its peer is in the table. But when the JSON of that description has more than
  3072 bytes, or the connection to the client fails while the server gathers its candidates, the
  request is dropped without an answer, and the peer stays in the table.\<close>

theorem connect_answers:
  assumes "rq_method r = ''POST''" and "parsePeerReq W (rq_body r) = Inr offer"
    and "offer_fingerprint (w_rtc W) offer = Some (Inr fp)" and "request_authorized W r fp"
    and "e_new_pc (w_env W)" and "rtc_set_remote (w_rtc W) offer"
    and "rtc_create_answer (w_rtc W) = Some ans" and "rtc_set_local (w_rtc W) ans"
    and "rtc_marshal (w_rtc W) (rtc_local (w_rtc W)) = Some b"
    and "unmarsh b = Some (rtc_local (w_rtc W))"
  shows "Peers (sv_agent (fst (handleConnect W r s))) =
      (Peers (sv_agent s))(fp \<mapsto> next_peer (sv_agent s)) \<and>
    (if length b \<le> 3072 \<and> \<not> rtc_lost (w_rtc W)
     then \<exists>payload. snd (handleConnect W r s) = Replied 200 [] payload \<and>
            decodeOffer unmarsh payload = Inr (rtc_local (w_rtc W))
     else snd (handleConnect W r s) = Aborted)"
proof -
  let ?p = "next_peer (sv_agent s)"
  obtain a where a: "newPeer (w_env W) fp (sv_agent s) = (a, Some ?p)" using assms(5) by (rule newPeer_total)
  obtain b2 res where l: "listens (w_rtc W) ?p offer a = (b2, res)" by fastforce
  have listen: "listen (w_rtc W) ?p offer a = Some (Inr (rtc_local (w_rtc W)))"
    using newPeer_Some(2) [OF a] assms(6-8) by (auto simp: listen_def)
  have res: "res = (if rtc_lost (w_rtc W) then None else Some (Inr (rtc_local (w_rtc W))))"
    using l by (simp add: listens_def listen split: if_splits)
  have "Peers b2 = (Peers (sv_agent s))(fp \<mapsto> ?p)" by (rule joinsD(1) [OF listens_joins(1) [OF a l]])
  moreover have "admit W r offer (sv_agent s) =
      (b2, if rtc_lost (w_rtc W) then Inl Aborted else Inr (?p, rtc_local (w_rtc W)))"
    using a assms(3,4) l res by (simp add: admit_def)
  ultimately show ?thesis
    using assms(1,2,9,10) by (simp add: handleConnect_def encodeOffer_4096 decodeOffer_encoded)
qed

definition demo_server :: server where
  "demo_server = newConnectHandler demo_running"

theorem connect_answers_witness:
  "\<exists>payload. snd (handleConnect demo_web (demo_request ''POST'' ''/connect'') demo_server) = Replied 200 [] payload \<and>
     decodeOffer (rtc_unmarshal demo_rtc) payload = Inr demo_description"
proof -
  let ?r = "demo_request ''POST'' ''/connect''"
  have w: "w_rtc demo_web = demo_rtc" "w_env demo_web = demo_env" "rtc_local demo_rtc = demo_description"
    "\<not> rtc_lost demo_rtc"
    by (simp_all add: demo_web_def demo_rtc_def)
  have "Peers (sv_agent (fst (handleConnect demo_web ?r demo_server))) =
      (Peers (sv_agent demo_server))(''CD'' \<mapsto> next_peer (sv_agent demo_server)) \<and>
    (if length ''{}'' \<le> 3072 \<and> \<not> rtc_lost (w_rtc demo_web)
     then \<exists>payload. snd (handleConnect demo_web ?r demo_server) = Replied 200 [] payload \<and>
            decodeOffer (rtc_unmarshal demo_rtc) payload = Inr (rtc_local (w_rtc demo_web))
     else snd (handleConnect demo_web ?r demo_server) = Aborted)"
    by (rule connect_answers [where offer = demo_description and ans = demo_description])
      (simp_all add: w demo_fingerprint demo_authorized, simp_all add: demo_request_def demo_parsed demo_rtc_def)
  then show ?thesis by (simp add: w)
qed

subsection \<open>Sessions\<close>

lemma admit_Inl: "admit W r offer a = (b, Inl rep) \<Longrightarrow> rep \<noteq> Replied status headers body"
  by (auto simp: admit_def split: option.splits sum.splits if_splits prod.splits)

lemma handleOffer_replied:
  assumes "handleOffer W r s = (t, Replied status headers body)"
  obtains fp a where "newPeer (w_env W) fp (sv_agent s) = (a, Some (next_peer (sv_agent s)))"
    "t = s\<lparr>sv_agent := a, sv_sessions := (sv_sessions s)(w_uuid W \<mapsto> next_peer (sv_agent s))\<rparr>"
    "headers = offer_headers W r"
proof -
  from assms obtain sdp a p ans
    where adm: "admit W r \<lparr>d_type = ''offer'', d_sdp = sdp\<rparr> (sv_agent s) = (a, Inr (p, ans))"
      and t: "t = s\<lparr>sv_agent := a, sv_sessions := (sv_sessions s)(w_uuid W \<mapsto> p)\<rparr>"
        "headers = offer_headers W r"
    using admit_Inl by (fastforce simp: handleOffer_def split: if_splits option.splits prod.splits sum.splits)
  from adm show thesis
  proof (cases rule: admit_cases)
    case (2 fp q)
    with joinsD(3) [OF 2(3)] t show thesis using that [of fp a] by auto
  qed auto
qed

lemma addCandidate_connected:
  assumes "peer_at a p = Some pr" and "pr_PC pr"
  shows "addCandidate E p c a = Some (add_ice E p c a, Added (e_ice_ok E))"
  using assms by (simp add: addCandidate_def)

text \<open>C33. The address that \<open>POST /offer\<close> returns works, and only as long as its session: a PATCH of
  the path in \<open>Location\<close> hands its candidate to the connection of the peer that the offer made;
  once the session's time is over, or after a DELETE, the same request is answered with 404 and
  changes nothing.\<close>

theorem offer_then_candidate:
  assumes "handleOffer W r s = (t, Replied status headers sdp)"
    and "w_parse_uuid W' (w_uuid W) = Some (w_uuid W)"
    and "rq_method patch = ''PATCH''" and "rq_path patch = ''/candidates/'' @ w_uuid W"
    and "rq_body patch = Some js" and "rtc_candidate (w_rtc W') js = Some c"
  shows "\<exists>fp p scheme. p = next_peer (sv_agent s) \<and>
    Peers (sv_agent t) = (Peers (sv_agent s))(fp \<mapsto> p) \<and>
    (''Location'', scheme @ ''://'' @ rq_host r @ rq_path patch) \<in> set headers \<and>
    handleCandidate W' patch t =
      (t\<lparr>sv_agent := add_ice (w_env W') p c (sv_agent t)\<rparr>,
       if e_ice_ok (w_env W') then Replied 204 [] [] else Refused 500 CandidateRefused) \<and>
    handleCandidate W' patch (expire (w_uuid W) t) = (expire (w_uuid W) t, Refused 404 SessionUnknown) \<and>
    fst (handleCandidate W' (patch\<lparr>rq_method := ''DELETE''\<rparr>) t) = expire (w_uuid W) t"
proof -
  obtain fp a where new: "newPeer (w_env W) fp (sv_agent s) = (a, Some (next_peer (sv_agent s)))"
    and t: "t = s\<lparr>sv_agent := a, sv_sessions := (sv_sessions s)(w_uuid W \<mapsto> next_peer (sv_agent s))\<rparr>"
    and hs: "headers = offer_headers W r"
    using assms(1) by (rule handleOffer_replied)
  obtain pr where pr: "peer_at a (next_peer (sv_agent s)) = Some pr" "pr_PC pr"
    using newPeer_Some(2) [OF new] by auto
  obtain scheme where "(''Location'', scheme @ ''://'' @ rq_host r @ rq_path patch) \<in> set headers"
    by (auto simp: hs offer_headers_def session_url_def candidates_path_def Let_def assms(4))
  moreover have "length (rq_path patch) = length candidates_path + length (w_uuid W)"
    and "drop (length candidates_path) (rq_path patch) = w_uuid W"
    by (simp_all add: assms(4) candidates_path_def)
  ultimately show ?thesis
    using assms(2,3,5,6) newPeer_Some(1) [OF new]
    by (auto simp: t handleCandidate_def patch_candidate_def addCandidate_connected [OF pr] expire_def)
qed

theorem offer_then_candidate_witness:
  "\<exists>t headers sdp. handleOffer demo_web (demo_request ''POST'' ''/offer'') (newConnectHandler initial_agent) =
       (t, Replied 201 headers sdp) \<and>
     snd (handleCandidate demo_web (demo_request ''PATCH'' ''/candidates/11'') (expire ''11'' t)) =
       Refused 404 SessionUnknown"
proof -
  let ?r = "demo_request ''POST'' ''/offer''" and ?s = "newConnectHandler initial_agent"
  obtain a where adm: "admit demo_web ?r \<lparr>d_type = ''offer'', d_sdp = ''x''\<rparr> (sv_agent ?s) =
      (a, Inr (next_peer (sv_agent ?s), demo_description))"
    using demo_admits by blast
  have body: "rq_method ?r = ''POST''" "rq_body ?r = Some ''x''" by (simp_all add: demo_request_def)
  obtain t headers sdp where h: "handleOffer demo_web ?r ?s = (t, Replied 201 headers sdp)"
    using adm by (simp add: handleOffer_def body)
  have u: "w_uuid demo_web = ''11''" by (simp add: demo_web_def)
  have "\<exists>fp p scheme. p = next_peer (sv_agent ?s) \<and>
    Peers (sv_agent t) = (Peers (sv_agent ?s))(fp \<mapsto> p) \<and>
    (''Location'', scheme @ ''://'' @ rq_host ?r @ rq_path (demo_request ''PATCH'' ''/candidates/11'')) \<in> set headers \<and>
    handleCandidate demo_web (demo_request ''PATCH'' ''/candidates/11'') t =
      (t\<lparr>sv_agent := add_ice (w_env demo_web) p ''x'' (sv_agent t)\<rparr>,
       if e_ice_ok (w_env demo_web) then Replied 204 [] [] else Refused 500 CandidateRefused) \<and>
    handleCandidate demo_web (demo_request ''PATCH'' ''/candidates/11'') (expire (w_uuid demo_web) t) =
      (expire (w_uuid demo_web) t, Refused 404 SessionUnknown) \<and>
    fst (handleCandidate demo_web ((demo_request ''PATCH'' ''/candidates/11'')\<lparr>rq_method := ''DELETE''\<rparr>) t) =
      expire (w_uuid demo_web) t"
    by (rule offer_then_candidate [OF h, where js = "''x''"])
      (simp_all add: demo_request_def demo_web_def demo_rtc_def)
  with h u show ?thesis by auto
qed

end
