(* ===== verification/Peerbook.thy ===== *)
theory Peerbook
  imports Signaling Agent_Steps
begin

section \<open>The peerbook client: peerbook.go\<close>

text \<open>
  Peerbook is a signaling server that the agent stays connected to. Its messages are JSON objects;
  like control messages they are given as trees with their source text. The goroutine that reads
  them is not recovered: a panic of \<open>handleMessage\<close> ends the agent. Numbers inside a \<open>peer_update\<close>
  are assumed to be in the range of a \<open>float64\<close>.
\<close>

subsection \<open>Maps\<close>

text \<open>\<open>json.Unmarshal\<close> into a map: of two members with one name the last stays.\<close>

definition dec_map :: "raw option \<Rightarrow> (bytes \<rightharpoonup> raw) option" where
  "dec_map v =
     (case v of
        Some (_, JNull) \<Rightarrow> Some Map.empty
      | Some (_, JObj ms) \<Rightarrow> Some (map_of (rev ms))
      | _ \<Rightarrow> None)"

subsection \<open>Fingerprint, verification and ICE servers\<close>

text \<open>\<open>getFP\<close>: the answers of \<open>GetCerts\<close> and \<open>GetFingerprints\<close>, \<open>None\<close> being their errors. An error goes to the
  log first: in a process without a \<open>Logger\<close> that is a nil dereference. The agent and \<open>init\<close> have one,
  \<open>status\<close> has none.\<close>

definition getFP :: "bool \<Rightarrow> bytes list option option \<Rightarrow> bytes option" where
  "getFP logger certs =
     (case certs of
        None \<Rightarrow> if logger then Some [] else None
      | Some None \<Rightarrow> if logger then Some [] else None
      | Some (Some fps) \<Rightarrow> (case fps of [] \<Rightarrow> None | f # _ \<Rightarrow> Some (to_upper (remove_all (CHR '':'') f))))"

record http_answer =
  ha_status :: nat
  ha_body :: bytes
  ha_json :: "raw option"

datatype verify_error = PostFailed | BadStatus bytes | BadAnswer | NoVerifiedField

definition verifyPeer :: "http_answer option \<Rightarrow> (verify_error + bool) option" where
  "verifyPeer resp =
     (case resp of
        None \<Rightarrow> Some (Inl PostFailed)
      | Some r \<Rightarrow>
          if ha_status r \<noteq> 200 \<and> ha_status r \<noteq> 201 then Some (Inl (BadStatus (ha_body r)))
          else (case dec_map (ha_json r) of
                  None \<Rightarrow> Some (Inl BadAnswer)
                | Some ret \<Rightarrow>
                    (case ret ''verified'' of
                       None \<Rightarrow> Some (Inl NoVerifiedField)
                     | Some (_, JBool b) \<Rightarrow> Some (Inr b)
                     | Some _ \<Rightarrow> None)))"

text \<open>The hook that starts the client: whether the loop is started, and the fingerprint the log asks
  the user to verify.\<close>

definition startPeerbookClient ::
  "bytes \<Rightarrow> bytes list option option \<Rightarrow> http_answer option \<Rightarrow> (bool \<times> bytes option) option" where
  "startPeerbookClient peerbookUID certs resp =
     (if peerbookUID = [] then Some (False, None)
      else do {
        _ \<leftarrow> getFP True certs;
        verified \<leftarrow> verifyPeer resp;
        fp \<leftarrow> getFP True certs;
        Some (True, if verified = Inr True then None else Some fp)
      })"

text \<open>\<open>GetICEServers\<close>: the cache \<open>PBICEServers\<close> after the call, and the servers. \<open>decode\<close> is the JSON
  decoding of a list of servers, which may have stored some of them before it fails.\<close>

definition getICEServers ::
  "bytes \<Rightarrow> 'i list \<Rightarrow> http_answer option \<Rightarrow> (bytes \<Rightarrow> 'i list \<times> bool) \<Rightarrow> 'i list \<Rightarrow>
   'i list \<times> (verify_error + 'i list)" where
  "getICEServers host iceServers resp decode cache =
     (if host = [] then (cache, Inr iceServers)
      else if cache \<noteq> [] then (cache, Inr (iceServers @ cache))
      else case resp of
        None \<Rightarrow> (cache, Inl PostFailed)
      | Some r \<Rightarrow>
          if ha_status r \<noteq> 200 then (cache, Inl (BadStatus (ha_body r)))
          else (case decode (ha_body r) of
                  (servers, False) \<Rightarrow> (servers, Inl BadAnswer)
                | (servers, True) \<Rightarrow> (servers, Inr (iceServers @ servers))))"

datatype dial_error = DialFailed | DialRefused bytes | DialUnauthorized

text \<open>The answer of the websocket library and what \<open>Dial\<close> makes of it.\<close>

definition pb_dial :: "http_answer option \<Rightarrow> dial_error option" where
  "pb_dial resp =
     (case resp of
        None \<Rightarrow> Some DialFailed
      | Some r \<Rightarrow> if ha_status r = 400 then Some (DialRefused (ha_body r))
                  else if ha_status r = 401 then Some DialUnauthorized else None)"

subsection \<open>handleMessage\<close>

datatype pb_error =
    BadMessage
  | MissingSource
  | BadSource
  | BadUpdate
  | BadOfferJson
  | BadOfferFingerprint fingerprint_error
  | Mismatch bytes
  | NoNewPeer
  | OfferNotAccepted
  | NoAnswer
  | AnswerNotEncoded
  | BadCandidateJson
  | CandidateNotAdded
  | UnknownPeer bytes

text \<open>How \<open>handleMessage\<close> ends: it returns \<open>nil\<close>, an error, or waits for a place in the channel of
  candidates.\<close>

datatype pb_result = Handled | Failed pb_error | Stuck

datatype pb_out = PbAnswer bytes description | PbCandidate bytes bytes

definition update_peer :: "bytes \<Rightarrow> raw \<Rightarrow> agent \<Rightarrow> (agent \<times> pb_result) option" where
  "update_peer fp v a =
     (case dec_map (Some v) of
        None \<Rightarrow> Some (a, Failed BadUpdate)
      | Some pu \<Rightarrow>
          (case Peers a fp of
             None \<Rightarrow> Some (a, Handled)
           | Some p \<Rightarrow> do {
               pr \<leftarrow> peer_at a p;
               if \<not> pr_PC pr then Some (a, Handled)
               else (case pu ''verified'' of
                       Some (_, JBool verified) \<Rightarrow>
                         if verified then Some (a, Handled)
                         else do { a1 \<leftarrow> peer_close p a; Some (a1, Handled) }
                     | _ \<Rightarrow> None)
             }))"

text \<open>The offer. A connection is refused when the fingerprints differ, and the peer the source has
  is closed; \<open>Peers[fp]\<close> is nil when it has none. An error of \<open>SetLocalDescription\<close> is not looked at.\<close>

definition take_offer ::
  "env \<Rightarrow> rtc \<Rightarrow> bytes \<Rightarrow> raw \<Rightarrow> agent \<Rightarrow> (agent \<times> pb_result \<times> pb_out list) option" where
  "take_offer E R fp v a =
     (case rtc_unmarshal R (fst v) of
        None \<Rightarrow> Some (a, Failed BadOfferJson, [])
      | Some offer \<Rightarrow> do {
          f \<leftarrow> offer_fingerprint R offer;
          (case f of
             Inl e \<Rightarrow> Some (a, Failed (BadOfferFingerprint e), [])
           | Inr offerFP \<Rightarrow>
               if offerFP \<noteq> fp
               then do { p \<leftarrow> Peers a fp; a1 \<leftarrow> peer_close p a; Some (a1, Failed (Mismatch fp), []) }
               else (case newPeer E offerFP a of
                       (a1, None) \<Rightarrow> Some (a1, Failed NoNewPeer, [])
                     | (a1, Some p) \<Rightarrow>
                         Some (a1,
                           if \<not> rtc_set_remote R offer then (Failed OfferNotAccepted, [])
                           else case rtc_create_answer R of
                             None \<Rightarrow> (Failed NoAnswer, [])
                           | Some ans \<Rightarrow>
                               if rtc_marshal R ans = None then (Failed AnswerNotEncoded, [])
                               else (Handled, [PbAnswer fp ans]))))
        })"

definition take_candidate :: "env \<Rightarrow> rtc \<Rightarrow> bytes \<Rightarrow> raw \<Rightarrow> agent \<Rightarrow> (agent \<times> pb_result) option" where
  "take_candidate E R fp v a =
     (case Peers a fp of
        None \<Rightarrow> Some (a, Failed (UnknownPeer fp))
      | Some p \<Rightarrow>
          (case rtc_candidate R (fst v) of
             None \<Rightarrow> Some (a, Failed BadCandidateJson)
           | Some c \<Rightarrow> do {
               (a1, res) \<leftarrow> addCandidate E p c a;
               Some (a1, case res of
                           Waits \<Rightarrow> Stuck
                         | Added ok \<Rightarrow> if ok then Handled else Failed CandidateNotAdded
                         | Kept \<Rightarrow> Handled)
             }))"

text \<open>The rest of the message once its source is known.\<close>

definition from_source ::
  "env \<Rightarrow> rtc \<Rightarrow> (bytes \<rightharpoonup> raw) \<Rightarrow> bytes \<Rightarrow> agent \<Rightarrow> (agent \<times> pb_result \<times> pb_out list) option" where
  "from_source E R m fp a = do {
     (a1, res) \<leftarrow> (case m ''peer_update'' of None \<Rightarrow> Some (a, Handled) | Some v \<Rightarrow> update_peer fp v a);
     if res \<noteq> Handled then Some (a1, res, [])
     else case m ''offer'' of
       Some v \<Rightarrow> take_offer E R fp v a1
     | None \<Rightarrow>
         (case m ''candidate'' of
            None \<Rightarrow> Some (a1, Handled, [])
          | Some v \<Rightarrow> do { (a2, res) \<leftarrow> take_candidate E R fp v a1; Some (a2, res, []) })
   }"

definition handleMessage ::
  "env \<Rightarrow> rtc \<Rightarrow> raw option \<Rightarrow> agent \<Rightarrow> (agent \<times> pb_result \<times> pb_out list) option" where
  "handleMessage E R message a =
     (case dec_map message of
        None \<Rightarrow> Some (a, Failed BadMessage, [])
      | Some m \<Rightarrow>
          (case m ''code'' of
             Some v \<Rightarrow> Some (a, if dec_int 0 v = None then Failed BadMessage else Handled, [])
           | None \<Rightarrow>
               if m ''peers'' \<noteq> None then Some (a, Handled, [])
               else (case m ''source_fp'' of
                       None \<Rightarrow> Some (a, Failed MissingSource, [])
                     | Some v \<Rightarrow>
                         (case dec_string [] v of
                            None \<Rightarrow> Some (a, Failed BadSource, [])
                          | Some fp \<Rightarrow> from_source E R m fp a))))"

text \<open>The \<open>OnICECandidate\<close> closure of an offer's peer: what it hands to the writer. It panics when the
  peer was closed in the meantime.\<close>

definition pb_gathered :: "bytes \<Rightarrow> peer_ref \<Rightarrow> bytes option \<Rightarrow> bool \<Rightarrow> agent \<Rightarrow> pb_out list option" where
  "pb_gathered fp p can connected a =
     (case can of
        None \<Rightarrow> Some []
      | Some c \<Rightarrow> do {
          pr \<leftarrow> peer_at a p;
          if \<not> pr_PC pr then None else Some (if connected then [] else [PbCandidate fp c])
        })"

end
