(* ===== verification/Peerbook_Properties.thy ===== *)
theory Peerbook_Properties
  imports Peerbook Example_Run
begin

section \<open>Messages from peerbook\<close>

text \<open>When the message handler panics, and whom it lets in. \<open>sourced message m fp\<close>: the message is an
  object with the members \<open>m\<close> that names \<open>fp\<close> as its source.\<close>

definition sourced :: "raw option \<Rightarrow> (bytes \<rightharpoonup> raw) \<Rightarrow> bytes \<Rightarrow> bool" where
  "sourced message m fp \<longleftrightarrow> dec_map message = Some m \<and> m ''code'' = None \<and> m ''peers'' = None \<and>
     (\<exists>v. m ''source_fp'' = Some v \<and> dec_string [] v = Some fp)"

definition connected_peer :: "agent \<Rightarrow> bytes \<Rightarrow> bool" where
  "connected_peer a fp \<longleftrightarrow> (\<exists>p pr. Peers a fp = Some p \<and> peer_at a p = Some pr \<and> pr_PC pr)"

definition has_verdict :: "(bytes \<rightharpoonup> raw) \<Rightarrow> bool" where
  "has_verdict pu \<longleftrightarrow> (\<exists>t b. pu ''verified'' = Some (t, JBool b))"

lemma handleMessage_sourced:
  "sourced message m fp \<Longrightarrow> handleMessage E R message a = from_source E R m fp a"
  by (auto simp: sourced_def handleMessage_def)

lemma handleMessage_unsourced:
  assumes "\<nexists>m fp. sourced message m fp"
  shows "\<exists>res. handleMessage E R message a = Some (a, res, [])"
  using assms by (auto simp: sourced_def handleMessage_def split: option.splits)

lemma table_has_peer:
  assumes "agent_reachable a" and "Peers a fp = Some p"
  shows "\<exists>pr. peer_at a p = Some pr \<and> pr_FP pr = fp"
  using agent_invD(3) [OF reachable_inv [OF assms(1)]] assms(2) unfolding peers_ok_def by metis

lemma peer_close_total: "peer_at a p = Some pr \<Longrightarrow> \<exists>b. peer_close p a = Some b \<and> Peers b = Peers a"
  by (simp add: peer_close_def)

lemma update_peer_panics:
  assumes "agent_reachable a"
  shows "update_peer fp v a = None \<longleftrightarrow>
    (\<exists>pu. dec_map (Some v) = Some pu \<and> connected_peer a fp \<and> \<not> has_verdict pu)"
proof (cases "connected_peer a fp")
  case True
  then obtain p pr where p: "Peers a fp = Some p" and pr: "peer_at a p = Some pr" "pr_PC pr"
    by (auto simp: connected_peer_def)
  with peer_close_total [OF pr(1)] True show ?thesis
    by (auto simp: update_peer_def has_verdict_def split: option.splits json.splits)
next
  case False
  with table_has_peer [OF assms, of fp] show ?thesis
    by (auto simp: update_peer_def connected_peer_def split: option.splits)
qed

lemma update_peer_Peers:
  assumes "update_peer fp v a = Some (b, res)"
  shows "Peers b = Peers a" and "res = Handled \<longleftrightarrow> dec_map (Some v) \<noteq> None"
    and "agent_reachable a \<Longrightarrow> agent_reachable b"
proof -
  have "b = a \<or> (\<exists>p. peer_close p a = Some b \<and> Peers b = Peers a)"
    and r: "res = Handled \<longleftrightarrow> dec_map (Some v) \<noteq> None"
    using assms
    by (auto simp: update_peer_def peer_close_def split: option.splits bind_splits json.splits if_splits)
  then show "Peers b = Peers a" "agent_reachable a \<Longrightarrow> agent_reachable b"
    by (auto intro: agent_reachable.step agent_step_hang_up)
  show "res = Handled \<longleftrightarrow> dec_map (Some v) \<noteq> None" by (rule r)
qed

lemma take_candidate_total:
  assumes "agent_reachable a"
  shows "take_candidate E R fp v a \<noteq> None"
  using table_has_peer [OF assms, of fp]
  by (auto simp: take_candidate_def addCandidate_def split: option.splits)

lemma take_offer_panics:
  assumes "agent_reachable a"
  shows "take_offer E R fp v a = None \<longleftrightarrow>
    (\<exists>offer. rtc_unmarshal R (fst v) = Some offer \<and>
      (offer_fingerprint R offer = None \<or>
       (\<exists>ofp. offer_fingerprint R offer = Some (Inr ofp) \<and> ofp \<noteq> fp \<and> Peers a fp = None)))"
proof (cases "rtc_unmarshal R (fst v)")
  case (Some offer)
  show ?thesis
  proof (cases "\<exists>ofp. offer_fingerprint R offer = Some (Inr ofp) \<and> ofp \<noteq> fp")
    case True
    with Some table_has_peer [OF assms, of fp] show ?thesis
      by (cases "Peers a fp") (auto simp: take_offer_def peer_close_def)
  next
    case False
    with Some show ?thesis
      by (auto simp: take_offer_def split: sum.splits prod.splits option.splits bind_splits)
  qed
qed (simp add: take_offer_def)

text \<open>The part of a message before its offer: the state it leaves, if it goes on.\<close>

lemma from_source_updated:
  assumes "agent_reachable a"
  obtains (panics) v pu where "m ''peer_update'' = Some v" "dec_map (Some v) = Some pu"
      "connected_peer a fp" "\<not> has_verdict pu" "from_source E R m fp a = None"
  | (bad) v where "m ''peer_update'' = Some v" "dec_map (Some v) = None"
      "from_source E R m fp a = Some (a, Failed BadUpdate, [])"
  | (goes_on) b where "agent_reachable b" "Peers b = Peers a"
      "\<And>v. m ''peer_update'' = Some v \<Longrightarrow>
         \<exists>pu. dec_map (Some v) = Some pu \<and> (connected_peer a fp \<longrightarrow> has_verdict pu)"
      "from_source E R m fp a =
         (case m ''offer'' of
            Some v \<Rightarrow> take_offer E R fp v b
          | None \<Rightarrow>
              (case m ''candidate'' of
                 None \<Rightarrow> Some (b, Handled, [])
               | Some v \<Rightarrow> map_option (\<lambda>(c, res). (c, res, [])) (take_candidate E R fp v b)))"
proof (cases "m ''peer_update''")
  case None
  with assms show thesis
    by (intro goes_on [of a]) (auto simp: from_source_def map_conv_bind_option split_def comp_def split: option.splits)
next
  case (Some v)
  show thesis
  proof (cases "update_peer fp v a")
    case None
    then obtain pu where "dec_map (Some v) = Some pu" "connected_peer a fp" "\<not> has_verdict pu"
      using update_peer_panics [OF assms] by blast
    moreover have "from_source E R m fp a = None" using Some None by (simp add: from_source_def)
    ultimately show thesis using panics Some by blast
  next
    case upd: (Some r)
    obtain b res where r: "r = (b, res)" by (cases r)
    show thesis
    proof (cases "dec_map (Some v)")
      case None
      with upd r Some bad [of v] show thesis by (auto simp: from_source_def update_peer_def)
    next
      case (Some pu)
      with upd r have "res = Handled" using update_peer_Peers(2) [of fp v a b res] by simp
      moreover have "connected_peer a fp \<longrightarrow> has_verdict pu"
        using update_peer_panics [OF assms, of fp v] upd Some by auto
      ultimately show thesis
        using upd r \<open>m ''peer_update'' = Some v\<close> Some assms update_peer_Peers [of fp v a b res]
        by (intro goes_on [of b])
          (auto simp: from_source_def map_conv_bind_option split_def comp_def split: option.splits)
    qed
  qed
qed

text \<open>C31. Exactly which messages from peerbook bring the agent down: an update for a connected peer
  whose verdict is missing or not a boolean, and an offer whose fingerprint attribute has no
  space, or whose fingerprint differs from the source's when the agent has no peer of that source.
  The rest is handled, refused or, for a candidate, waits.\<close>

theorem peerbook_message_panics:
  assumes "agent_reachable a"
  shows "handleMessage E R message a = None \<longleftrightarrow>
    (\<exists>m fp. sourced message m fp \<and>
       ((\<exists>v pu. m ''peer_update'' = Some v \<and> dec_map (Some v) = Some pu \<and>
           connected_peer a fp \<and> \<not> has_verdict pu) \<or>
        (\<exists>v offer. m ''offer'' = Some v \<and> (\<forall>u. m ''peer_update'' = Some u \<longrightarrow> dec_map (Some u) \<noteq> None) \<and>
           rtc_unmarshal R (fst v) = Some offer \<and>
           (offer_fingerprint R offer = None \<or>
            (\<exists>ofp. offer_fingerprint R offer = Some (Inr ofp) \<and> ofp \<noteq> fp \<and> Peers a fp = None)))))"
proof (cases "\<exists>m fp. sourced message m fp")
  case True
  then obtain m fp where src: "sourced message m fp" by blast
  have only: "sourced message m' fp' \<longleftrightarrow> m' = m \<and> fp' = fp" for m' fp'
    using src by (auto simp: sourced_def)
  from assms show ?thesis
  proof (cases rule: from_source_updated [of a m fp E R])
    case (goes_on b)
    have upd: "\<forall>u. m ''peer_update'' = Some u \<longrightarrow> dec_map (Some u) \<noteq> None"
      and no: "\<nexists>v pu. m ''peer_update'' = Some v \<and> dec_map (Some v) = Some pu \<and>
        connected_peer a fp \<and> \<not> has_verdict pu"
      using goes_on(3) by fastforce+
    have "handleMessage E R message a = None \<longleftrightarrow>
        (\<exists>v. m ''offer'' = Some v \<and> take_offer E R fp v b = None)"
      using goes_on(4) take_candidate_total [OF goes_on(1)]
      by (auto simp: handleMessage_sourced [OF src] split: option.splits)
    also have "\<dots> \<longleftrightarrow> (\<exists>v offer. m ''offer'' = Some v \<and> rtc_unmarshal R (fst v) = Some offer \<and>
        (offer_fingerprint R offer = None \<or>
         (\<exists>ofp. offer_fingerprint R offer = Some (Inr ofp) \<and> ofp \<noteq> fp \<and> Peers a fp = None)))"
      unfolding take_offer_panics [OF goes_on(1)] goes_on(2) by blast
    finally show ?thesis using upd no unfolding only by blast
  qed (auto simp: handleMessage_sourced [OF src] only)
next
  case False
  then obtain res where "handleMessage E R message a = Some (a, res, [])"
    using handleMessage_unsourced by blast
  with False show ?thesis by simp
qed

text \<open>Peerbook brings in no one under another's fingerprint: a message changes the table of peers
  only by one new peer that stands under the fingerprint of its own offer, which is the source's;
  and whatever is sent back is the answer to that offer, for that fingerprint.\<close>

lemma peerbook_admits_source:
  assumes "agent_reachable a" and "handleMessage E R message a = Some (b, res, outs)"
    and "Peers b \<noteq> Peers a \<or> outs \<noteq> []"
  shows "\<exists>m fp v offer. sourced message m fp \<and> m ''offer'' = Some v \<and>
    rtc_unmarshal R (fst v) = Some offer \<and> offer_fingerprint R offer = Some (Inr fp) \<and>
    (\<exists>p. Peers b = (Peers a)(fp \<mapsto> p)) \<and>
    (\<forall>x \<in> set outs. \<exists>ans. x = PbAnswer fp ans \<and> rtc_create_answer R = Some ans)"
proof (cases "\<exists>m fp. sourced message m fp")
  case True
  then obtain m fp where src: "sourced message m fp" by blast
  from assms(1) show ?thesis
  proof (cases rule: from_source_updated [of a m fp E R])
    case (goes_on c)
    have cand: "Peers d = Peers c" if "take_candidate E R fp v c = Some (d, r)" for v d r
      using that
      by (auto simp: take_candidate_def addCandidate_def add_ice_def split: option.splits bind_splits if_splits)
    show ?thesis
    proof (cases "m ''offer''")
      case None
      with assms(2,3) goes_on(2,4) cand show ?thesis
        by (auto simp: handleMessage_sourced [OF src] split: option.splits)
    next
      case (Some v)
      with assms(2) goes_on(4) have take: "take_offer E R fp v c = Some (b, res, outs)"
        by (simp add: handleMessage_sourced [OF src])
      with assms(3) goes_on(2) obtain offer p where "rtc_unmarshal R (fst v) = Some offer"
        "offer_fingerprint R offer = Some (Inr fp)" "newPeer E fp c = (b, Some p)"
        "\<forall>x \<in> set outs. \<exists>ans. x = PbAnswer fp ans \<and> rtc_create_answer R = Some ans"
        using newPeer_None [of E fp c b]
        by (auto simp: take_offer_def peer_close_def split: option.splits bind_splits sum.splits prod.splits if_splits)
      with src Some goes_on(2) newPeer_Some(1) [of E fp c b p] show ?thesis
        by (intro exI [of _ m] exI [of _ fp] exI [of _ v] exI [of _ offer]) auto
    qed
  qed (use assms(2,3) in \<open>auto simp: handleMessage_sourced [OF src]\<close>)
next
  case False
  with handleMessage_unsourced [OF False, of E R a] assms(2,3) show ?thesis by auto
qed

subsection \<open>Witnesses\<close>

definition pb_demo_rtc :: rtc where
  "pb_demo_rtc =
     \<lparr>rtc_sdp = (\<lambda>t. Some \<lparr>sdp_session = Some ''sha-256 e:f'', sdp_media = []\<rparr>),
      rtc_set_remote = (\<lambda>d. True), rtc_create_answer = Some \<lparr>d_type = ''answer'', d_sdp = []\<rparr>,
      rtc_set_local = (\<lambda>d. True), rtc_local = \<lparr>d_type = ''answer'', d_sdp = []\<rparr>, rtc_lost = False,
      rtc_marshal = (\<lambda>d. Some ''{}''), rtc_unmarshal = (\<lambda>b. Some \<lparr>d_type = ''offer'', d_sdp = b\<rparr>),
      rtc_candidate = (\<lambda>b. Some b)\<rparr>"

lemma pb_demo_fingerprint: "offer_fingerprint pb_demo_rtc d = Some (Inr ''EF'')"
proof -
  have "getFingerprint (Some \<lparr>sdp_session = Some ''sha-256 e:f'', sdp_media = []\<rparr>) = Some (Inr ''EF'')"
    by code_simp
  then show ?thesis by (simp add: offer_fingerprint_def pb_demo_rtc_def)
qed

lemma pb_demo_sourced:
  "sourced (Some ([], JObj [(''source_fp'', [], JStr fp), (''offer'', ''{}'', JNull)]))
     [''source_fp'' \<mapsto> ([], JStr fp), ''offer'' \<mapsto> (''{}'', JNull)] fp"
  by (auto simp: sourced_def dec_map_def dec_string_def)

theorem peerbook_message_panics_witness:
  "handleMessage demo_env pb_demo_rtc
     (Some ([], JObj [(''source_fp'', [], JStr ''XX''), (''offer'', ''{}'', JNull)])) demo_running = None"
  unfolding peerbook_message_panics [OF demo_running_reachable]
  by (rule exI [of _ "[''source_fp'' \<mapsto> ([], JStr ''XX''), ''offer'' \<mapsto> (''{}'', JNull)]"],
      rule exI [of _ "''XX''"], rule conjI [OF pb_demo_sourced], rule disjI2,
      rule exI [of _ "(''{}'', JNull)"], rule exI [of _ "\<lparr>d_type = ''offer'', d_sdp = ''{}''\<rparr>"])
    (simp add: pb_demo_fingerprint, simp add: pb_demo_rtc_def demo_running_def)

lemma pb_demo_answers:
  obtains b outs where "handleMessage demo_env pb_demo_rtc
      (Some ([], JObj [(''source_fp'', [], JStr ''EF''), (''offer'', ''{}'', JNull)])) initial_agent =
      Some (b, Handled, outs)" "outs \<noteq> []"
proof -
  have "e_new_pc demo_env" by simp
  then have "\<exists>b p. newPeer demo_env ''EF'' initial_agent = (b, Some p)"
    by (simp add: newPeer_def Let_def)
  then obtain b p where new: "newPeer demo_env ''EF'' initial_agent = (b, Some p)" by blast
  have "rtc_unmarshal pb_demo_rtc ''{}'' = Some \<lparr>d_type = ''offer'', d_sdp = ''{}''\<rparr>"
    by (simp add: pb_demo_rtc_def)
  then have "handleMessage demo_env pb_demo_rtc
      (Some ([], JObj [(''source_fp'', [], JStr ''EF''), (''offer'', ''{}'', JNull)])) initial_agent =
      Some (b, Handled, [PbAnswer ''EF'' \<lparr>d_type = ''answer'', d_sdp = []\<rparr>])"
    by (simp add: handleMessage_sourced [OF pb_demo_sourced] from_source_def take_offer_def
        pb_demo_fingerprint new, simp add: pb_demo_rtc_def)
  then show thesis by (rule that) simp
qed

lemma peerbook_admits_source_example:
  "\<exists>b res outs. handleMessage demo_env pb_demo_rtc
     (Some ([], JObj [(''source_fp'', [], JStr ''EF''), (''offer'', ''{}'', JNull)])) initial_agent =
     Some (b, res, outs) \<and> outs \<noteq> [] \<and> (\<exists>fp p. Peers b = [fp \<mapsto> p])"
proof -
  obtain b outs where h: "handleMessage demo_env pb_demo_rtc
      (Some ([], JObj [(''source_fp'', [], JStr ''EF''), (''offer'', ''{}'', JNull)])) initial_agent =
      Some (b, Handled, outs)" "outs \<noteq> []"
    by (rule pb_demo_answers)
  from peerbook_admits_source [OF agent_reachable.boot h(1)] h(2)
  have "\<exists>fp p. Peers b = (Peers initial_agent)(fp \<mapsto> p)" by blast
  with h show ?thesis by (auto simp: initial_agent_def)
qed

end
