(* ===== verification/Peerbook_Loop.thy ===== *)
theory Peerbook_Loop
  imports Peerbook_Properties Agent_Hosts
begin

section \<open>The two goroutines of the peerbook client: Go in peerbook.go\<close>

text \<open>
  The reader dials, reads messages and handles them; \<open>handleMessage\<close> hands an answer to the writer
  over \<open>outChan\<close>, which has no buffer, so the reader waits until the writer takes it. The closures
  of \<open>OnICECandidate\<close> wait there as well. \<open>pb_queue\<close> holds the senders that wait, marked whether it
  is the reader; \<open>pb_ws\<close> is the current connection, numbered by \<open>pb_dials\<close>, and \<open>pb_wire\<close> what was
  written on each.
\<close>

record pb_client =
  pb_agent :: agent
  pb_ws :: "nat option"
  pb_dials :: nat
  pb_queue :: "(bool \<times> pb_out) list"
  pb_stuck :: bool
  pb_writer :: bool
  pb_wire :: "(nat \<times> pb_out) list"

definition newPeerbookClient :: "agent \<Rightarrow> pb_client" where
  "newPeerbookClient a = \<lparr>pb_agent = a, pb_ws = None, pb_dials = 0, pb_queue = [], pb_stuck = False,
     pb_writer = True, pb_wire = []\<rparr>"

definition reader_waits :: "pb_client \<Rightarrow> bool" where
  "reader_waits s \<longleftrightarrow> list_ex fst (pb_queue s)"

definition reader_free :: "pb_client \<Rightarrow> bool" where
  "reader_free s \<longleftrightarrow> \<not> reader_waits s \<and> \<not> pb_stuck s"

text \<open>One turn of the reader with a connection: a message that is handled, or a read error.\<close>

definition reader_turn :: "env \<Rightarrow> rtc \<Rightarrow> raw option \<Rightarrow> pb_client \<Rightarrow> pb_client option" where
  "reader_turn E R message s = do {
     (b, res, outs) \<leftarrow> handleMessage E R message (pb_agent s);
     Some (s\<lparr>pb_agent := b, pb_queue := pb_queue s @ map (Pair True) outs,
             pb_stuck := (res = Stuck)\<rparr>)
   }"

text \<open>One turn of the writer with the message \<open>x\<close>: it panics without a connection; an unexpected
  close ends the goroutine, any other error loses the message.\<close>

datatype write_result = Written | UnexpectedClose | OtherError

definition writer_turn :: "write_result \<Rightarrow> pb_out \<Rightarrow> pb_client \<Rightarrow> pb_client option" where
  "writer_turn w x s =
     (case pb_ws s of
        None \<Rightarrow> None
      | Some c \<Rightarrow>
          Some (case w of
                  Written \<Rightarrow> s\<lparr>pb_wire := pb_wire s @ [(c, x)]\<rparr>
                | UnexpectedClose \<Rightarrow> s\<lparr>pb_writer := False\<rparr>
                | OtherError \<Rightarrow> s))"

inductive pb_own :: "pb_client \<Rightarrow> pb_client \<Rightarrow> bool" where
  dial: "reader_free s \<Longrightarrow> pb_ws s = None \<Longrightarrow> pb_dial resp = None \<Longrightarrow>
    pb_own s (s\<lparr>pb_ws := Some (pb_dials s), pb_dials := Suc (pb_dials s)\<rparr>)"
| read_error: "reader_free s \<Longrightarrow> pb_ws s \<noteq> None \<Longrightarrow> pb_own s (s\<lparr>pb_ws := None\<rparr>)"
| gathered: "pb_gathered fp p can connected (pb_agent s) = Some outs \<Longrightarrow>
    pb_own s (s\<lparr>pb_queue := pb_queue s @ map (Pair False) outs\<rparr>)"
| sends: "pb_writer s \<Longrightarrow> pb_queue s = pre @ (r, x) # post \<Longrightarrow>
    writer_turn w x (s\<lparr>pb_queue := pre @ post\<rparr>) = Some t \<Longrightarrow> pb_own s t"

inductive pb_step :: "pb_client \<Rightarrow> pb_client \<Rightarrow> bool" where
  read: "reader_free s \<Longrightarrow> pb_ws s \<noteq> None \<Longrightarrow> reader_turn E R message s = Some t \<Longrightarrow> pb_step s t"
| own: "pb_own s t \<Longrightarrow> pb_step s t"
| agent: "agent_step (pb_agent s) b \<Longrightarrow> pb_step s (s\<lparr>pb_agent := b\<rparr>)"

inductive pb_reachable :: "pb_client \<Rightarrow> bool" where
  boot: "agent_reachable a \<Longrightarrow> pb_reachable (newPeerbookClient a)"
| step: "pb_reachable s \<Longrightarrow> pb_step s t \<Longrightarrow> pb_reachable t"

lemmas pb_state_defs = reader_free_def reader_waits_def reader_turn_def writer_turn_def

text \<open>Peerbook's messages and everything around them leave the agent in order.\<close>

lemma update_peer_carries: "update_peer fp v a = Some (b, res) \<Longrightarrow> carries a b"
  by (auto simp: update_peer_def intro: carries_intros
      split: option.splits bind_splits if_splits json.splits prod.splits)

lemma take_offer_carries: "take_offer E R fp v a = Some (b, res, outs) \<Longrightarrow> carries a b"
  by (auto simp: take_offer_def intro: carries_intros
      split: option.splits bind_splits if_splits sum.splits prod.splits)

lemma take_candidate_carries: "take_candidate E R fp v a = Some (b, res) \<Longrightarrow> carries a b"
  by (auto simp: take_candidate_def intro: carries_intros split: option.splits bind_splits)

lemma from_source_carries:
  assumes "from_source E R m fp a = Some (b, res, outs)"
  shows "carries a b"
proof -
  obtain a1 r1 where a1: "(case m ''peer_update'' of None \<Rightarrow> Some (a, Handled) | Some v \<Rightarrow> update_peer fp v a)
      = Some (a1, r1)"
    using assms by (auto simp: from_source_def split: bind_splits)
  then have "carries a a1" by (auto intro: update_peer_carries split: option.splits)
  also have "carries a1 b"
    using assms a1 by (auto simp: from_source_def intro: take_offer_carries take_candidate_carries
        split: if_splits option.splits bind_splits)
  finally show ?thesis .
qed

lemma handleMessage_carries: "handleMessage E R message a = Some (b, res, outs) \<Longrightarrow> carries a b"
  by (auto simp: handleMessage_def intro: from_source_carries split: option.splits if_splits)

lemma pb_own_agent: "pb_own s t \<Longrightarrow> pb_agent t = pb_agent s"
  by (cases rule: pb_own.cases) (auto simp: writer_turn_def split: option.splits write_result.splits)

interpretation peerbook_host: agent_host pb_agent pb_step
proof
  fix s t assume "pb_step s t"
  then show "carries (pb_agent s) (pb_agent t)"
    by (cases rule: pb_step.cases)
      (auto simp: reader_turn_def pb_own_agent intro: handleMessage_carries step_carries split: bind_splits)
qed

text \<open>A message brings at most one answer, so at most one entry is the reader's; and while it waits it
  keeps its connection.\<close>

lemma one_answer:
  "handleMessage E R message a = Some (b, res, outs) \<Longrightarrow> length outs \<le> 1"
  by (auto simp: handleMessage_def from_source_def take_offer_def
      split: option.splits bind_splits sum.splits prod.splits if_splits)

definition queue_ok :: "pb_client \<Rightarrow> bool" where
  "queue_ok s \<longleftrightarrow> length (filter fst (pb_queue s)) \<le> 1 \<and> (reader_waits s \<longrightarrow> pb_ws s \<noteq> None)"

lemma pb_own_queue_ok:
  assumes "pb_own s t" and "queue_ok s"
  shows "queue_ok t"
  using assms
  by (cases rule: pb_own.cases)
    (auto simp: queue_ok_def pb_state_defs list_ex_iff filter_map comp_def
      split: option.splits write_result.splits if_splits)

lemma pb_step_queue_ok:
  assumes "pb_step s t" and ok: "queue_ok s"
  shows "queue_ok t"
  using assms(1)
proof (cases rule: pb_step.cases)
  case (read E R message)
  then obtain b res outs where h: "handleMessage E R message (pb_agent s) = Some (b, res, outs)"
    and t: "pb_queue t = pb_queue s @ map (Pair True) outs" "pb_ws t = pb_ws s"
    by (auto simp: reader_turn_def split: bind_splits)
  have "filter fst (pb_queue s) = []"
    using read(1) by (auto simp: reader_free_def reader_waits_def list_ex_iff filter_empty_conv)
  with t one_answer [OF h] read(2) show ?thesis by (simp add: queue_ok_def filter_map comp_def)
next
  case own
  then show ?thesis using ok by (rule pb_own_queue_ok)
qed (use ok in \<open>simp add: queue_ok_def reader_waits_def\<close>)

lemma reader_keeps_connection: "pb_reachable s \<Longrightarrow> queue_ok s"
  by (induction rule: pb_reachable.induct)
    (simp_all add: pb_step_queue_ok, simp add: queue_ok_def newPeerbookClient_def reader_waits_def)

lemma silent_step:
  assumes "pb_step s t" and "\<not> pb_writer s"
  shows "\<not> pb_writer t \<and> pb_wire t = pb_wire s \<and> (reader_waits s \<longrightarrow> reader_waits t)"
  using assms
  by (auto elim!: pb_step.cases pb_own.cases simp: pb_state_defs
      split: bind_splits option.splits write_result.splits)

lemma silent_steps:
  assumes "pb_step\<^sup>*\<^sup>* s t" and "\<not> pb_writer s"
  shows "\<not> pb_writer t \<and> pb_wire t = pb_wire s \<and> (reader_waits s \<longrightarrow> reader_waits t)"
  using assms
proof (induction rule: rtranclp_induct)
  case (step t u)
  with silent_step [of t u] show ?case by auto
qed simp

text \<open>C34. When a reader that waits to hand over its answer goes on: as long as the writer runs, the
  answer can go out on the current connection and the reader is free again. Once the writer has met
  an unexpected close no later step starts it again: nothing is ever written any more, and the reader
  handles no other message.\<close>

theorem peerbook_reader_goes_on:
  assumes "pb_reachable s" and "reader_waits s" and "\<not> pb_stuck s"
  shows "(\<exists>t. pb_step\<^sup>*\<^sup>* s t \<and> reader_free t) = pb_writer s \<and>
    (pb_step\<^sup>*\<^sup>* s u \<and> \<not> pb_writer s \<longrightarrow> pb_wire u = pb_wire s \<and> \<not> reader_free u)"
proof -
  have "\<exists>t. pb_step\<^sup>*\<^sup>* s t \<and> reader_free t" if w: "pb_writer s"
  proof -
    obtain pre x post where q: "pb_queue s = pre @ (True, x) # post"
      using assms(2) by (auto simp: reader_waits_def list_ex_iff in_set_conv_decomp)
    note inv = reader_keeps_connection [OF assms(1), unfolded queue_ok_def]
    with assms(2) obtain c where c: "pb_ws s = Some c" by auto
    let ?t = "s\<lparr>pb_queue := pre @ post, pb_wire := pb_wire s @ [(c, x)]\<rparr>"
    have "writer_turn Written x (s\<lparr>pb_queue := pre @ post\<rparr>) = Some ?t"
      by (simp add: writer_turn_def c)
    with w q have "pb_step s ?t" by (rule pb_step.own [OF pb_own.sends])
    moreover have "filter fst (pre @ post) = []" using inv q by simp
    then have "reader_free ?t"
      using assms(3) by (auto simp: reader_free_def reader_waits_def list_ex_iff filter_empty_conv)
    ultimately show ?thesis by blast
  qed
  with silent_steps assms(2) show ?thesis unfolding reader_free_def by blast
qed

theorem peerbook_reader_goes_on_witness:
  "\<exists>s. reader_waits s \<and> (\<exists>t. pb_step\<^sup>*\<^sup>* s t \<and> reader_free t)"
proof -
  let ?s = "(newPeerbookClient initial_agent)\<lparr>pb_ws := Some 0, pb_dials := 1\<rparr>"
  have "pb_dial (Some \<lparr>ha_status = 101, ha_body = [], ha_json = None\<rparr>) = None" by (simp add: pb_dial_def)
  then have "pb_step (newPeerbookClient initial_agent) ?s"
    using pb_step.own [OF pb_own.dial, of "newPeerbookClient initial_agent"]
    by (simp add: newPeerbookClient_def reader_free_def reader_waits_def)
  then have s: "pb_reachable ?s" using pb_reachable.boot [OF agent_reachable.boot] by (rule pb_reachable.step [rotated])
  obtain b outs where h: "handleMessage demo_env pb_demo_rtc
      (Some ([], JObj [(''source_fp'', [], JStr ''EF''), (''offer'', ''{}'', JNull)])) initial_agent =
      Some (b, Handled, outs)" and outs: "outs \<noteq> []"
    by (rule pb_demo_answers)
  let ?t = "?s\<lparr>pb_agent := b, pb_queue := map (Pair True) outs, pb_stuck := False\<rparr>"
  have "reader_turn demo_env pb_demo_rtc
      (Some ([], JObj [(''source_fp'', [], JStr ''EF''), (''offer'', ''{}'', JNull)])) ?s = Some ?t"
    using h by (simp add: reader_turn_def newPeerbookClient_def)
  then have "pb_step ?s ?t"
    by (intro pb_step.read) (simp_all add: newPeerbookClient_def reader_free_def reader_waits_def)
  with s have t: "pb_reachable ?t" by (rule pb_reachable.step)
  have w: "reader_waits ?t" using outs by (cases outs) (simp_all add: reader_waits_def)
  have "(\<exists>t. pb_step\<^sup>*\<^sup>* ?t t \<and> reader_free t) = pb_writer ?t"
    using peerbook_reader_goes_on [OF t w] by simp
  then have "\<exists>t. pb_step\<^sup>*\<^sup>* ?t t \<and> reader_free t" by (simp add: newPeerbookClient_def)
  with w show ?thesis by blast
qed

end
