(* ===== verification/Peerbook_Url.thy ===== *)
theory Peerbook_Url
  imports Peerbook
begin

section \<open>The address Dial connects to: peerbook.go\<close>

text \<open>
  \<open>Dial\<close> tells peerbook who it is in the query of a URL. \<open>url.Values\<close> and its \<open>Encode\<close> are those of the
  standard library: keys in order, keys and values escaped. That nothing is lost or confused on the
  way is stated with the library's own reading of a query.
\<close>

definition query_safe :: "char \<Rightarrow> bool" where
  "query_safe c \<longleftrightarrow> (let n = of_char c :: nat in
     48 \<le> n \<and> n \<le> 57 \<or> 65 \<le> n \<and> n \<le> 90 \<or> 97 \<le> n \<and> n \<le> 122) \<or> c \<in> set ''-_.~''"

definition hex_digit :: "nat \<Rightarrow> char" where
  "hex_digit n = ''0123456789ABCDEF'' ! n"

definition escape_char :: "char \<Rightarrow> bytes" where
  "escape_char c =
     (if query_safe c then [c]
      else if c = CHR '' '' then [CHR ''+'']
      else [CHR ''%'', hex_digit (of_char c div 16), hex_digit (of_char c mod 16)])"

definition query_escape :: "bytes \<Rightarrow> bytes" where
  "query_escape s = concat (map escape_char s)"

text \<open>\<open>Values.Encode\<close>, for a list of one value each that is sorted by its keys.\<close>

definition encode_values :: "(bytes \<times> bytes) list \<Rightarrow> bytes" where
  "encode_values kvs = join_with (CHR ''&'') (map (\<lambda>(k, v). query_escape k @ CHR ''='' # query_escape v) kvs)"

definition dial_params :: "bytes \<Rightarrow> bytes \<Rightarrow> bytes \<Rightarrow> (bytes \<times> bytes) list" where
  "dial_params fp name uid = [(''fp'', fp), (''kind'', ''webexec''), (''name'', name), (''uid'', uid)]"

text \<open>For a host that needs no escaping.\<close>

definition dial_url :: "bool \<Rightarrow> bytes \<Rightarrow> bytes \<Rightarrow> bytes \<Rightarrow> bytes \<Rightarrow> bytes" where
  "dial_url insecure host fp name uid =
     (if insecure then ''ws'' else ''wss'') @ ''://'' @ host @ ''/ws?'' @ encode_values (dial_params fp name uid)"

subsection \<open>Reading it back\<close>

definition hex_val :: "char \<Rightarrow> nat option" where
  "hex_val c = (let n = of_char c :: nat in
     if 48 \<le> n \<and> n \<le> 57 then Some (n - 48)
     else if 65 \<le> n \<and> n \<le> 70 then Some (n - 55)
     else if 97 \<le> n \<and> n \<le> 102 then Some (n - 87) else None)"

fun query_unescape :: "bytes \<Rightarrow> bytes option" where
  "query_unescape [] = Some []"
| "query_unescape (c # s) =
     (if c = CHR ''%''
      then (case s of
              a # b # rest \<Rightarrow>
                (case (hex_val a, hex_val b) of
                   (Some h, Some l) \<Rightarrow> map_option ((#) (char_of (16 * h + l))) (query_unescape rest)
                 | _ \<Rightarrow> None)
            | _ \<Rightarrow> None)
      else map_option ((#) (if c = CHR ''+'' then CHR '' '' else c)) (query_unescape s))"

text \<open>\<open>ParseQuery\<close>: a part without \<open>=\<close> has an empty value.\<close>

definition parse_pair :: "bytes \<Rightarrow> (bytes \<times> bytes) option" where
  "parse_pair p =
     (case (query_unescape (before (CHR ''='') p), query_unescape (drop (Suc (length (before (CHR ''='') p))) p)) of
        (Some k, Some v) \<Rightarrow> Some (k, v) | _ \<Rightarrow> None)"

definition parse_query :: "bytes \<Rightarrow> (bytes \<times> bytes) list option" where
  "parse_query q = those (map parse_pair (split_on (CHR ''&'') q))"

lemma hex_digits:
  assumes "n < 16"
  shows "hex_val (hex_digit n) = Some n" and "hex_digit n \<notin> set ''&=''"
proof -
  have "\<forall>n \<in> set [0 ..< 16]. hex_val (hex_digit n) = Some n \<and> hex_digit n \<notin> set ''&=''" by code_simp
  then show "hex_val (hex_digit n) = Some n" and "hex_digit n \<notin> set ''&=''" using assms by auto
qed

lemma query_safe_not: "query_safe c \<Longrightarrow> c \<notin> set ''%+&=''"
  by (auto simp: query_safe_def)

lemma char_nibbles: "of_char c div 16 < (16 :: nat)" "of_char c mod 16 < (16 :: nat)"
  using nat_of_char_less_256 [of c] less_mult_imp_div_less [of "of_char c" 16 16] by simp_all

lemma escape_char_plain: "x \<in> set (escape_char c) \<Longrightarrow> x \<notin> set ''&=''"
  using query_safe_not [of c] hex_digits(2) [OF char_nibbles(1) [of c]] hex_digits(2) [OF char_nibbles(2) [of c]]
  by (auto simp: escape_char_def split: if_splits)

lemma query_escape_plain: "CHR ''&'' \<notin> set (query_escape s)" "CHR ''='' \<notin> set (query_escape s)"
  using escape_char_plain by (fastforce simp: query_escape_def)+

lemma unescape_char: "query_unescape (escape_char c @ s) = map_option ((#) c) (query_unescape s)"
proof -
  have "16 * (of_char c div 16) + of_char c mod 16 = (of_char c :: nat)" by simp
  then show ?thesis using query_safe_not [of c] hex_digits(1) [OF char_nibbles(1)] hex_digits(1) [OF char_nibbles(2)]
    by (auto simp: escape_char_def)
qed

lemma query_unescape_escape [simp]: "query_unescape (query_escape s) = Some s"
  by (induction s) (simp_all add: query_escape_def unescape_char)

lemma parse_pair_encoded: "parse_pair (query_escape k @ CHR ''='' # query_escape v) = Some (k, v)"
  using query_escape_plain(2) [of k] by (simp add: parse_pair_def)

text \<open>Peerbook learns exactly who the agent is: whatever characters the name of the host, the user
  id or the fingerprint have, the query of the URL that \<open>Dial\<close> connects to reads back as the four
  values, in the order of their keys.\<close>

lemma dial_query_roundtrip:
  "\<exists>q. dial_url insecure host fp name uid = (if insecure then ''ws'' else ''wss'') @ ''://'' @ host @ ''/ws?'' @ q \<and>
     parse_query q = Some [(''fp'', fp), (''kind'', ''webexec''), (''name'', name), (''uid'', uid)]"
proof -
  let ?ps = "map (\<lambda>(k, v). query_escape k @ CHR ''='' # query_escape v) (dial_params fp name uid)"
  have "\<forall>p \<in> set ?ps. CHR ''&'' \<notin> set p" using query_escape_plain(1) by auto
  then have "split_on (CHR ''&'') (join_with (CHR ''&'') ?ps) = ?ps"
    by (rule split_on_join) (simp add: dial_params_def)
  then have "parse_query (encode_values (dial_params fp name uid)) = Some (dial_params fp name uid)"
    by (simp add: parse_query_def encode_values_def) (simp add: dial_params_def parse_pair_encoded)
  then show ?thesis unfolding dial_url_def dial_params_def by blast
qed

end
