(* ===== verification/Configuration.thy ===== *)
theory Configuration
  imports File_Auth
begin

section \<open>The configuration: conf.go\<close>

text \<open>
  The TOML library is outside: a loaded tree is the function \<open>get\<close> that \<open>Tree.Get\<close> is, from dotted
  paths to values. A type assertion \<open>v.(string)\<close> on a value of another type panics, and so does
  reading the first byte of an empty path. Durations are \<open>int64\<close> nanoseconds.
\<close>

record iceServer =
  ice_urls :: "bytes list"
  ice_username :: bytes
  ice_credential :: bytes

text \<open>An array of tables is the list of what \<open>Unmarshal\<close> makes of each, \<open>None\<close> being its error; a table
  lists its members in the order in which they are ranged over.\<close>

datatype toml =
    TStr bytes
  | TInt int
  | TBool bool
  | TServers "iceServer option list"
  | TTree "(bytes \<times> toml) list"
  | TOther

definition as_str :: "toml \<Rightarrow> bytes option" where
  "as_str v = (case v of TStr s \<Rightarrow> Some s | _ \<Rightarrow> None)"

definition as_int :: "toml \<Rightarrow> int option" where
  "as_int v = (case v of TInt i \<Rightarrow> Some i | _ \<Rightarrow> None)"

definition as_bool :: "toml \<Rightarrow> bool option" where
  "as_bool v = (case v of TBool b \<Rightarrow> Some b | _ \<Rightarrow> None)"

definition as_servers :: "toml \<Rightarrow> iceServer option list option" where
  "as_servers v = (case v of TServers ss \<Rightarrow> Some ss | _ \<Rightarrow> None)"

definition as_tree :: "toml \<Rightarrow> (bytes \<times> toml) list option" where
  "as_tree v = (case v of TTree kvs \<Rightarrow> Some kvs | _ \<Rightarrow> None)"

subsection \<open>Paths\<close>

definition ConfPath :: "bytes \<Rightarrow> bytes \<Rightarrow> bytes" where
  "ConfPath home suffix = path_join [home, ''.config'', ''webexec'', suffix]"

text \<open>\<open>RunPath\<close> and \<open>LogPath\<close> also make the directory when it is missing.\<close>

definition RunPath :: "bytes \<Rightarrow> bytes \<Rightarrow> bytes" where
  "RunPath home suffix = path_join [path_join [home, ''.local'', ''state'', ''webexec''], suffix]"

definition LogPath :: "bytes \<Rightarrow> bytes \<Rightarrow> bytes" where
  "LogPath home suffix = path_join [path_join [home, ''.local'', ''state'', ''webexec''], suffix]"

definition logFilePath :: "bytes \<Rightarrow> (bytes \<Rightarrow> toml option) \<Rightarrow> bytes \<Rightarrow> bytes \<Rightarrow> bytes option" where
  "logFilePath home get path def =
     (case get path of
        None \<Rightarrow> Some (LogPath home def)
      | Some v \<Rightarrow> do {
          ret \<leftarrow> as_str v;
          (case ret of
             [] \<Rightarrow> None
           | c # _ \<Rightarrow> Some (if c \<noteq> CHR ''/'' then LogPath home def else ret))
        })"

subsection \<open>Numbers\<close>

text \<open>The product of two \<open>int64\<close> wraps around.\<close>

definition wrap64 :: "int \<Rightarrow> int" where
  "wrap64 i = (i + 2 ^ 63) mod 2 ^ 64 - 2 ^ 63"

definition millis :: "int \<Rightarrow> int" where
  "millis i = wrap64 (i * 1000000)"

definition to_uint16 :: "int \<Rightarrow> uint16" where
  "to_uint16 i = of_int i"

subsection \<open>parseConf\<close>

datatype log_level = DebugLevel | InfoLevel | WarnLevel | ErrorLevel

record peers_conf =
  DisconnectTimeout :: int
  FailedTimeout :: int
  KeepAliveInterval :: int
  GatheringTimeout :: int
  AckTimeout :: int
  PortMin :: uint16
  PortMax :: uint16
  Env :: "bytes \<rightharpoonup> bytes"

record conf =
  logFile :: bytes
  logLevel :: log_level
  errFile :: bytes
  peerbookTimeout :: int
  iceServers :: "iceServer list"
  peerbookHost :: bytes
  insecure :: bool
  peerbookUID :: bytes
  host_name :: bytes

datatype conf_error = TomlFailed | IceServerFailed | MissingConf | ParseFailed

text \<open>A key with its default: the pattern of every \<open>v = t.Get(...); if v != nil\<close>.\<close>

definition get_or :: "(bytes \<Rightarrow> toml option) \<Rightarrow> bytes \<Rightarrow> (toml \<Rightarrow> 'a option) \<Rightarrow> 'a \<Rightarrow> 'a option" where
  "get_or get path conv def = (case get path of None \<Rightarrow> Some def | Some v \<Rightarrow> conv v)"

definition as_millis :: "toml \<Rightarrow> int option" where
  "as_millis v = map_option millis (as_int v)"

definition as_level :: "toml \<Rightarrow> log_level option" where
  "as_level v =
     map_option (\<lambda>l. if l = ''info'' then InfoLevel else if l = ''warn'' then WarnLevel
                     else if l = ''debug'' then DebugLevel else ErrorLevel) (as_str v)"

text \<open>The loop over the ICE servers: those before the first that fails are kept.\<close>

fun load_servers :: "iceServer option list \<Rightarrow> iceServer list \<Rightarrow> iceServer list \<times> bool" where
  "load_servers [] acc = (acc, True)"
| "load_servers (None # us) acc = (acc, False)"
| "load_servers (Some u # us) acc = load_servers us (acc @ [u])"

fun load_env :: "(bytes \<times> toml) list \<Rightarrow> (bytes \<rightharpoonup> bytes) \<Rightarrow> (bytes \<rightharpoonup> bytes) option" where
  "load_env [] m = Some m"
| "load_env ((k, v) # kvs) m = do { s \<leftarrow> as_str v; load_env kvs (m(k \<mapsto> s)) }"

definition as_env :: "(bytes \<rightharpoonup> bytes) \<Rightarrow> toml \<Rightarrow> (bytes \<rightharpoonup> bytes) option" where
  "as_env m v = do { kvs \<leftarrow> as_tree v; load_env kvs m }"

definition default_timeouts :: "(bytes \<Rightarrow> toml option) \<Rightarrow> (int \<times> int \<times> int \<times> int \<times> int) option" where
  "default_timeouts get = do {
     disconnect \<leftarrow> get_or get ''timeouts.disconnect'' as_millis 3000000000;
     failed \<leftarrow> get_or get ''timeouts.failed'' as_millis 6000000000;
     keep_alive \<leftarrow> get_or get ''timeouts.keep_alive'' as_millis 1000000000;
     gathering \<leftarrow> get_or get ''timeouts.ice_gathering'' as_millis 3000000000;
     ack \<leftarrow> get_or get ''timeouts.ack'' as_millis 3000000000;
     Some (disconnect, failed, keep_alive, gathering, ack)
   }"

text \<open>The first part: the log, the timeouts and the ICE servers.\<close>

definition parse_ice ::
  "(bytes \<Rightarrow> toml option) \<Rightarrow> conf \<Rightarrow> (conf \<times> bool) option" where
  "parse_ice get c =
     (case get ''ice_servers'' of
        None \<Rightarrow> Some (c, True)
      | Some v \<Rightarrow> do {
          us \<leftarrow> as_servers v;
          let (ss, ok) = load_servers us [];
          Some (c\<lparr>iceServers := ss\<rparr>, ok)
        })"

definition parse_log :: "bytes \<Rightarrow> (bytes \<Rightarrow> toml option) \<Rightarrow> conf \<Rightarrow> conf option" where
  "parse_log home get c = do {
     lf \<leftarrow> logFilePath home get ''log.file'' ''webexec.log'';
     ef \<leftarrow> logFilePath home get ''log.error'' ''webexec.err'';
     level \<leftarrow> get_or get ''log.level'' as_level WarnLevel;
     timeout \<leftarrow> get_or get ''timeouts.peerbook'' as_millis 3000000000;
     Some (c\<lparr>logFile := lf, errFile := ef, logLevel := level, peerbookTimeout := timeout\<rparr>)
   }"

text \<open>The last part: peerbook. \<open>hostname\<close> is the answer of \<open>os.Hostname\<close>; when it fails, the code says so
  to the log and leaves the name empty: the \<open>anonymous\<close> goes to a local variable. \<open>logger\<close>: whether
  \<open>Logger\<close> is set. \<open>start\<close>, \<open>stop\<close> and \<open>accept\<close> load the configuration while it is still nil, and using
  it panics.\<close>

definition own_name :: "bool \<Rightarrow> bytes option \<Rightarrow> bytes option" where
  "own_name logger hostname =
     (case hostname of Some h \<Rightarrow> Some h | None \<Rightarrow> if logger then Some [] else None)"

definition parse_peerbook ::
  "bool \<Rightarrow> bytes option \<Rightarrow> (bytes \<Rightarrow> toml option) \<Rightarrow> conf \<Rightarrow> conf option" where
  "parse_peerbook logger hostname get c =
     (case get ''peerbook.user_id'' of
        None \<Rightarrow> Some c
      | Some v \<Rightarrow> do {
          uid \<leftarrow> as_str v;
          host \<leftarrow> get_or get ''peerbook.host'' as_str ''api.peerbook.io'';
          nm \<leftarrow> (case get ''peerbook.name'' of Some v \<Rightarrow> as_str v | None \<Rightarrow> own_name logger hostname);
          Some (c\<lparr>peerbookUID := uid, peerbookHost := host, host_name := nm\<rparr>)
        })"

definition parse_rest ::
  "bytes \<Rightarrow> bool \<Rightarrow> bytes option \<Rightarrow> (bytes \<Rightarrow> toml option) \<Rightarrow> int \<times> int \<times> int \<times> int \<times> int \<Rightarrow> conf \<Rightarrow>
   (conf \<times> peers_conf \<times> bytes) option" where
  "parse_rest sock logger hostname get ts c = do {
     addr \<leftarrow> get_or get ''net.http_server'' as_str ''127.0.0.1:7777'';
     pmin \<leftarrow> get_or get ''net.udp_port_min'' (map_option to_uint16 \<circ> as_int) 60000;
     pmax \<leftarrow> get_or get ''net.udp_port_max'' (map_option to_uint16 \<circ> as_int) 61000;
     ins \<leftarrow> get_or get ''peerbook.insecure'' as_bool (insecure c);
     vars \<leftarrow> get_or get ''env'' (as_env [''WEBEXEC'' \<mapsto> sock]) [''WEBEXEC'' \<mapsto> sock];
     c1 \<leftarrow> parse_peerbook logger hostname get (c\<lparr>insecure := ins\<rparr>);
     (case ts of (disconnect, failed, keep_alive, gathering, ack) \<Rightarrow>
        Some (c1,
          \<lparr>DisconnectTimeout = disconnect, FailedTimeout = failed, KeepAliveInterval = keep_alive,
           GatheringTimeout = gathering, AckTimeout = ack, PortMin = pmin, PortMax = pmax,
           Env = vars\<rparr>, addr))
   }"

text \<open>\<open>loaded\<close> is the result of \<open>toml.Load\<close>. The global \<open>Conf\<close> goes in and comes out: what the text does
  not set keeps its value from an earlier call.\<close>

definition parseConf ::
  "bytes \<Rightarrow> bytes \<Rightarrow> bool \<Rightarrow> bytes option \<Rightarrow> (bytes \<Rightarrow> toml option) option \<Rightarrow> conf \<Rightarrow>
   (conf \<times> (conf_error + peers_conf \<times> bytes)) option" where
  "parseConf home sock logger hostname loaded c =
     (case loaded of
        None \<Rightarrow> Some (c, Inl TomlFailed)
      | Some get \<Rightarrow> do {
          c1 \<leftarrow> parse_log home get c;
          ts \<leftarrow> default_timeouts get;
          (c2, ok) \<leftarrow> parse_ice get c1;
          if \<not> ok then Some (c2, Inl IceServerFailed)
          else do {
            (c3, pc, addr) \<leftarrow> parse_rest sock logger hostname get ts c2;
            Some (c3, Inr (pc, addr))
          }
        })"

text \<open>\<open>LoadConf\<close> reads the file and takes the first certificate; \<open>load\<close> is \<open>toml.Load\<close>.\<close>

definition loadConf ::
  "bytes \<Rightarrow> bytes \<Rightarrow> bool \<Rightarrow> bytes option \<Rightarrow> (bytes \<Rightarrow> (bytes \<Rightarrow> toml option) option) \<Rightarrow> nat \<Rightarrow> files \<Rightarrow> conf \<Rightarrow>
   (conf \<times> (conf_error + peers_conf \<times> bytes)) option" where
  "loadConf home sock logger hostname load certs fs c =
     (case fs (ConfPath home ''webexec.conf'') of
        None \<Rightarrow> Some (c, Inl MissingConf)
      | Some text \<Rightarrow> do {
          (c1, res) \<leftarrow> parseConf home sock logger hostname (load text) c;
          (case res of
             Inl _ \<Rightarrow> Some (c1, Inl ParseFailed)
           | Inr r \<Rightarrow> if certs = 0 then None else Some (c1, Inr r))
        })"

subsection \<open>createConf\<close>

definition default_conf_lines :: "bytes list" where
  \<open>default_conf_lines =
     [''# webexec's configuration. in toml.'',
      ''# to learn more: https://github.com/tuzig/webexec/blob/master/docs/conf.md'',
      ''[log]'',
      ''level = "info"'',
      ''# for absolute path by starting with a /'',
      ''# relative path is /var/log/webexec.$USER'',
      ''file = "webexec.log"'',
      ''error = "webexec.err"'',
      ''# next can be uncommented to debug pion components'',
      ''# pion_levels = { trace = "sctp" }'',
      ''[net]'',
      ''http_server = "0.0.0.0:7777"'',
      ''udp_port_min = 60000'',
      ''udp_port_max = 61000'',
      ''[timeouts]'',
      ''ack = 3000'',
      ''disconnect = 3000'',
      ''failed = 6000'',
      ''ice_gathering = 5000'',
      ''keep_alive = 500'',
      ''peerbook = 3000'',
      ''[[ice_servers]]'',
      ''urls = [ "stun:stun.l.google.com:19302" ]'',
      ''[env]'',
      ''COLORTERM = "truecolor"'',
      ''TERM = "xterm-256color"'']\<close>

text \<open>The values are put between quotes as they are.\<close>

definition peerbook_lines :: "bytes \<Rightarrow> bytes \<Rightarrow> bytes \<Rightarrow> bytes list" where
  \<open>peerbook_lines host uid nm =
     [''[peerbook]'', ''host = "'' @ host @ ''"'', ''user_id = "'' @ uid @ ''"'',
      ''name = "'' @ nm @ ''"'']\<close>

definition conf_text :: "bytes \<Rightarrow> bytes \<Rightarrow> bytes \<Rightarrow> bytes" where
  "conf_text uid host nm =
     write_lines default_conf_lines @
     (if uid = [] then []
      else write_lines (peerbook_lines (if host = [] then ''api.peerbook.io'' else host) uid nm))"

text \<open>\<open>may_create\<close> and \<open>may_write\<close>: whether \<open>os.Create\<close> and the write succeed.\<close>

datatype create_error = CreateFailed | WriteFailed

definition createConf ::
  "bytes \<Rightarrow> bool \<Rightarrow> bool \<Rightarrow> bytes \<Rightarrow> bytes \<Rightarrow> bytes \<Rightarrow> files \<Rightarrow> files \<times> (create_error + bytes)" where
  "createConf home may_create may_write uid host nm fs =
     (let p = ConfPath home ''webexec.conf''
      in if \<not> may_create then (fs, Inl CreateFailed)
         else if \<not> may_write then (fs(p \<mapsto> []), Inl WriteFailed)
         else (fs(p \<mapsto> conf_text uid host nm), Inr p))"

subsection \<open>Which configurations are accepted\<close>

definition typed :: "(bytes \<Rightarrow> toml option) \<Rightarrow> (toml \<Rightarrow> bool) \<Rightarrow> bytes list \<Rightarrow> bool" where
  "typed get P ks \<longleftrightarrow> (\<forall>k \<in> set ks. \<forall>v. get k = Some v \<longrightarrow> P v)"

definition is_str :: "toml \<Rightarrow> bool" where "is_str v \<longleftrightarrow> (\<exists>s. v = TStr s)"
definition is_path :: "toml \<Rightarrow> bool" where "is_path v \<longleftrightarrow> (\<exists>s. v = TStr s \<and> s \<noteq> [])"
definition is_int :: "toml \<Rightarrow> bool" where "is_int v \<longleftrightarrow> (\<exists>i. v = TInt i)"
definition is_bool :: "toml \<Rightarrow> bool" where "is_bool v \<longleftrightarrow> (\<exists>b. v = TBool b)"
definition is_servers :: "toml \<Rightarrow> bool" where "is_servers v \<longleftrightarrow> (\<exists>us. v = TServers us)"
definition is_env :: "toml \<Rightarrow> bool" where
  "is_env v \<longleftrightarrow> (\<exists>kvs. v = TTree kvs \<and> (\<forall>(k, w) \<in> set kvs. is_str w))"

lemmas is_defs = is_str_def is_path_def is_int_def is_bool_def is_servers_def is_env_def

lemma as_None [simp]:
  "as_str v = None \<longleftrightarrow> \<not> is_str v" "as_int v = None \<longleftrightarrow> \<not> is_int v"
  "as_bool v = None \<longleftrightarrow> \<not> is_bool v" "as_servers v = None \<longleftrightarrow> \<not> is_servers v"
  "as_millis v = None \<longleftrightarrow> \<not> is_int v" "as_level v = None \<longleftrightarrow> \<not> is_str v"
  by (cases v; simp add: as_str_def as_int_def as_bool_def as_servers_def as_millis_def as_level_def is_defs)+

lemma get_or_None: "get_or get k conv d = None \<longleftrightarrow> \<not> typed get (\<lambda>v. conv v \<noteq> None) [k]"
  by (auto simp: get_or_def typed_def split: option.splits)

lemma load_env_None: "load_env kvs m = None \<longleftrightarrow> \<not> (\<forall>(k, w) \<in> set kvs. is_str w)"
proof (induction kvs arbitrary: m)
  case (Cons kv kvs)
  then show ?case by (cases kv; cases "snd kv") (auto simp: as_str_def is_str_def)
qed simp

lemma as_env_None [simp]: "as_env m v = None \<longleftrightarrow> \<not> is_env v"
  by (cases v) (simp_all add: as_env_def as_tree_def load_env_None is_env_def)

lemma get_or_Some: "(\<exists>x. get_or get k conv d = Some x) \<longleftrightarrow> typed get (\<lambda>v. conv v \<noteq> None) [k]"
  using get_or_None [of get k conv d] by auto

lemma bind_None: "Option.bind m f = None \<longleftrightarrow> m = None \<or> (\<exists>x. m = Some x \<and> f x = None)"
  by (cases m) auto

lemma logFilePath_None: "logFilePath home get k d = None \<longleftrightarrow> \<not> typed get is_path [k]"
  by (auto simp: logFilePath_def typed_def as_str_def is_path_def split: option.splits toml.splits list.splits)

lemma logFilePath_Some: "(\<exists>x. logFilePath home get k d = Some x) \<longleftrightarrow> typed get is_path [k]"
  using logFilePath_None [of home get k d] by auto

lemma load_servers_ok: "snd (load_servers us acc) \<longleftrightarrow> None \<notin> set us"
  by (induction us acc rule: load_servers.induct) auto

lemma typed_Cons: "typed get P (k # l # ks) \<longleftrightarrow> typed get P [k] \<and> typed get P (l # ks)"
  by (auto simp: typed_def)

lemmas panics_simps = bind_None get_or_None get_or_Some logFilePath_None logFilePath_Some typed_Cons
  option.distinct ex_simps simp_thms as_None as_env_None option.map_disc_iff comp_apply

definition log_keys :: "bytes list" where
  "log_keys = [''log.file'', ''log.error'']"

definition timeout_keys :: "bytes list" where
  "timeout_keys = [''timeouts.peerbook'', ''timeouts.disconnect'', ''timeouts.failed'',
     ''timeouts.keep_alive'', ''timeouts.ice_gathering'', ''timeouts.ack'']"

definition port_keys :: "bytes list" where
  "port_keys = [''net.udp_port_min'', ''net.udp_port_max'']"

lemma parse_log_None:
  "parse_log home get c = None \<longleftrightarrow> \<not> (typed get is_path log_keys \<and> typed get is_str [''log.level''] \<and>
     typed get is_int [''timeouts.peerbook''])"
  unfolding parse_log_def log_keys_def by (simp only: panics_simps) blast

lemma default_timeouts_None:
  "default_timeouts get = None \<longleftrightarrow> \<not> typed get is_int (tl timeout_keys)"
  unfolding default_timeouts_def timeout_keys_def list.sel by (simp only: panics_simps) blast

lemma parse_ice_None:
  "parse_ice get c = None \<longleftrightarrow> \<not> typed get is_servers [''ice_servers'']"
proof (cases "get ''ice_servers''")
  case (Some v)
  have "is_servers v \<longleftrightarrow> as_servers v \<noteq> None" by simp
  with Some show ?thesis by (auto simp: parse_ice_def typed_def Let_def split_def simp del: as_None)
qed (simp add: parse_ice_def typed_def)

lemma own_name_None: "own_name logger hostname = None \<longleftrightarrow> hostname = None \<and> \<not> logger"
  by (simp add: own_name_def split: option.split)

text \<open>\<open>named\<close>: the host has a name, or there is a log to say that it has none.\<close>

definition named :: "bool \<Rightarrow> bytes option \<Rightarrow> (bytes \<Rightarrow> toml option) \<Rightarrow> bool" where
  "named logger hostname get \<longleftrightarrow> get ''peerbook.name'' \<noteq> None \<or> hostname \<noteq> None \<or> logger"

lemma parse_peerbook_None:
  "parse_peerbook logger hostname get c = None \<longleftrightarrow>
    get ''peerbook.user_id'' \<noteq> None \<and>
    \<not> (typed get is_str [''peerbook.user_id'', ''peerbook.host'', ''peerbook.name''] \<and> named logger hostname get)"
proof (cases "get ''peerbook.user_id''")
  case (Some v)
  have uid: "(\<exists>s. as_str v = Some s) \<longleftrightarrow> is_str v" by (cases v) (simp_all add: as_str_def is_str_def)
  from Some have v: "typed get is_str [''peerbook.user_id''] \<longleftrightarrow> is_str v" by (simp add: typed_def)
  have "(case get ''peerbook.name'' of Some v \<Rightarrow> as_str v | None \<Rightarrow> own_name logger hostname) = None \<longleftrightarrow>
      \<not> (typed get is_str [''peerbook.name''] \<and> named logger hostname get)"
    by (cases "get ''peerbook.name''") (auto simp: typed_def named_def own_name_None)
  with uid v show ?thesis
    unfolding parse_peerbook_def Some option.case by (simp only: panics_simps) blast
qed (simp add: parse_peerbook_def)

lemma parse_rest_None:
  "parse_rest sock logger hostname get ts c = None \<longleftrightarrow>
    \<not> (typed get is_str [''net.http_server''] \<and> typed get is_int port_keys \<and>
       typed get is_bool [''peerbook.insecure''] \<and> typed get is_env [''env''] \<and>
       (get ''peerbook.user_id'' = None \<or>
        typed get is_str [''peerbook.user_id'', ''peerbook.host'', ''peerbook.name''] \<and> named logger hostname get))"
proof -
  have ts: "(case ts of (disconnect, failed, keep_alive, gathering, ack) \<Rightarrow>
      Some (f disconnect failed keep_alive gathering ack)) \<noteq> None" for f
    by (cases ts) simp
  show ?thesis
    unfolding parse_rest_def port_keys_def by (simp only: panics_simps ts parse_peerbook_None) argo
qed

text \<open>\<open>first_part\<close> and \<open>second_part\<close>: the keys looked at before and after the ICE servers, each with
  the type its documentation gives it.\<close>

definition first_part :: "(bytes \<Rightarrow> toml option) \<Rightarrow> bool" where
  "first_part get \<longleftrightarrow> typed get is_path log_keys \<and> typed get is_str [''log.level''] \<and>
     typed get is_int timeout_keys \<and> typed get is_servers [''ice_servers'']"

definition second_part :: "bool \<Rightarrow> bytes option \<Rightarrow> (bytes \<Rightarrow> toml option) \<Rightarrow> bool" where
  "second_part logger hostname get \<longleftrightarrow> typed get is_str [''net.http_server''] \<and> typed get is_int port_keys \<and>
     typed get is_bool [''peerbook.insecure''] \<and> typed get is_env [''env''] \<and>
     (get ''peerbook.user_id'' = None \<or>
      typed get is_str [''peerbook.user_id'', ''peerbook.host'', ''peerbook.name''] \<and> named logger hostname get)"

definition servers_load :: "(bytes \<Rightarrow> toml option) \<Rightarrow> bool" where
  "servers_load get \<longleftrightarrow> (\<forall>us. get ''ice_servers'' = Some (TServers us) \<longrightarrow> None \<notin> set us)"

lemma parse_ice_ok: "parse_ice get c = Some (c2, ok) \<Longrightarrow> ok \<longleftrightarrow> servers_load get"
  using load_servers_ok [of _ "[]"]
  by (auto simp: parse_ice_def servers_load_def as_servers_def split_def Let_def
      split: option.splits bind_splits toml.splits)

text \<open>C35. The configuration is dynamically typed: of a text that is TOML, \<open>parseConf\<close> panics exactly
  when a key it reads has another type than the documented one, when the path of a log is empty, or
  when a host with a user id but without a name is asked for its hostname in vain before there is a
  logger. The keys after the ICE servers are only read when these could be loaded, the other peerbook
  keys only with a user id. Any other text is accepted or refused with an error.\<close>

theorem configuration_types:
  "parseConf home sock logger hostname (Some get) c = None \<longleftrightarrow>
     \<not> (first_part get \<and> (servers_load get \<longrightarrow> second_part logger hostname get))"
proof (cases "first_part get")
  case False
  then have "parse_log home get c = None \<or> default_timeouts get = None \<or> (\<forall>c. parse_ice get c = None)"
    unfolding parse_log_None default_timeouts_None parse_ice_None first_part_def timeout_keys_def
    by (auto simp: typed_Cons)
  with False show ?thesis by (auto simp: parseConf_def bind_None)
next
  case True
  then obtain c1 ts where "parse_log home get c = Some c1" "default_timeouts get = Some ts"
    using parse_log_None [of home get c] default_timeouts_None [of get]
    unfolding first_part_def timeout_keys_def by (auto simp: typed_Cons)
  moreover obtain c2 ok where "parse_ice get c1 = Some (c2, ok)"
    using True parse_ice_None [of get c1] by (auto simp: first_part_def)
  moreover from this have "ok \<longleftrightarrow> servers_load get" by (rule parse_ice_ok)
  ultimately show ?thesis
    using True by (auto simp: parseConf_def bind_None parse_rest_None second_part_def)
qed

definition first_conf :: conf where
  "first_conf = \<lparr>logFile = [], logLevel = DebugLevel, errFile = [], peerbookTimeout = 0, iceServers = [],
     peerbookHost = [], insecure = False, peerbookUID = [], host_name = []\<rparr>"

theorem configuration_types_witness:
  "parseConf ''/home/u'' ''/run/s'' False None (Some (\<lambda>k. if k = ''timeouts.ack'' then Some (TStr ''3s'') else None)) first_conf = None"
  unfolding configuration_types by (simp add: first_part_def typed_def timeout_keys_def is_defs)

subsection \<open>The numbers of a configuration\<close>

text \<open>\<open>setting get k d\<close>: the number written at \<open>k\<close>, or its default; \<open>exact x ms\<close>: the duration \<open>x\<close> is
  an \<open>int64\<close>, and that many milliseconds unless those do not fit into one.\<close>

definition setting :: "(bytes \<Rightarrow> toml option) \<Rightarrow> bytes \<Rightarrow> int \<Rightarrow> int" where
  "setting get k d = (case get k of Some (TInt i) \<Rightarrow> i | _ \<Rightarrow> d)"

definition exact :: "int \<Rightarrow> int \<Rightarrow> bool" where
  "exact x ms \<longleftrightarrow> int_ok x \<and> (\<bar>ms\<bar> \<le> 9223372036854 \<longrightarrow> x = ms * 1000000)"

lemma wrap64_ok: "int_ok (wrap64 i)"
proof -
  have "0 \<le> (i + 2 ^ 63) mod 2 ^ 64" and "(i + 2 ^ 63) mod 2 ^ 64 < 2 ^ 64"
    by (rule pos_mod_sign, simp) (rule pos_mod_bound, simp)
  then show ?thesis by (simp add: wrap64_def int_ok_def min_int_def max_int_def)
qed

lemma wrap64_id: "int_ok i \<Longrightarrow> wrap64 i = i"
proof -
  assume "int_ok i"
  then have "(i + 2 ^ 63) mod 2 ^ 64 = i + 2 ^ 63"
    by (intro mod_pos_pos_trivial) (simp_all add: int_ok_def min_int_def max_int_def)
  then show ?thesis by (simp add: wrap64_def)
qed

lemma exact_millis: "exact (millis ms) ms"
proof -
  have "int_ok (ms * 1000000)" if "\<bar>ms\<bar> \<le> 9223372036854"
    using that unfolding int_ok_def min_int_def max_int_def by (simp add: abs_le_iff)
  then show ?thesis by (simp add: exact_def millis_def wrap64_ok wrap64_id)
qed

lemma exact_timeout:
  assumes "get_or get k as_millis (d * 1000000) = Some x" and "\<bar>d\<bar> \<le> 9223372036854"
  shows "exact x (setting get k d)"
proof (cases "get k")
  case None
  with assms show ?thesis
    by (auto simp: get_or_def setting_def exact_def int_ok_def min_int_def max_int_def)
next
  case (Some v)
  with assms show ?thesis
    by (cases v) (auto simp: get_or_def setting_def as_millis_def as_int_def exact_millis)
qed

lemma port_setting:
  assumes "get_or get k (map_option to_uint16 \<circ> as_int) (to_uint16 d) = Some x"
  shows "uint x = setting get k d mod 65536"
proof -
  have "x = to_uint16 (setting get k d)"
    using assms by (auto simp: get_or_def setting_def as_int_def split: option.splits toml.splits)
  then show ?thesis by (simp add: to_uint16_def uint_word_of_int)
qed

text \<open>C36. The numbers of an accepted configuration: every timeout is the configured number of
  milliseconds, or its default, as long as \<open>|ms| \<le> 9223372036854\<close>, and an \<open>int64\<close> in any case; a
  port is the configured number modulo \<open>2 ^ 16\<close>, whatever was written. The defaults are those of the
  code: for the key \<open>keep_alive\<close> a second where \<open>docs/conf.md\<close> says 500 milliseconds, for
  \<open>ice_gathering\<close> three seconds where it says five.\<close>

theorem configuration_numbers:
  assumes "parseConf home sock logger hostname (Some get) c = Some (c', Inr (pc, addr))"
  shows "exact (peerbookTimeout c') (setting get ''timeouts.peerbook'' 3000) \<and>
    exact (DisconnectTimeout pc) (setting get ''timeouts.disconnect'' 3000) \<and>
    exact (FailedTimeout pc) (setting get ''timeouts.failed'' 6000) \<and>
    exact (KeepAliveInterval pc) (setting get ''timeouts.keep_alive'' 1000) \<and>
    exact (GatheringTimeout pc) (setting get ''timeouts.ice_gathering'' 3000) \<and>
    exact (AckTimeout pc) (setting get ''timeouts.ack'' 3000) \<and>
    uint (PortMin pc) = setting get ''net.udp_port_min'' 60000 mod 65536 \<and>
    uint (PortMax pc) = setting get ''net.udp_port_max'' 61000 mod 65536"
proof -
  from assms obtain c1 ts c2 c3 where log: "parse_log home get c = Some c1"
    and ts: "default_timeouts get = Some ts" and ice: "parse_ice get c1 = Some (c2, True)"
    and rest: "parse_rest sock logger hostname get ts c2 = Some (c', pc, addr)"
    by (auto simp: parseConf_def split: bind_splits if_splits)
  obtain d f k g a where t: "ts = (d, f, k, g, a)" by (cases ts)
  have "peerbookTimeout c' = peerbookTimeout c1"
    using ice rest
    by (auto simp: parse_ice_def parse_rest_def parse_peerbook_def t Let_def split_def
        split: option.splits bind_splits)
  moreover have "exact (peerbookTimeout c1) (setting get ''timeouts.peerbook'' 3000)"
    using log by (auto simp: parse_log_def split: bind_splits intro!: exact_timeout)
  moreover have "exact d (setting get ''timeouts.disconnect'' 3000)"
    "exact f (setting get ''timeouts.failed'' 6000)" "exact k (setting get ''timeouts.keep_alive'' 1000)"
    "exact g (setting get ''timeouts.ice_gathering'' 3000)" "exact a (setting get ''timeouts.ack'' 3000)"
    using ts by (auto simp: default_timeouts_def t split: bind_splits intro!: exact_timeout)
  moreover have "uint (PortMin pc) = setting get ''net.udp_port_min'' 60000 mod 65536"
    "uint (PortMax pc) = setting get ''net.udp_port_max'' 61000 mod 65536"
    using rest by (auto simp: parse_rest_def t to_uint16_def split: bind_splits intro!: port_setting)
  moreover have "DisconnectTimeout pc = d" "FailedTimeout pc = f" "KeepAliveInterval pc = k"
    "GatheringTimeout pc = g" "AckTimeout pc = a"
    using rest by (auto simp: parse_rest_def t split: bind_splits)
  ultimately show ?thesis by simp
qed

theorem configuration_numbers_witness:
  "\<exists>c' pc addr. parseConf ''/home/u'' ''/run/s'' False None
     (Some (\<lambda>k. if k = ''net.udp_port_max'' then Some (TInt 70000) else None)) first_conf = Some (c', Inr (pc, addr)) \<and>
   uint (PortMax pc) = 4464 \<and> AckTimeout pc = 3000000000"
proof -
  let ?get = "\<lambda>k. if k = ''net.udp_port_max'' then Some (TInt 70000) else None"
  have "\<exists>c' pc addr. parseConf ''/home/u'' ''/run/s'' False None (Some ?get) first_conf = Some (c', Inr (pc, addr))"
    by (simp add: parseConf_def parse_log_def logFilePath_def get_or_def default_timeouts_def parse_ice_def
        parse_rest_def parse_peerbook_def as_int_def)
  then obtain c' pc addr where p: "parseConf ''/home/u'' ''/run/s'' False None (Some ?get) first_conf = Some (c', Inr (pc, addr))"
    by blast
  with configuration_numbers [OF p] show ?thesis by (simp add: setting_def exact_def)
qed

text \<open>\<open>isValidEmail\<close>: no length is both below 3 and above 254, so the expression decides alone.\<close>

definition isValidEmail :: "(bytes \<Rightarrow> bool) \<Rightarrow> bytes \<Rightarrow> bool" where
  "isValidEmail emailRegex email =
     (if length email < 3 \<and> length email > 254 then False else emailRegex email)"

lemma isValidEmail_regex: "isValidEmail emailRegex email = emailRegex email"
proof -
  have "\<not> (length email < 3 \<and> length email > 254)" by linarith
  then show ?thesis unfolding isValidEmail_def by (simp only: if_False)
qed

end
