(* ===== verification/Sock_Server.thy ===== *)
theory Sock_Server
  imports Signaling Agent_Steps
begin

section \<open>The unix socket: sock.go\<close>

text \<open>
  The commands of the same machine talk to the agent over HTTP on a unix socket: its status, the
  layout, the clipboard, and offers with their candidates. The handlers return at once, or wait
  for something; a wait is cut in two definitions, before and after. As in the other server a
  panic is recovered (\<open>SAborted\<close>), and \<open>SWaits\<close> is a handler that blocks.
\<close>

subsection \<open>The status\<close>

text \<open>What \<open>GetCandidatePair\<close> reads of the library's statistics: \<open>PairStats\<close> with whether it is of type
  candidate-pair and nominated, and the ids of its two candidates.\<close>

record candidate_stats =
  cs_priority :: int
  cs_ip :: bytes
  cs_port :: int
  cs_proto :: bytes
  cs_type :: bytes

datatype report = PairStats bool bool bytes bytes | CandidateStats candidate_stats | OtherStats

text \<open>\<open>CandidatePairStats\<close>; each side is its address, protocol and type.\<close>

type_synonym side = "bytes \<times> bytes \<times> bytes"

record candidate_pair =
  cp_FP :: bytes
  cp_local :: side
  cp_remote :: side

text \<open>The address as \<open>%s:%d\<close> prints it.\<close>

definition cs_address :: "candidate_stats \<Rightarrow> bytes" where
  "cs_address c = cs_ip c @ CHR '':'' # show_int (cs_port c)"

datatype stats_error = NoConnection | NoLocal | NoRemote

definition as_candidate :: "report option \<Rightarrow> candidate_stats option" where
  "as_candidate r = (case r of Some (CandidateStats c) \<Rightarrow> Some c | _ \<Rightarrow> None)"

text \<open>One side: the candidate of higher priority than those before replaces them.\<close>

definition better ::
  "candidate_stats \<Rightarrow> int \<times> side \<Rightarrow> int \<times> side" where
  "better c best = (if fst best < cs_priority c
                    then (cs_priority c, cs_address c, cs_proto c, cs_type c) else best)"

fun pair_loop ::
  "(bytes \<rightharpoonup> report) \<Rightarrow> report list \<Rightarrow> int \<times> side \<Rightarrow>
   int \<times> side \<Rightarrow>
   stats_error + side \<times> side" where
  "pair_loop stats [] l r = Inr (snd l, snd r)"
| "pair_loop stats (rep # reps) l r =
     (case rep of
        PairStats is_pair nominated lid rid \<Rightarrow>
          if is_pair \<and> nominated
          then (case as_candidate (stats lid) of
                  None \<Rightarrow> Inl NoLocal
                | Some cl \<Rightarrow>
                    (case as_candidate (stats rid) of
                       None \<Rightarrow> Inl NoRemote
                     | Some cr \<Rightarrow> pair_loop stats reps (better cl l) (better cr r)))
          else pair_loop stats reps l r
      | _ \<Rightarrow> pair_loop stats reps l r)"

definition getCandidatePair :: "peer \<Rightarrow> (bytes \<rightharpoonup> report) \<Rightarrow> bytes list \<Rightarrow> stats_error + candidate_pair" where
  "getCandidatePair pr stats order =
     (if \<not> pr_PC pr then Inl NoConnection
      else case pair_loop stats (range_values stats order) (0, [], [], []) (0, [], [], []) of
             Inl e \<Rightarrow> Inl e
           | Inr (l, r) \<Rightarrow> Inr \<lparr>cp_FP = pr_FP pr, cp_local = l, cp_remote = r\<rparr>)"

text \<open>\<open>CandidatePairStats.Write\<close>, for a fingerprint of ASCII characters: it panics when there are less
  than six. The character after the fingerprint is U+F141.\<close>

definition side_fields :: "side \<Rightarrow> bytes list" where
  "side_fields x = (case x of (addr, proto, typ) \<Rightarrow> [addr, proto, typ])"

definition pair_write :: "candidate_pair \<Rightarrow> bytes option" where
  "pair_write p =
     (if length (cp_FP p) < 6 then None
      else Some (join_with (CHR 0x09)
             ((take 6 (cp_FP p) @ [CHR 0xEF, CHR 0x85, CHR 0x81]) # side_fields (cp_local p) @
              ''->'' # side_fields (cp_remote p)) @ [newline]))"

subsection \<open>The state of the server\<close>

text \<open>Answers: \<open>SError\<close> has the text given to \<open>http.Error\<close>, without the library error some end in;
  \<open>SAnswer\<close> is the answer to an offer with its status.\<close>

text \<open>\<open>LiveOffer\<close>: the two channels of five places, and whether its context was cancelled. An offer
  that is no longer in \<open>currentOffers\<close> lives on in the closures that hold it.\<close>

type_synonym lo_ref = nat

record live_offer =
  lo_incoming :: "bytes list"
  lo_cs :: "bytes list"
  lo_p :: peer_ref
  lo_id :: bytes
  lo_started :: bool
  lo_cancelled :: bool

record sock_server =
  sk_agent :: agent
  sk_offers :: "bytes \<rightharpoonup> lo_ref"
  sk_at :: "lo_ref \<Rightarrow> live_offer option"
  sk_next :: lo_ref

definition newSockServer :: "agent \<Rightarrow> sock_server" where
  "newSockServer a = \<lparr>sk_agent = a, sk_offers = Map.empty, sk_at = Map.empty, sk_next = 0\<rparr>"

datatype sreply =
    SError nat bytes
  | SBody bytes
  | SAnswer nat bytes bytes
  | SStatus bytes "candidate_pair list"
  | SAborted
  | SWaits

definition channel_size :: nat where
  "channel_size = 5"

subsection \<open>Candidates\<close>

text \<open>\<open>OnCandidate\<close> is the library's callback for each candidate of the agent; it waits when five are
  unread. \<open>incoming_turn\<close> is one turn of \<open>handleIncoming\<close>.\<close>

definition set_offer :: "lo_ref \<Rightarrow> live_offer \<Rightarrow> sock_server \<Rightarrow> sock_server" where
  "set_offer l lo s = s\<lparr>sk_at := (sk_at s)(l \<mapsto> lo)\<rparr>"

definition onCandidate :: "lo_ref \<Rightarrow> bytes option \<Rightarrow> sock_server \<Rightarrow> (sock_server \<times> bool) option" where
  "onCandidate l can s =
     (case can of
        None \<Rightarrow> Some (s, False)
      | Some c \<Rightarrow> do {
          lo \<leftarrow> sk_at s l;
          Some (if length (lo_cs lo) < channel_size
                then (set_offer l (lo\<lparr>lo_cs := lo_cs lo @ [c]\<rparr>) s, False) else (s, True))
        })"

definition incoming_turn :: "env \<Rightarrow> lo_ref \<Rightarrow> sock_server \<Rightarrow> sock_server option" where
  "incoming_turn E l s = do {
     lo \<leftarrow> sk_at s l;
     pr \<leftarrow> peer_at (sk_agent s) (lo_p lo);
     (case lo_incoming lo of
        [] \<Rightarrow> None
      | can # rest \<Rightarrow>
          let s1 = set_offer l (lo\<lparr>lo_incoming := rest\<rparr>) s
          in Some (if pr_PC pr then s1\<lparr>sk_agent := add_ice E (lo_p lo) can (sk_agent s1)\<rparr> else s1))
   }"

subsection \<open>Status and layout\<close>

text \<open>\<open>stats\<close> gives the statistics of a peer's connection with the order in which they are ranged
  over. A peer whose statistics fail is left out.\<close>

fun status_pairs ::
  "(peer_ref \<Rightarrow> (bytes \<rightharpoonup> report) \<times> bytes list) \<Rightarrow> agent \<Rightarrow> peer_ref list \<Rightarrow> candidate_pair list option" where
  "status_pairs stats a [] = Some []"
| "status_pairs stats a (p # ps) = do {
     pr \<leftarrow> peer_at a p;
     rest \<leftarrow> status_pairs stats a ps;
     Some (case getCandidatePair pr (fst (stats p)) (snd (stats p)) of
             Inl _ \<Rightarrow> rest | Inr cp \<Rightarrow> cp # rest)
   }"

definition handleStatus ::
  "env \<Rightarrow> bytes \<Rightarrow> (peer_ref \<Rightarrow> (bytes \<rightharpoonup> report) \<times> bytes list) \<Rightarrow> bytes \<Rightarrow> sock_server \<Rightarrow> sreply" where
  "handleStatus E version stats method s =
     (if method \<noteq> ''GET'' then SError 405 ''Method not allowed''
      else let a = sk_agent s
           in case status_pairs stats a (range_values (Peers a) (e_peers E (Peers a))) of
                None \<Rightarrow> SAborted | Some pairs \<Rightarrow> SStatus version pairs)"

definition handleLayout :: "bytes \<Rightarrow> bytes \<Rightarrow> sock_server \<Rightarrow> sock_server \<times> sreply" where
  "handleLayout method body s =
     (if method = ''GET'' then (s, SBody (Payload (sk_agent s)))
      else if method = ''POST'' then (s\<lparr>sk_agent := (sk_agent s)\<lparr>Payload := body\<rparr>\<rparr>, SBody [])
      else (s, SBody []))"

subsection \<open>The clipboard\<close>

text \<open>The part of \<open>SendControlMessageAndWait\<close> before it sends: what stays when the send panics.\<close>

definition wait_entry :: "env \<Rightarrow> peer_ref \<Rightarrow> bytes \<Rightarrow> out_args \<Rightarrow> agent \<Rightarrow> agent" where
  "wait_entry E p typ args a =
     (case newCTRLMessage E p typ args a of
        None \<Rightarrow> a
      | Some (a1, msg) \<Rightarrow>
          (case peer_at a1 p of
             None \<Rightarrow> a1
           | Some pr \<Rightarrow> set_peer p (pr\<lparr>pr_acks := (pr_acks pr)(om_ref msg \<mapsto> None)\<rparr>) a1))"

text \<open>GET: the active peer is asked, or the desktop's clipboard is read. \<open>Inr (p, n)\<close>: the handler
  waits for the answer to message \<open>n\<close> of peer \<open>p\<close>.\<close>

definition send_failed :: bytes where
  "send_failed = ''Failed to send the paste message''"

definition clipboard_get ::
  "env \<Rightarrow> bytes option \<Rightarrow> sock_server \<Rightarrow> sock_server \<times> (sreply + peer_ref \<times> int)" where
  "clipboard_get E local s =
     (case getActivePeer E (sk_agent s) of
        Some p \<Rightarrow>
          (case wait_start E p ''get_clipboard'' NoArgs (sk_agent s) of
             None \<Rightarrow> (s\<lparr>sk_agent := wait_entry E p ''get_clipboard'' NoArgs (sk_agent s)\<rparr>, Inl SAborted)
           | Some (a, None) \<Rightarrow> (s\<lparr>sk_agent := a\<rparr>, Inl (SError 500 send_failed))
           | Some (a, Some n) \<Rightarrow> (s\<lparr>sk_agent := a\<rparr>, Inr (p, n)))
      | None \<Rightarrow>
          (s, Inl (case local of
                     None \<Rightarrow> SError 501 ''Failed to read the clipboard'' | Some clip \<Rightarrow> SBody clip)))"

definition clipboard_got :: "peer_ref \<Rightarrow> int \<Rightarrow> bool \<Rightarrow> sock_server \<Rightarrow> sock_server \<times> sreply" where
  "clipboard_got p n timedout s =
     (case wait_end p n timedout (sk_agent s) of
        None \<Rightarrow> (s, SAborted)
      | Some (a, res) \<Rightarrow>
          (s\<lparr>sk_agent := a\<rparr>, case res of None \<Rightarrow> SError 500 send_failed | Some clip \<Rightarrow> SBody clip))"

text \<open>POST: a panic of \<open>SendMessage\<close> leaves the message counter raised.\<close>

definition clipboard_post ::
  "env \<Rightarrow> bool \<Rightarrow> bytes \<Rightarrow> bytes \<Rightarrow> sock_server \<Rightarrow> sock_server \<times> sreply" where
  "clipboard_post E local_ok mimetype body s =
     (case getActivePeer E (sk_agent s) of
        Some p \<Rightarrow>
          (case sendControlMessage E p ''set_clipboard'' (SetClipboardArgs body mimetype) (sk_agent s) of
             None \<Rightarrow>
               (s\<lparr>sk_agent := (case newCTRLMessage E p ''set_clipboard'' (SetClipboardArgs body mimetype)
                                    (sk_agent s) of None \<Rightarrow> sk_agent s | Some (a, _) \<Rightarrow> a)\<rparr>, SAborted)
           | Some (a, ok) \<Rightarrow> (s\<lparr>sk_agent := a\<rparr>, if ok then SBody [] else SError 500 send_failed))
      | None \<Rightarrow> (s, if local_ok then SBody [] else SError 501 ''Failed to write to the clipboard''))"

definition handleClipboard ::
  "env \<Rightarrow> bytes option \<Rightarrow> bool \<Rightarrow> bytes \<Rightarrow> bytes \<Rightarrow> bytes \<Rightarrow> sock_server \<Rightarrow>
   sock_server \<times> (sreply + peer_ref \<times> int)" where
  "handleClipboard E local local_ok method mimetype body s =
     (if method = ''GET'' then clipboard_get E local s
      else if method = ''POST''
      then (case clipboard_post E local_ok mimetype body s of (t, rep) \<Rightarrow> (t, Inl rep))
      else (s, Inl (SError 405 ''Method not allowed'')))"

text \<open>The programs of the desktop: what is run to read the clipboard, given the answers of \<open>xsel\<close> and
  \<open>xclip\<close> (\<open>Inl\<close> is the text of an error), and which one to write it.\<close>

datatype platform = Darwin | Linux | OtherPlatform

definition contains :: "bytes \<Rightarrow> bytes \<Rightarrow> bool" where
  "contains s sub \<longleftrightarrow> list_ex (\<lambda>n. take (length sub) (drop n s) = sub) [0..<Suc (length s)]"

definition readClipboard ::
  "platform \<Rightarrow> bytes option \<Rightarrow> bytes + bytes \<Rightarrow> bytes option \<Rightarrow> bytes option" where
  "readClipboard os pbpaste xsel xclip =
     (case os of
        Darwin \<Rightarrow> pbpaste
      | Linux \<Rightarrow> (case xsel of
                    Inr clip \<Rightarrow> Some clip
                  | Inl err \<Rightarrow> if contains err ''not found'' then xclip else None)
      | OtherPlatform \<Rightarrow> None)"

definition writeCommand :: "platform \<Rightarrow> bool \<Rightarrow> bytes list option" where
  "writeCommand os has_xsel =
     (case os of
        Darwin \<Rightarrow> Some [''pbcopy'']
      | Linux \<Rightarrow> Some (if has_xsel then [''xsel'', ''--clipboard'', ''--input'']
                        else [''xclip'', ''-selection'', ''clipboard''])
      | OtherPlatform \<Rightarrow> None)"

text \<open>\<open>writeClipboard\<close>: whether each of the calls on the command succeeds.\<close>

definition writeClipboard :: "platform \<Rightarrow> bool \<Rightarrow> bool \<Rightarrow> bool \<Rightarrow> bool \<Rightarrow> bool \<Rightarrow> bool \<Rightarrow> bool" where
  "writeClipboard os has_xsel pipe start write close wait \<longleftrightarrow>
     writeCommand os has_xsel \<noteq> None \<and> pipe \<and> start \<and> write \<and> close \<and> wait"

subsection \<open>Offers\<close>

text \<open>The parts of a path after its first slash: \<open>strings.Split(path[1:], "/")\<close>.\<close>

definition path_parts :: "bytes \<Rightarrow> bytes list option" where
  "path_parts path = (case path of [] \<Rightarrow> None | _ # rest \<Rightarrow> Some (split_on (CHR ''/'') rest))"

text \<open>The offer a GET or PUT names.\<close>

definition named_offer :: "bytes \<Rightarrow> bytes \<Rightarrow> bytes list \<Rightarrow> sock_server \<Rightarrow> sreply + lo_ref" where
  "named_offer bad unknown cs s =
     (case cs of
        [_, h] \<Rightarrow> (case sk_offers s h of None \<Rightarrow> Inl (SError 400 unknown) | Some l \<Rightarrow> Inr l)
      | _ \<Rightarrow> Inl (SError 400 bad))"

text \<open>The end of a GET: a candidate is there (\<open>candidate_json\<close> is its marshalling), or none came in
  five seconds. In the second case nothing at all is written while the connection is neither closed
  nor established, which \<open>net/http\<close> sends as 200 with an empty body.\<close>

definition get_candidate ::
  "(bytes \<Rightarrow> bytes option) \<Rightarrow> bool \<Rightarrow> lo_ref \<Rightarrow> sock_server \<Rightarrow> sock_server \<times> sreply" where
  "get_candidate candidate_json connected l s =
     (case sk_at s l of
        None \<Rightarrow> (s, SAborted)
      | Some lo \<Rightarrow>
          (case lo_cs lo of
             c # rest \<Rightarrow>
               (set_offer l (lo\<lparr>lo_cs := rest\<rparr>) s,
                case candidate_json c of
                  None \<Rightarrow> SError 500 ''Failed to marshal candidate'' | Some m \<Rightarrow> SBody m)
           | [] \<Rightarrow>
               (s, case peer_at (sk_agent s) (lo_p lo) of
                     None \<Rightarrow> SAborted
                   | Some pr \<Rightarrow>
                       if \<not> pr_PC pr then SError 503 ''Connection failed''
                       else if connected then SError 204 ''Connection established'' else SBody [])))"

definition offer_get ::
  "(bytes \<Rightarrow> bytes option) \<Rightarrow> bool \<Rightarrow> bytes list \<Rightarrow> sock_server \<Rightarrow> sock_server \<times> sreply" where
  "offer_get candidate_json connected cs s =
     (case named_offer ''GET path should be in the form `/accept/[hash]` '' ''request hash is unknown'' cs s of
        Inl rep \<Rightarrow> (s, rep)
      | Inr l \<Rightarrow> get_candidate candidate_json connected l s)"

text \<open>POST, once the peer is made. The offer is put in the table before anything can fail and stays
  there when something does. After a failure of \<open>CreateAnswer\<close> the handler goes on with an empty
  answer. \<open>h\<close> is the name \<open>uniuri.New\<close> makes up; \<open>wrote\<close> says whether the answer could be written.
  The second result tells whether the timer of 30 seconds runs.\<close>

definition offer_answer :: "rtc \<Rightarrow> bool \<Rightarrow> bytes \<Rightarrow> description \<Rightarrow> bool \<times> sreply \<times> bool" where
  "offer_answer R wrote h offer =
     (if \<not> rtc_set_remote R offer then (False, SError 500 ''Peer failed to listen'', False)
      else let (status, ans) = (case rtc_create_answer R of
                                  None \<Rightarrow> (500, \<lparr>d_type = [], d_sdp = []\<rparr>) | Some ans \<Rightarrow> (200, ans))
           in if \<not> rtc_set_local R ans then (True, SError 500 ''Failed to set local description'', False)
              else (True, SAnswer status (d_sdp ans) h, wrote))"

definition offer_post ::
  "env \<Rightarrow> rtc \<Rightarrow> bool \<Rightarrow> bytes \<Rightarrow> bytes \<Rightarrow> bytes \<Rightarrow> bytes list \<Rightarrow> sock_server \<Rightarrow>
   sock_server \<times> sreply \<times> lo_ref option" where
  "offer_post E R wrote h path body cs s =
     (if length cs \<noteq> 2 \<or> cs ! 1 \<noteq> []
      then (s, SError 400 (path @ newline # ''POST path should be `/offer` ''), None)
      else case rtc_unmarshal R body of
        None \<Rightarrow> (s, SError 400 ''Failed to decode offer'', None)
      | Some offer \<Rightarrow>
          (case offer_fingerprint R offer of
             None \<Rightarrow> (s, SAborted, None)
           | Some (Inl _) \<Rightarrow> (s, SError 400 ''Failed to get fingerprint from sdp'', None)
           | Some (Inr fp) \<Rightarrow>
               (case newPeer E fp (sk_agent s) of
                  (a, None) \<Rightarrow> (s\<lparr>sk_agent := a\<rparr>, SError 500 ''Failed to create a new peer'', None)
                | (a, Some p) \<Rightarrow>
                    (case offer_answer R wrote h offer of (started, rep, timer) \<Rightarrow>
                       let l = sk_next s;
                           lo = \<lparr>lo_incoming = [], lo_cs = [], lo_p = p, lo_id = h,
                                 lo_started = started, lo_cancelled = False\<rparr>
                       in (set_offer l lo (s\<lparr>sk_agent := a, sk_offers := (sk_offers s)(h \<mapsto> l), sk_next := Suc l\<rparr>),
                           rep, if timer then Some l else None)))))"

text \<open>The timer.\<close>

definition offer_expires :: "lo_ref \<Rightarrow> sock_server \<Rightarrow> sock_server" where
  "offer_expires l s =
     (case sk_at s l of
        None \<Rightarrow> s
      | Some lo \<Rightarrow>
          (set_offer l (lo\<lparr>lo_cancelled := True\<rparr>) s)
            \<lparr>sk_offers := (sk_offers s)(lo_id lo := None)\<rparr>)"

text \<open>PUT: an error reading the body is answered, and what was read is used all the same. It waits when
  five candidates are unread.\<close>

definition offer_put :: "bool \<Rightarrow> bytes \<Rightarrow> bytes list \<Rightarrow> sock_server \<Rightarrow> sock_server \<times> sreply" where
  "offer_put read_ok body cs s =
     (case named_offer ''PUT path should be in the form `/accept/[hash]` '' ''PUT hash is unknown'' cs s of
        Inl rep \<Rightarrow> (s, rep)
      | Inr l \<Rightarrow>
          (case sk_at s l of
             None \<Rightarrow> (s, SAborted)
           | Some lo \<Rightarrow>
               if channel_size \<le> length (lo_incoming lo) then (s, SWaits)
               else (set_offer l (lo\<lparr>lo_incoming := lo_incoming lo @ [body]\<rparr>) s,
                     if read_ok then SBody []
                     else SError 400 ''Failed to read candidate from request body'')))"

text \<open>The handler, for a GET whose wait is over.\<close>

definition handleSockOffer ::
  "env \<Rightarrow> rtc \<Rightarrow> (bytes \<Rightarrow> bytes option) \<Rightarrow> bool \<Rightarrow> bool \<Rightarrow> bool \<Rightarrow> bytes \<Rightarrow> bytes \<Rightarrow> bytes \<Rightarrow> bytes \<Rightarrow>
   sock_server \<Rightarrow> sock_server \<times> sreply" where
  "handleSockOffer E R candidate_json connected wrote read_ok h method path body s =
     (case path_parts path of
        None \<Rightarrow> (s, SAborted)
      | Some cs \<Rightarrow>
          if method = ''GET'' then offer_get candidate_json connected cs s
          else if method = ''POST''
          then (case offer_post E R wrote h path body cs s of (t, rep, _) \<Rightarrow> (t, rep))
          else if method = ''PUT'' then offer_put read_ok body cs s
          else (s, SBody []))"

subsection \<open>Starting the server\<close>

text \<open>\<open>StartSocketServer\<close> up to its hooks: a stale socket is removed, a missing directory made. The
  answers of \<open>Stat\<close> come in, the removals and directories it makes come out.\<close>

datatype stat_answer = StatOk | StatMissing | StatError

datatype socket_action = RemovedFile bytes | MadeDir bytes

definition prepareSocket ::
  "(bytes \<Rightarrow> stat_answer) \<Rightarrow> (bytes \<Rightarrow> bool) \<Rightarrow> (bytes \<Rightarrow> bool) \<Rightarrow> bytes \<Rightarrow> socket_action list \<times> bool" where
  "prepareSocket stat can_remove can_mkdir fp =
     (case stat fp of
        StatOk \<Rightarrow> if can_remove fp then ([RemovedFile fp], True) else ([], False)
      | StatMissing \<Rightarrow>
          (case stat (path_dir fp) of
             StatMissing \<Rightarrow>
               if can_mkdir (path_dir fp) then ([MadeDir (path_dir fp)], True) else ([], False)
           | StatOk \<Rightarrow> ([], True)
           | StatError \<Rightarrow> ([], False))
      | StatError \<Rightarrow> ([], True))"

definition getSockFP :: "bytes \<Rightarrow> bytes \<Rightarrow> bytes" where
  "getSockFP run_path socketFilePath = (if socketFilePath = [] then run_path else socketFilePath)"

end
