(* ===== verification/Quiet_Steps.thy ===== *)
theory Quiet_Steps
  imports Agent_Steps
begin

section \<open>Only senders print, only NewPeer brings in peers\<close>

text \<open>
  What a pane prints goes through the goroutines of the agent alone. Everything that comes from
  outside is \<open>hushed\<close>: it prints nothing, blocks no sender, and may only start read loops. All of it
  but \<open>NewPeer\<close> is also \<open>quiet\<close>: the table of peers stays as it is. \<open>chunks\<close> are the chunks a pane has
  printed, \<open>blocked\<close> and \<open>readers\<close> its counters, 0 when there is no pane.
  The facts have the state they start from in front, so that they chain.
\<close>

named_theorems quiet_intro \<open>operations that print nothing and bring in no peer\<close>

definition chunks :: "pane_ref \<Rightarrow> event list \<Rightarrow> bytes list" where
  "chunks r evs = concat (map (\<lambda>e. case e of Printed q m \<Rightarrow> if q = r then [m] else [] | _ \<Rightarrow> []) evs)"

lemma chunks_simps [simp]:
  "chunks r [] = []"
  "chunks r (evs @ evs') = chunks r evs @ chunks r evs'"
  "chunks r (e # evs) = (case e of Printed q m \<Rightarrow> if q = r then [m] else [] | _ \<Rightarrow> []) @ chunks r evs"
  by (simp_all add: chunks_def)

lemma printed_chunks: "printed r evs = concat (chunks r evs)"
  by (induction evs) (simp_all add: printed_def split: event.splits)

definition blocked :: "agent \<Rightarrow> pane_ref \<Rightarrow> nat" where
  "blocked a r = (case pane_at a r of None \<Rightarrow> 0 | Some pn \<Rightarrow> p_blocked pn)"

definition readers :: "agent \<Rightarrow> pane_ref \<Rightarrow> nat" where
  "readers a r = (case pane_at a r of None \<Rightarrow> 0 | Some pn \<Rightarrow> p_readers pn)"

definition panes_below :: "agent \<Rightarrow> bool" where
  "panes_below a \<longleftrightarrow> (\<forall>r \<ge> next_pane a. pane_at a r = None)"

definition hushed :: "agent \<Rightarrow> agent \<Rightarrow> bool" where
  "hushed a b \<longleftrightarrow> (panes_below a \<longrightarrow> panes_below b \<and>
     (\<forall>r. chunks r (sent b) = chunks r (sent a) \<and> blocked b r = blocked a r \<and> readers a r \<le> readers b r))"

definition quiet :: "agent \<Rightarrow> agent \<Rightarrow> bool" where
  "quiet a b \<longleftrightarrow> hushed a b \<and> Peers b = Peers a"

lemma quiet_hushed: "quiet a b \<Longrightarrow> hushed a b"
  by (simp add: quiet_def)

lemma quiet_refl [simp, quiet_intro]: "quiet a a"
  by (simp add: quiet_def hushed_def)

lemma quiet_trans [trans]: "quiet a b \<Longrightarrow> quiet b c \<Longrightarrow> quiet a c"
  unfolding quiet_def hushed_def by (metis order.trans)

lemmas quiet_then = quiet_trans [rotated]

lemma quiet_same:
  "pane_at b = pane_at a \<Longrightarrow> next_pane b = next_pane a \<Longrightarrow> sent b = sent a \<Longrightarrow>
   Peers b = Peers a \<Longrightarrow> quiet a b"
  by (simp add: quiet_def hushed_def panes_below_def blocked_def readers_def)

fun is_print :: "event \<Rightarrow> bool" where
  "is_print (Printed r m) \<longleftrightarrow> True"
| "is_print _ \<longleftrightarrow> False"

lemma quiet_emit [quiet_intro]:
  assumes "\<not> is_print e" and "quiet a0 a"
  shows "quiet a0 (emit e a)"
proof -
  have "quiet a (emit e a)"
    using assms(1) by (cases e) (simp_all add: quiet_def hushed_def panes_below_def blocked_def readers_def emit_def)
  with assms(2) show ?thesis by (rule quiet_trans)
qed

lemma quiet_set_pane [quiet_intro]:
  assumes "pane_at a r = Some pn" and "p_blocked pn' = p_blocked pn" and "p_readers pn \<le> p_readers pn'"
    and "quiet a0 a"
  shows "quiet a0 (set_pane r pn' a)"
proof -
  have "quiet a (set_pane r pn' a)"
    using assms(1-3) by (auto simp: quiet_def hushed_def panes_below_def blocked_def readers_def)
  with assms(4) show ?thesis by (rule quiet_trans)
qed

lemma quiet_update:
  assumes "pane_at (f a) = pane_at a" and "next_pane (f a) = next_pane a" and "sent (f a) = sent a"
    and "Peers (f a) = Peers a" and "quiet a0 a"
  shows "quiet a0 (f a)"
  using assms(5) quiet_same [OF assms(1-4)] by (rule quiet_trans)

lemma quiet_updates [quiet_intro]:
  "quiet a0 a \<Longrightarrow> quiet a0 (set_peer p pr a)"
  "quiet a0 a \<Longrightarrow> quiet a0 (a\<lparr>CDB := db\<rparr>)"
  "quiet a0 a \<Longrightarrow> quiet a0 (a\<lparr>Payload := x1\<rparr>)"
  "quiet a0 a \<Longrightarrow> quiet a0 (a\<lparr>lastMarker := n\<rparr>)"
  "quiet a0 a \<Longrightarrow> quiet a0 (a\<lparr>mostRecent := x2\<rparr>)"
  "quiet a0 a \<Longrightarrow> quiet a0 (a\<lparr>on_open := x3\<rparr>)"
  "quiet a0 a \<Longrightarrow> quiet a0 (a\<lparr>on_msg := x4\<rparr>)"
  "quiet a0 a \<Longrightarrow> quiet a0 (a\<lparr>on_close := x5\<rparr>)"
  "quiet a0 a \<Longrightarrow> quiet a0 (a\<lparr>on_msg := x4, on_close := x5\<rparr>)"
  "quiet a0 a \<Longrightarrow> quiet a0 (a\<lparr>timers := ts\<rparr>)"
  by (erule quiet_then [rotated], rule quiet_same; simp)+

lemma quiet_each:
  assumes "each f xs a = Some b" and "\<And>x u v. f x u = Some v \<Longrightarrow> quiet u v"
  shows "quiet a b"
  by (rule each_invariant [OF assms(1), where P = "quiet a"]) (auto intro: quiet_trans assms(2))

lemma quiet_fold:
  assumes "\<And>x u. quiet u (f x u)"
  shows "quiet a (fold f xs a)"
  by (induction xs arbitrary: a) (auto intro: quiet_trans assms)

subsection \<open>The operations of a pane\<close>

lemma dc_send_quiet [quiet_intro]: "quiet a0 a \<Longrightarrow> quiet a0 (fst (dc_send E d b a))"
  by (simp add: dc_send_def quiet_intro)

lemma drop_client_quiet [quiet_intro]: "quiet a0 a \<Longrightarrow> quiet a0 (drop_client E c a)"
  by (auto simp: drop_client_def intro: quiet_intro split: sum.splits)

lemma add_client_quiet: "add_client d r p a = (b, c) \<Longrightarrow> quiet a0 a \<Longrightarrow> quiet a0 b"
  by (auto simp: add_client_def intro: quiet_intro split: prod.splits)

lemma deliver_quiet: "quiet a0 a \<Longrightarrow> quiet a0 (deliver E m cs a)"
  by (induction cs arbitrary: a) (simp_all add: quiet_intro)

lemma attach_quiet [quiet_intro]: "quiet a0 a \<Longrightarrow> quiet a0 (attach d p r a)"
  by (auto simp: attach_def intro: quiet_intro dest: add_client_quiet split: prod.splits)

lemma kill_clients_quiet [quiet_intro]: "quiet a0 a \<Longrightarrow> quiet a0 (kill_clients E cs a)"
  by (induction cs arbitrary: a) (simp_all add: quiet_intro)

lemma kill_process_quiet [quiet_intro]: "quiet a0 a \<Longrightarrow> quiet a0 (kill_process pn a)"
  by (auto simp: kill_process_def intro: quiet_intro split: option.splits)

lemma close_tty_quiet [quiet_intro]: "quiet a0 a \<Longrightarrow> quiet a0 (close_tty pn a)"
  by (auto simp: close_tty_def intro: quiet_intro split: option.splits)

lemma pane_kill_quiet [quiet_intro]: "pane_kill E r a = Some b \<Longrightarrow> quiet a0 a \<Longrightarrow> quiet a0 b"
  by (auto simp: pane_kill_def Let_def intro!: quiet_intro split: bind_splits)

lemma reader_end_quiet: "reader_end E r a = Some b \<Longrightarrow> quiet a0 a \<Longrightarrow> quiet a0 b"
  by (auto simp: reader_end_def intro: quiet_intro split: bind_splits)

lemma pane_onMessage_quiet: "pane_onMessage E r m a = Some b \<Longrightarrow> quiet a0 a \<Longrightarrow> quiet a0 b"
  by (auto simp: pane_onMessage_def Let_def quiet_intro elim!: pane_kill_quiet
      split: bind_splits prod.splits if_splits)

lemma pane_resize_quiet: "pane_resize r ws a = Some b \<Longrightarrow> quiet a0 a \<Longrightarrow> quiet a0 b"
  by (auto simp: pane_resize_def quiet_intro split: bind_splits if_splits option.splits tty.splits)

lemma restore_quiet: "restore E r d marker a = Some b \<Longrightarrow> quiet a0 a \<Longrightarrow> quiet a0 b"
  by (auto simp: restore_def intro: quiet_intro split: bind_splits if_splits option.splits)

lemma fire_quiet: "fire E t a = Some b \<Longrightarrow> quiet a0 a \<Longrightarrow> quiet a0 b"
  by (auto simp: fire_def quiet_intro split: timer.splits bind_splits if_splits option.splits outcome.splits)

lemma newPane_quiet:
  assumes "newPane p ws parent a = Some (b, res)" and "quiet a0 a"
  shows "quiet a0 b"
proof -
  have "quiet a (set_pane (next_pane a) (fresh_pane p ws pid buf i)
      (a\<lparr>Panes := pd, next_pane := Suc (next_pane a)\<rparr>))" for pid buf i pd
    by (auto simp: quiet_def hushed_def panes_below_def blocked_def readers_def set_pane_def fresh_pane_def)
  then have "quiet a b"
    using assms(1) by (auto simp: newPane_def Let_def split: bind_splits option.splits prod.splits)
  with assms(2) show ?thesis by (rule quiet_trans)
qed

lemma pane_run_quiet: "pane_run E r cmd a = Some (b, ok) \<Longrightarrow> quiet a0 a \<Longrightarrow> quiet a0 b"
  by (auto simp: pane_run_def intro: quiet_intro split: bind_splits option.splits)

lemma sendFirstMessage_quiet: "sendFirstMessage E r d a = Some b \<Longrightarrow> quiet a0 a \<Longrightarrow> quiet a0 b"
  by (auto simp: sendFirstMessage_def intro: quiet_intro split: bind_splits)

lemma start_reader_quiet: "start_reader r a = Some b \<Longrightarrow> quiet a0 a \<Longrightarrow> quiet a0 b"
  by (auto simp: start_reader_def intro: quiet_intro split: bind_splits)

subsection \<open>The operations of a peer\<close>

lemma newPeer_hushed: "newPeer E fp a = (b, res) \<Longrightarrow> hushed a b"
  by (auto simp: newPeer_def Let_def hushed_def panes_below_def blocked_def readers_def split: if_splits)

lemma peer_close_quiet: "peer_close p a = Some b \<Longrightarrow> quiet a0 a \<Longrightarrow> quiet a0 b"
  by (auto simp: peer_close_def quiet_intro split: bind_splits if_splits)

lemma add_ice_quiet [quiet_intro]: "quiet a0 a \<Longrightarrow> quiet a0 (add_ice E p c a)"
  by (simp add: add_ice_def quiet_intro)

lemma fold_add_ice_quiet [quiet_intro]: "quiet a0 a \<Longrightarrow> quiet a0 (fold (add_ice E p) cs a)"
  by (induction cs arbitrary: a) (simp_all add: quiet_intro)

lemma stateChange_quiet: "stateChange E p st a = Some b \<Longrightarrow> quiet a0 a \<Longrightarrow> quiet a0 b"
  by (auto simp: stateChange_def quiet_intro elim: peer_close_quiet split: connection_state.splits bind_splits)

lemma addCandidate_quiet: "addCandidate E p c a = Some (b, res) \<Longrightarrow> quiet a0 a \<Longrightarrow> quiet a0 b"
  by (auto simp: addCandidate_def quiet_intro split: bind_splits if_splits)

lemma setLastPeer_quiet [quiet_intro]: "quiet a0 a \<Longrightarrow> quiet a0 (setLastPeer E p a)"
  by (simp add: setLastPeer_def quiet_intro)

lemma newCTRLMessage_quiet: "newCTRLMessage E p typ args a = Some (b, msg) \<Longrightarrow> quiet a0 a \<Longrightarrow> quiet a0 b"
  by (auto simp: newCTRLMessage_def Let_def quiet_intro split: bind_splits)

lemma sendMessage_quiet: "sendMessage E p msg a = Some (b, ok) \<Longrightarrow> quiet a0 a \<Longrightarrow> quiet a0 b"
  by (auto simp: sendMessage_def quiet_intro split: bind_splits if_splits)

lemma sendControlMessage_quiet:
  "sendControlMessage E p typ args a = Some (b, ok) \<Longrightarrow> quiet a0 a \<Longrightarrow> quiet a0 b"
  by (auto simp: sendControlMessage_def elim!: sendMessage_quiet newCTRLMessage_quiet split: bind_splits)

lemma sendAck_quiet: "sendAck E p m body a = Some b \<Longrightarrow> quiet a0 a \<Longrightarrow> quiet a0 b"
  by (auto simp: sendAck_def elim: sendControlMessage_quiet)

lemma sendNack_quiet: "sendNack E p m body a = Some b \<Longrightarrow> quiet a0 a \<Longrightarrow> quiet a0 b"
  by (auto simp: sendNack_def elim: sendControlMessage_quiet)

lemma broadcast_quiet:
  assumes "broadcast E p typ args a = Some b" and "quiet a0 a"
  shows "quiet a0 b"
proof -
  have "quiet a b"
    using assms(1) unfolding broadcast_def
    by (rule quiet_each)
      (auto simp: broadcast_one_def elim: sendControlMessage_quiet [OF _ quiet_refl] split: bind_splits if_splits)
  with assms(2) show ?thesis by (rule quiet_trans)
qed

lemma wait_start_quiet: "wait_start E p typ args a = Some (b, res) \<Longrightarrow> quiet a0 a \<Longrightarrow> quiet a0 b"
  by (auto simp: wait_start_def Let_def intro!: quiet_updates elim!: sendMessage_quiet elim: newCTRLMessage_quiet
      split: bind_splits)

lemma wait_end_quiet: "wait_end p n timedout a = Some (b, res) \<Longrightarrow> quiet a0 a \<Longrightarrow> quiet a0 b"
  by (auto simp: wait_end_def Let_def quiet_intro split: bind_splits)

lemma answer_quiet: "answer p n body a = Some (b, res) \<Longrightarrow> quiet a0 a \<Longrightarrow> quiet a0 b"
  by (auto simp: answer_def quiet_intro split: bind_splits option.splits)

lemma handleAck_quiet: "handleAck p raw a = Some (b, res) \<Longrightarrow> quiet a0 a \<Longrightarrow> quiet a0 b"
  by (auto simp: handleAck_def elim: answer_quiet split: option.splits)

lemma handleNack_quiet: "handleNack p m raw a = Some (b, res) \<Longrightarrow> quiet a0 a \<Longrightarrow> quiet a0 b"
  by (auto simp: handleNack_def elim: answer_quiet split: option.splits)

lemma reconnect_quiet: "reconnect E p d i a = Some (b, res) \<Longrightarrow> quiet a0 a \<Longrightarrow> quiet a0 b"
  by (auto simp: reconnect_def Let_def quiet_intro elim!: restore_quiet
      split: option.splits bind_splits if_splits)

lemma open_control_quiet: "open_control p d a = Some b \<Longrightarrow> quiet a0 a \<Longrightarrow> quiet a0 b"
  by (auto simp: open_control_def Let_def quiet_intro split: bind_splits)

lemma execute_quiet: "execute E p d ws cmd a = Some (b, res) \<Longrightarrow> quiet a0 a \<Longrightarrow> quiet a0 b"
  by (auto simp: execute_def elim!: start_reader_quiet pane_run_quiet sendFirstMessage_quiet newPane_quiet
      split: bind_splits option.splits if_splits)

lemma getOrCreatePane_quiet: "getOrCreatePane E p d a = Some (b, res) \<Longrightarrow> quiet a0 a \<Longrightarrow> quiet a0 b"
  by (auto simp: getOrCreatePane_def elim: open_control_quiet reconnect_quiet execute_quiet
      split: bind_splits label_request.splits)

lemma onChannelReq_quiet [quiet_intro]: "quiet a0 a \<Longrightarrow> quiet a0 (onChannelReq E p d a)"
  by (simp add: onChannelReq_def quiet_intro)

lemma opened_labelled_quiet: "opened_labelled E p d a = Some b \<Longrightarrow> quiet a0 a \<Longrightarrow> quiet a0 b"
  by (auto simp: opened_labelled_def intro!: quiet_emit attach_quiet elim: getOrCreatePane_quiet
      split: bind_splits sum.splits option.splits if_splits)

subsection \<open>The handlers\<close>

lemma handleResize_quiet: "handleResize E p m raw a = Some b \<Longrightarrow> quiet a0 a \<Longrightarrow> quiet a0 b"
  by (auto simp: handleResize_def elim!: sendAck_quiet sendNack_quiet broadcast_quiet pane_resize_quiet
      split: option.splits bind_splits if_splits)

lemma set_marker_quiet: "set_marker p n a = Some b \<Longrightarrow> quiet a0 a \<Longrightarrow> quiet a0 b"
  by (auto simp: set_marker_def quiet_intro split: bind_splits)

lemma handleRestore_quiet: "handleRestore E p m raw a = Some b \<Longrightarrow> quiet a0 a \<Longrightarrow> quiet a0 b"
  by (auto simp: handleRestore_def elim!: sendAck_quiet set_marker_quiet split: option.splits bind_splits)

lemma handleGetPayload_quiet: "handleGetPayload E p m a = Some b \<Longrightarrow> quiet a0 a \<Longrightarrow> quiet a0 b"
  by (auto simp: handleGetPayload_def elim: sendAck_quiet)

lemma handleSetPayload_quiet: "handleSetPayload E p m raw a = Some b \<Longrightarrow> quiet a0 a \<Longrightarrow> quiet a0 b"
  by (auto simp: handleSetPayload_def Let_def intro!: quiet_updates elim!: sendAck_quiet broadcast_quiet
      split: option.splits bind_splits)

lemma mark_panes_quiet: "mark_panes n rs a = Some (b, fin) \<Longrightarrow> quiet a0 a \<Longrightarrow> quiet a0 b"
proof (induction rs arbitrary: a)
  case (Cons r rs)
  show ?case using Cons.prems
    by (auto elim!: Cons.IH intro!: quiet_set_pane split: bind_splits if_splits)
qed simp

lemma handleMark_quiet: "handleMark E p m a = Some b \<Longrightarrow> quiet a0 a \<Longrightarrow> quiet a0 b"
  by (auto simp: handleMark_def Let_def intro!: quiet_updates
      elim!: sendAck_quiet mark_panes_quiet set_marker_quiet split: bind_splits if_splits)

lemma handleReconnectPane_quiet: "handleReconnectPane E p m raw a = Some b \<Longrightarrow> quiet a0 a \<Longrightarrow> quiet a0 b"
  by (auto simp: handleReconnectPane_def quiet_intro split: option.splits bind_splits)

lemma handleAddPane_quiet: "handleAddPane E p m raw a = Some b \<Longrightarrow> quiet a0 a \<Longrightarrow> quiet a0 b"
  by (auto simp: handleAddPane_def Let_def intro!: quiet_updates elim!: sendNack_quiet elim: newPane_quiet
      split: option.splits bind_splits)

lemma opened_reconnect_quiet: "opened_reconnect E p m i d a = Some b \<Longrightarrow> quiet a0 a \<Longrightarrow> quiet a0 b"
  by (auto simp: opened_reconnect_def elim!: sendAck_quiet sendNack_quiet reconnect_quiet
      split: bind_splits sum.splits)

lemma opened_add_pane_quiet:
  assumes "opened_add_pane E p m r cmd d a = Some b" and "quiet a0 a"
  shows "quiet a0 b"
proof -
  let ?a1 = "case e_welcome E of None \<Rightarrow> a | Some w \<Rightarrow> fst (dc_send E d w a)"
  have a1: "quiet a0 ?a1" using assms(2) by (simp add: quiet_intro split: option.splits)
  from assms(1) obtain a2 ok a3 c a4 where
    "pane_run E r cmd ?a1 = Some (a2, ok)" "add_client d r p a2 = (a3, c)"
    "sendAck E p m (show_int (pane_id a3 r)) a3 = Some a4"
    and b: "b = a4\<lparr>on_msg := (on_msg a4)(d \<mapsto> ToPane p r), on_close := (on_close a4)(d \<mapsto> c)\<rparr>"
    by (auto simp: opened_add_pane_def Let_def split: bind_splits prod.splits)
  from pane_run_quiet [OF this(1) a1] add_client_quiet [OF this(2)] sendAck_quiet [OF this(3)]
  have "quiet a0 a4" by blast
  then show ?thesis by (simp add: b quiet_intro)
qed

lemma dispatch_quiet: "dispatch E p m raw a = Some b \<Longrightarrow> quiet a0 a \<Longrightarrow> quiet a0 b"
  by (auto simp: dispatch_def elim: handleResize_quiet handleRestore_quiet handleGetPayload_quiet handleSetPayload_quiet
      handleMark_quiet handleReconnectPane_quiet handleAddPane_quiet sendNack_quiet split: if_splits)

lemma handleCTRLMsg_quiet: "handleCTRLMsg E p msg a = Some b \<Longrightarrow> quiet a0 a \<Longrightarrow> quiet a0 b"
  by (auto simp: handleCTRLMsg_def elim: handleAck_quiet handleNack_quiet dispatch_quiet
      split: option.splits if_splits)

lemma channel_opens_quiet: "channel_opens E d a = Some b \<Longrightarrow> quiet a0 a \<Longrightarrow> quiet a0 b"
  by (auto simp: channel_opens_def Let_def intro!: quiet_updates
      elim!: opened_labelled_quiet opened_add_pane_quiet opened_reconnect_quiet
      split: option.splits open_action.splits)

lemma message_arrives_quiet: "message_arrives E d bs msg a = Some b \<Longrightarrow> quiet a0 a \<Longrightarrow> quiet a0 b"
  by (auto simp: message_arrives_def elim!: pane_onMessage_quiet handleCTRLMsg_quiet intro!: setLastPeer_quiet
      split: option.splits msg_action.splits)

lemma channel_closes_quiet [quiet_intro]: "quiet a0 a \<Longrightarrow> quiet a0 (channel_closes E d a)"
  by (auto simp: channel_closes_def quiet_intro split: option.splits)

lemma callback_step_quiet: "callback_step a b \<Longrightarrow> quiet a b"
proof (induction rule: callback_step.induct)
  case (timer_fires a ts t us E b)
  have "quiet a (a\<lparr>timers := ts @ us\<rparr>)" by (simp add: quiet_intro)
  with timer_fires(2) show ?case by (rule fire_quiet)
qed (auto intro: quiet_intro elim: stateChange_quiet channel_opens_quiet message_arrives_quiet)

lemma outer_step_hushed: "outer_step a b \<Longrightarrow> hushed a b"
proof (induction rule: outer_step.induct)
  case (connect E fp a b res)
  then show ?case by (rule newPeer_hushed)
qed (rule quiet_hushed; auto intro: quiet_intro callback_step_quiet
      elim: addCandidate_quiet peer_close_quiet wait_start_quiet wait_end_quiet)+

end
