(* ===== verification/Sock_Runs.thy ===== *)
theory Sock_Runs
  imports Sock_Server Agent_Hosts Quiet_Steps
begin

section \<open>The runs of the unix socket's server\<close>

text \<open>
  Requests, the library's candidates, turns of \<open>handleIncoming\<close>, the timers of the offers and the
  steps of the agent, in any order. The timer of an offer may fire whenever the offer is there; the
  code starts it when its POST has answered, so this has all the runs of the code and more.
\<close>

inductive sock_own :: "sock_server \<Rightarrow> sock_server \<Rightarrow> bool" where
  layout: "handleLayout method body s = (t, rep) \<Longrightarrow> sock_own s t"
| clipboard: "handleClipboard E local local_ok method mimetype body s = (t, res) \<Longrightarrow> sock_own s t"
| clipboard_end: "clipboard_got p n timedout s = (t, rep) \<Longrightarrow> sock_own s t"
| gathers: "onCandidate l can s = Some (t, waits) \<Longrightarrow> sock_own s t"
| incoming: "incoming_turn E l s = Some t \<Longrightarrow> sock_own s t"
| expires: "sock_own s (offer_expires l s)"

inductive sock_step :: "sock_server \<Rightarrow> sock_server \<Rightarrow> bool" where
  offers: "handleSockOffer E R candidate_json connected wrote read_ok h method path body s = (t, rep) \<Longrightarrow>
    sock_step s t"
| own: "sock_own s t \<Longrightarrow> sock_step s t"
| agent: "agent_step (sk_agent s) b \<Longrightarrow> sock_step s (s\<lparr>sk_agent := b\<rparr>)"

inductive sock_reachable :: "sock_server \<Rightarrow> bool" where
  boot: "agent_reachable a \<Longrightarrow> sock_reachable (newSockServer a)"
| step: "sock_reachable s \<Longrightarrow> sock_step s t \<Longrightarrow> sock_reachable t"

subsection \<open>What a step does to the agent\<close>

lemma wait_entry_keeps [inv_intro]: "keeps a (wait_entry E p typ args a)"
proof (cases "newCTRLMessage E p typ args a")
  case (Some r)
  obtain a1 msg where r: "r = (a1, msg)" by (cases r)
  have k: "keeps a a1" using Some r newCTRLMessage_keeps by blast
  show ?thesis
  proof (cases "peer_at a1 p")
    case (Some pr)
    have "keeps a1 (set_peer p (pr\<lparr>pr_acks := (pr_acks pr)(om_ref msg \<mapsto> None)\<rparr>) a1)"
      using Some by (rule set_peer_same_keeps) simp_all
    with k have "keeps a (set_peer p (pr\<lparr>pr_acks := (pr_acks pr)(om_ref msg \<mapsto> None)\<rparr>) a1)"
      by (rule keeps_trans)
    then show ?thesis using Some \<open>newCTRLMessage E p typ args a = Some r\<close> r by (simp add: wait_entry_def)
  qed (use k \<open>newCTRLMessage E p typ args a = Some r\<close> r in \<open>simp add: wait_entry_def\<close>)
qed (simp add: wait_entry_def)

lemma wait_entry_quiet: "quiet a (wait_entry E p typ args a)"
  by (auto simp: wait_entry_def quiet_intro newCTRLMessage_quiet [OF _ quiet_refl] split: option.splits)

text \<open>Some steps change nothing but the agent, and bring in no peer.\<close>

definition agent_only :: "sock_server \<Rightarrow> sock_server \<Rightarrow> bool" where
  "agent_only s t \<longleftrightarrow> keeps (sk_agent s) (sk_agent t) \<and> quiet (sk_agent s) (sk_agent t) \<and>
     t = s\<lparr>sk_agent := sk_agent t\<rparr>"

lemma agent_onlyI [simp]: "agent_only s (s\<lparr>sk_agent := b\<rparr>) \<longleftrightarrow> keeps (sk_agent s) b \<and> quiet (sk_agent s) b"
  by (simp add: agent_only_def)

lemma agent_only_refl [simp]: "agent_only s s"
  by (simp add: agent_only_def)

lemma clipboard_get_only: "clipboard_get E local s = (t, res) \<Longrightarrow> agent_only s t"
  by (auto simp: clipboard_get_def wait_entry_keeps wait_start_keeps wait_entry_quiet
      wait_start_quiet [OF _ quiet_refl] split: option.splits)

lemma clipboard_post_only: "clipboard_post E ok mimetype body s = (t, rep) \<Longrightarrow> agent_only s t"
  by (auto simp: clipboard_post_def sendControlMessage_keeps newCTRLMessage_keeps
      sendControlMessage_quiet [OF _ quiet_refl] newCTRLMessage_quiet [OF _ quiet_refl] split: option.splits)

lemma handleClipboard_only:
  "handleClipboard E local local_ok method mimetype body s = (t, res) \<Longrightarrow> agent_only s t"
  by (auto simp: handleClipboard_def clipboard_get_only clipboard_post_only split: if_splits prod.splits)

lemma clipboard_got_only: "clipboard_got p n timedout s = (t, rep) \<Longrightarrow> agent_only s t"
  by (auto simp: clipboard_got_def wait_end_keeps wait_end_quiet [OF _ quiet_refl] split: option.splits prod.splits)

lemma handleLayout_only: "handleLayout method body s = (t, rep) \<Longrightarrow> agent_only s t"
  by (auto simp: handleLayout_def Payload_keeps quiet_intro split: if_splits)

lemmas agent_only_steps = handleClipboard_only clipboard_got_only handleLayout_only

subsection \<open>The offers\<close>

text \<open>\<open>offers_ok\<close>: a name in the table is that of a live offer under it; every offer ever made has its
  peer, and at most five candidates in each direction.\<close>

definition live_ok :: "agent \<Rightarrow> live_offer \<Rightarrow> bool" where
  "live_ok a lo \<longleftrightarrow> has_peer a (lo_p lo) \<and> length (lo_incoming lo) \<le> channel_size \<and>
     length (lo_cs lo) \<le> channel_size"

definition offers_ok :: "sock_server \<Rightarrow> bool" where
  "offers_ok s \<longleftrightarrow>
     (\<forall>h l. sk_offers s h = Some l \<longrightarrow> (\<exists>lo. sk_at s l = Some lo \<and> lo_id lo = h \<and> \<not> lo_cancelled lo)) \<and>
     (\<forall>l lo. sk_at s l = Some lo \<longrightarrow> l < sk_next s \<and> live_ok (sk_agent s) lo)"

lemma live_ok_grows: "live_ok a lo \<Longrightarrow> grows_but X a b \<Longrightarrow> live_ok b lo"
  by (auto simp: live_ok_def intro: has_peer_grows)

lemma offers_okD:
  assumes "offers_ok s"
  shows "sk_offers s h = Some l \<Longrightarrow> \<exists>lo. sk_at s l = Some lo \<and> lo_id lo = h \<and> \<not> lo_cancelled lo"
    and "sk_at s l = Some lo \<Longrightarrow> l < sk_next s" and "sk_at s l = Some lo \<Longrightarrow> live_ok (sk_agent s) lo"
  using assms unfolding offers_ok_def by blast+

lemma offers_okI:
  assumes "\<And>h l. sk_offers s h = Some l \<Longrightarrow> \<exists>lo. sk_at s l = Some lo \<and> lo_id lo = h \<and> \<not> lo_cancelled lo"
    and "\<And>l lo. sk_at s l = Some lo \<Longrightarrow> l < sk_next s \<and> live_ok (sk_agent s) lo"
  shows "offers_ok s"
  using assms unfolding offers_ok_def by blast

lemma offers_ok_agent:
  assumes "offers_ok s" and "grows_but X (sk_agent s) b"
  shows "offers_ok (s\<lparr>sk_agent := b\<rparr>)"
  by (rule offers_okI) (use offers_okD [OF assms(1)] live_ok_grows [OF _ assms(2)] in auto)

lemma set_offer_simps [simp]:
  "sk_agent (set_offer l lo s) = sk_agent s" "sk_offers (set_offer l lo s) = sk_offers s"
  "sk_next (set_offer l lo s) = sk_next s" "sk_at (set_offer l lo s) = (sk_at s)(l \<mapsto> lo)"
  by (simp_all add: set_offer_def)

lemma offers_ok_update:
  assumes "offers_ok s" and "sk_at s l = Some lo" and "live_ok (sk_agent s) lo \<Longrightarrow> live_ok (sk_agent s) lo'"
    and "lo_id lo' = lo_id lo" and "lo_cancelled lo' = lo_cancelled lo"
  shows "offers_ok (set_offer l lo' s)"
proof (rule offers_okI)
  fix h k assume "sk_offers (set_offer l lo' s) h = Some k"
  then show "\<exists>lo. sk_at (set_offer l lo' s) k = Some lo \<and> lo_id lo = h \<and> \<not> lo_cancelled lo"
    using offers_okD(1) [OF assms(1), of h k] assms(2,4,5) by auto
qed (use offers_okD [OF assms(1)] assms(2,3) in \<open>auto split: if_splits\<close>)

lemma offer_expires_agent [simp]: "sk_agent (offer_expires l s) = sk_agent s"
  by (simp add: offer_expires_def split: option.splits)

lemma offers_ok_expires:
  assumes "offers_ok s"
  shows "offers_ok (offer_expires l s)"
proof (cases "sk_at s l")
  case (Some lo)
  show ?thesis
  proof (rule offers_okI)
    fix h k assume h: "sk_offers (offer_expires l s) h = Some k"
    then have "sk_offers s h = Some k" "h \<noteq> lo_id lo"
      by (auto simp: offer_expires_def Some split: if_splits)
    then show "\<exists>lo. sk_at (offer_expires l s) k = Some lo \<and> lo_id lo = h \<and> \<not> lo_cancelled lo"
      using offers_okD(1) [OF assms, of h k] Some by (auto simp: offer_expires_def)
  qed (use offers_okD [OF assms] Some in \<open>auto simp: offer_expires_def live_ok_def split: if_splits\<close>)
qed (use assms in \<open>simp add: offer_expires_def\<close>)

lemma offers_ok_new:
  assumes ok: "offers_ok s" and new: "newPeer E fp (sk_agent s) = (a, Some p)" and inv: "agent_inv (sk_agent s)"
    and lo: "lo_p lo = p" "lo_incoming lo = []" "lo_cs lo = []" "lo_id lo = h" "\<not> lo_cancelled lo"
  shows "offers_ok (set_offer (sk_next s) lo
    (s\<lparr>sk_agent := a, sk_offers := (sk_offers s)(h \<mapsto> sk_next s), sk_next := Suc (sk_next s)\<rparr>))"
proof -
  let ?s = "s\<lparr>sk_agent := a\<rparr>"
  have ok': "offers_ok ?s" using ok newPeer_inv(2) [OF inv new] by (rule offers_ok_agent)
  have live: "live_ok a lo" using newPeer_Some(2) [OF new] lo by (auto simp: live_ok_def has_peer_def)
  show ?thesis
  proof (rule offers_okI)
    fix k l assume k: "sk_offers (set_offer (sk_next s) lo
      (?s\<lparr>sk_offers := (sk_offers s)(h \<mapsto> sk_next s), sk_next := Suc (sk_next s)\<rparr>)) k = Some l"
    show "\<exists>lo'. sk_at (set_offer (sk_next s) lo
      (?s\<lparr>sk_offers := (sk_offers s)(h \<mapsto> sk_next s), sk_next := Suc (sk_next s)\<rparr>)) l = Some lo' \<and>
        lo_id lo' = k \<and> \<not> lo_cancelled lo'"
    proof (cases "k = h")
      case False
      with k obtain lo' where "sk_at s l = Some lo'" "lo_id lo' = k" "\<not> lo_cancelled lo'"
        using offers_okD(1) [OF ok, of k l] by auto
      moreover have "l < sk_next s" using offers_okD(2) [OF ok] calculation(1) .
      ultimately show ?thesis by simp
    qed (use k lo in simp)
  qed (use offers_okD(2,3) [OF ok'] live in \<open>auto split: if_splits intro: less_SucI\<close>)
qed

lemma onCandidate_ok:
  assumes "onCandidate l can s = Some (t, waits)"
  shows "sk_agent t = sk_agent s" and "offers_ok s \<Longrightarrow> offers_ok t"
  using assms
  by (auto simp: onCandidate_def live_ok_def intro!: offers_ok_update split: option.splits bind_splits if_splits)

lemma incoming_turn_ok:
  assumes "incoming_turn E l s = Some t"
  obtains lo can rest b where "sk_at s l = Some lo" and "lo_incoming lo = can # rest"
    and "keeps (sk_agent s) b" and "t = (set_offer l (lo\<lparr>lo_incoming := rest\<rparr>) s)\<lparr>sk_agent := b\<rparr>"
proof -
  from assms obtain lo pr can rest where lo: "sk_at s l = Some lo" "lo_incoming lo = can # rest"
    and pr: "peer_at (sk_agent s) (lo_p lo) = Some pr"
    by (auto simp: incoming_turn_def split: bind_splits list.splits)
  show thesis
    by (rule that [OF lo, of "if pr_PC pr then add_ice E (lo_p lo) can (sk_agent s) else sk_agent s"])
      (use assms lo pr in \<open>auto simp: incoming_turn_def Let_def add_ice_keeps\<close>)
qed

lemma offer_get_cases:
  assumes "offer_get candidate_json connected cs s = (t, rep)"
  obtains "t = s" | l lo c rest where "sk_at s l = Some lo" and "lo_cs lo = c # rest"
    and "t = set_offer l (lo\<lparr>lo_cs := rest\<rparr>) s"
proof (cases "t = s")
  case False
  with assms obtain l lo c rest where "sk_at s l = Some lo" "lo_cs lo = c # rest"
    "t = set_offer l (lo\<lparr>lo_cs := rest\<rparr>) s"
    by (simp add: offer_get_def get_candidate_def split: sum.splits option.splits list.splits)
  then show thesis by (rule that(2))
qed (use that in simp)

lemma offer_put_cases:
  assumes "offer_put read_ok body cs s = (t, rep)"
  obtains "t = s" | l lo where "sk_at s l = Some lo" and "length (lo_incoming lo) < channel_size"
    and "t = set_offer l (lo\<lparr>lo_incoming := lo_incoming lo @ [body]\<rparr>) s"
proof (cases "t = s")
  case False
  with assms obtain l lo where "sk_at s l = Some lo" "length (lo_incoming lo) < channel_size"
    "t = set_offer l (lo\<lparr>lo_incoming := lo_incoming lo @ [body]\<rparr>) s"
    by (simp add: offer_put_def not_le split: sum.splits option.splits if_splits)
  then show thesis by (rule that(2))
qed (use that in simp)

lemma offer_post_cases:
  assumes "offer_post E R wrote h path body cs s = (t, rep, timer)"
  obtains "t = s" | offer fp a p lo where "offer_fingerprint R offer = Some (Inr fp)"
    and "newPeer E fp (sk_agent s) = (a, Some p)"
    and "lo_p lo = p" "lo_incoming lo = []" "lo_cs lo = []" "lo_id lo = h" "\<not> lo_cancelled lo"
    and "t = set_offer (sk_next s) lo
      (s\<lparr>sk_agent := a, sk_offers := (sk_offers s)(h \<mapsto> sk_next s), sk_next := Suc (sk_next s)\<rparr>)" and "rtc_unmarshal R body = Some offer"
proof (cases "t = s")
  case False
  with assms obtain offer fp where fp: "offer_fingerprint R offer = Some (Inr fp)" and body: "rtc_unmarshal R body = Some offer"
    and post: "(case newPeer E fp (sk_agent s) of
                  (a, None) \<Rightarrow> (s\<lparr>sk_agent := a\<rparr>, SError 500 ''Failed to create a new peer'', None)
                | (a, Some p) \<Rightarrow>
                    (case offer_answer R wrote h offer of (started, rep, timer) \<Rightarrow>
                       let l = sk_next s;
                           lo = \<lparr>lo_incoming = [], lo_cs = [], lo_p = p, lo_id = h,
                                 lo_started = started, lo_cancelled = False\<rparr>
                       in (set_offer l lo (s\<lparr>sk_agent := a, sk_offers := (sk_offers s)(h \<mapsto> l), sk_next := Suc l\<rparr>),
                           rep, if timer then Some l else None))) = (t, rep, timer)"
    by (auto simp: offer_post_def split: if_splits option.splits sum.splits)
  obtain a res where new: "newPeer E fp (sk_agent s) = (a, res)" by fastforce
  have "\<exists>p. res = Some p" using post new False newPeer_None [of E fp "sk_agent s" a] by (cases res) auto
  then obtain p where p: "res = Some p" ..
  obtain started rep' timer' where ans: "offer_answer R wrote h offer = (started, rep', timer')"
    by (cases "offer_answer R wrote h offer") auto
  show thesis
    by (rule that(2) [OF fp new [unfolded p], of "\<lparr>lo_incoming = [], lo_cs = [], lo_p = p, lo_id = h,
        lo_started = started, lo_cancelled = False\<rparr>"]) (use post new p ans body in \<open>simp_all add: Let_def\<close>)
qed (use that in simp)

subsection \<open>The server keeps its agent\<close>

lemma sock_offer_inv:
  assumes step: "handleSockOffer E R candidate_json connected wrote read_ok h method path body s = (t, rep)"
    and inv: "agent_inv (sk_agent s)"
  shows "agent_inv (sk_agent t) \<and> grows (sk_agent s) (sk_agent t) \<and> (offers_ok s \<longrightarrow> offers_ok t)"
proof (cases "t = s")
  case False
  with step obtain cs timer where
    "offer_get candidate_json connected cs s = (t, rep) \<or> offer_put read_ok body cs s = (t, rep) \<or>
     offer_post E R wrote h path body cs s = (t, rep, timer)"
    by (auto simp: handleSockOffer_def split: option.splits if_splits prod.splits)
  then show ?thesis
  proof (elim disjE)
    assume "offer_get candidate_json connected cs s = (t, rep)"
    then show ?thesis
    proof (cases rule: offer_get_cases)
      case (2 l lo c rest)
      then show ?thesis using inv by (auto simp: live_ok_def intro: offers_ok_update)
    qed (use False in simp)
  next
    assume "offer_put read_ok body cs s = (t, rep)"
    then show ?thesis
    proof (cases rule: offer_put_cases)
      case (2 l lo)
      then show ?thesis using inv by (auto simp: live_ok_def intro: offers_ok_update)
    qed (use False in simp)
  next
    assume "offer_post E R wrote h path body cs s = (t, rep, timer)"
    then show ?thesis
    proof (cases rule: offer_post_cases)
      case (2 offer fp a p lo)
      then show ?thesis using newPeer_inv [OF inv 2(2)] offers_ok_new [OF _ 2(2) inv 2(3-7)] by simp
    qed (use False in simp)
  qed
qed (use inv in simp)

lemma agent_only_inv:
  assumes "agent_only s t" and "agent_inv (sk_agent s)"
  shows "agent_inv (sk_agent t) \<and> grows_but UNIV (sk_agent s) (sk_agent t) \<and> (offers_ok s \<longrightarrow> offers_ok t)"
  using assms keeps_step offers_ok_agent unfolding agent_only_def by metis

lemma sock_own_inv:
  assumes "sock_own s t" and inv: "agent_inv (sk_agent s)"
  shows "agent_inv (sk_agent t) \<and> grows_but UNIV (sk_agent s) (sk_agent t) \<and> (offers_ok s \<longrightarrow> offers_ok t)"
  using assms(1)
proof (cases rule: sock_own.cases)
  case (gathers l can waits)
  with inv show ?thesis using onCandidate_ok [OF gathers] by simp
next
  case (incoming E l)
  then show ?thesis
  proof (cases rule: incoming_turn_ok)
    case (1 lo can rest b)
    have b: "agent_inv b \<and> grows_but UNIV (sk_agent s) b" using 1(3) inv by (rule keeps_step)
    have "offers_ok (set_offer l (lo\<lparr>lo_incoming := rest\<rparr>) s)" if "offers_ok s"
      using that 1(1,2) by (auto simp: live_ok_def intro: offers_ok_update)
    with b 1(4) show ?thesis
      using offers_ok_agent [of "set_offer l (lo\<lparr>lo_incoming := rest\<rparr>) s" UNIV b] by simp
  qed
next
  case (expires l)
  with inv show ?thesis by (simp add: offers_ok_expires)
qed (rule agent_only_inv [OF _ inv], erule agent_only_steps)+

lemma sock_step_inv:
  assumes "sock_step s t" and inv: "agent_inv (sk_agent s)"
  shows "agent_inv (sk_agent t) \<and> grows_but UNIV (sk_agent s) (sk_agent t) \<and> (offers_ok s \<longrightarrow> offers_ok t)"
  using assms(1)
proof (cases rule: sock_step.cases)
  case offers
  with sock_offer_inv [OF this inv] show ?thesis using grows_UNIV by blast
next
  case own
  then show ?thesis using inv by (rule sock_own_inv)
next
  case (agent b)
  then show ?thesis using agent_step_inv [OF agent(2) inv] offers_ok_agent [of s UNIV b] by simp
qed

text \<open>Only an offer brings in a peer.\<close>

lemma sock_own_quiet:
  assumes "sock_own s t"
  shows "quiet (sk_agent s) (sk_agent t)"
  using assms
proof (cases rule: sock_own.cases)
  case (gathers l can waits)
  then show ?thesis using onCandidate_ok(1) [OF gathers] by simp
next
  case (incoming E l)
  then show ?thesis
    by (auto simp: incoming_turn_def Let_def quiet_intro split: bind_splits list.splits if_splits)
qed (auto dest!: agent_only_steps simp: agent_only_def)

interpretation sock_host: agent_host sk_agent sock_step
  by unfold_locales (use sock_step_inv in \<open>simp add: carries_def\<close>)

lemma sock_reachable_inv: "sock_reachable s \<Longrightarrow> agent_inv (sk_agent s) \<and> offers_ok s"
proof (induction rule: sock_reachable.induct)
  case (boot a)
  then show ?case using reachable_inv by (simp add: newSockServer_def offers_ok_def)
next
  case (step s t)
  with sock_step_inv [OF step(2)] show ?case by simp
qed

end
