(* ===== verification/Sock_Properties.thy ===== *)
theory Sock_Properties
  imports Sock_Runs Web_Properties "HOL-Library.Multiset"
begin

section \<open>What the unix socket guarantees\<close>

text \<open>
  The status does not depend on the order of a map, no request of the socket can overfill the
  channels of an offer or find one without its peer, and the one request that panics is known.
\<close>

subsection \<open>The status\<close>

text \<open>
  \<open>GetCandidatePair\<close> ranges over a map, in an order that Go leaves open. Its loop is a fold of
  \<open>better\<close> over the candidates of the nominated pairs, and such folds commute when no two candidates
  have the same priority.
\<close>

fun nominated :: "(bytes \<rightharpoonup> report) \<Rightarrow> report \<Rightarrow> (candidate_stats option \<times> candidate_stats option) list" where
  "nominated stats (PairStats is_pair nom lid rid) =
     (if is_pair \<and> nom then [(as_candidate (stats lid), as_candidate (stats rid))] else [])"
| "nominated stats _ = []"

definition pairs :: "(bytes \<rightharpoonup> report) \<Rightarrow> report list \<Rightarrow> (candidate_stats option \<times> candidate_stats option) list" where
  "pairs stats reps = concat (map (nominated stats) reps)"

lemma pairs_simps [simp]:
  "pairs stats [] = []" "pairs stats (rep # reps) = nominated stats rep @ pairs stats reps"
  by (simp_all add: pairs_def)

definition found :: "candidate_stats option \<times> candidate_stats option \<Rightarrow> bool" where
  "found x \<longleftrightarrow> fst x \<noteq> None \<and> snd x \<noteq> None"

lemma pair_loop_fold:
  "(case pair_loop stats reps l r of Inl _ \<Rightarrow> None | Inr res \<Rightarrow> Some res) =
    (if list_all found (pairs stats reps)
     then Some (snd (fold better (map (the \<circ> fst) (pairs stats reps)) l),
                snd (fold better (map (the \<circ> snd) (pairs stats reps)) r))
     else None)"
proof (induction reps arbitrary: l r)
  case (Cons rep reps)
  then show ?case by (cases rep) (auto simp: found_def comp_def split: option.splits)
qed simp

lemma better_commutes:
  assumes "cs_priority c = cs_priority d \<longrightarrow> c = d"
  shows "better c \<circ> better d = better d \<circ> better c"
  using assms by (auto simp: better_def fun_eq_iff)

lemma fold_better_any_order:
  assumes "mset cs = mset ds"
    and "\<And>c d. c \<in> set cs \<Longrightarrow> d \<in> set cs \<Longrightarrow> cs_priority c = cs_priority d \<Longrightarrow> c = d"
  shows "fold better cs = fold better ds"
  by (rule fold_multiset_equiv) (use assms better_commutes in auto)

lemma pairs_any_order: "mset reps = mset reps' \<Longrightarrow> mset (pairs stats reps) = mset (pairs stats reps')"
  unfolding pairs_def mset_concat mset_map [symmetric] by (metis mset_map sum_mset_sum_list)

lemma pairs_in_stats:
  assumes "x \<in> set (pairs stats reps)" and "found x"
  shows "CandidateStats (the (fst x)) \<in> ran stats" and "CandidateStats (the (snd x)) \<in> ran stats"
proof -
  from assms obtain lid rid where x: "x = (as_candidate (stats lid), as_candidate (stats rid))"
  proof -
    from assms(1) obtain rep where "x \<in> set (nominated stats rep)" by (auto simp: pairs_def)
    with that show thesis by (cases rep) (auto split: if_splits)
  qed
  have "CandidateStats c \<in> ran stats" if "as_candidate (stats i) = Some c" for i c
    using that by (auto simp: as_candidate_def ran_def split: option.splits report.splits)
  with x assms(2) show "CandidateStats (the (fst x)) \<in> ran stats" "CandidateStats (the (snd x)) \<in> ran stats"
    by (auto simp: found_def)
qed

text \<open>C39. The candidate pair in the status does not depend on the order in which the statistics are
  ranged over, when no two of their candidates have the same priority: in any two orders
  \<open>GetCandidatePair\<close> finds the same addresses, or fails in both.\<close>

theorem candidate_pair_any_order:
  assumes "range_order stats ks" and "range_order stats ks'"
    and "\<And>c d. CandidateStats c \<in> ran stats \<Longrightarrow> CandidateStats d \<in> ran stats \<Longrightarrow>
      cs_priority c = cs_priority d \<Longrightarrow> c = d"
  shows "getCandidatePair pr stats ks = getCandidatePair pr stats ks' \<or>
    (\<exists>e e'. getCandidatePair pr stats ks = Inl e \<and> getCandidatePair pr stats ks' = Inl e')"
proof -
  let ?reps = "range_values stats ks" and ?reps' = "range_values stats ks'"
  have "mset ks = mset ks'"
    using assms(1,2) by (simp add: range_order_def set_eq_iff_mset_eq_distinct [symmetric])
  then have "mset ?reps = mset ?reps'" unfolding range_values_def by (metis mset_map)
  then have ps: "mset (pairs stats ?reps) = mset (pairs stats ?reps')" by (rule pairs_any_order)
  then have set: "set (pairs stats ?reps) = set (pairs stats ?reps')" by (rule mset_eq_setD)
  let ?res = "\<lambda>reps. case pair_loop stats reps (0, [], [], []) (0, [], [], []) of Inl _ \<Rightarrow> None | Inr x \<Rightarrow> Some x"
  have "?res ?reps = ?res ?reps'"
  proof (cases "list_all found (pairs stats ?reps)")
    case True
    then have all: "\<forall>x \<in> set (pairs stats ?reps). found x" by (simp add: list_all_iff)
    have "fold better (map (the \<circ> f) (pairs stats ?reps)) = fold better (map (the \<circ> f) (pairs stats ?reps'))"
      if "f = fst \<or> f = snd" for f
    proof (rule fold_better_any_order)
      show "mset (map (the \<circ> f) (pairs stats ?reps)) = mset (map (the \<circ> f) (pairs stats ?reps'))"
        using ps by (metis mset_map)
      show "c = d" if "c \<in> set (map (the \<circ> f) (pairs stats ?reps))"
        "d \<in> set (map (the \<circ> f) (pairs stats ?reps))" "cs_priority c = cs_priority d" for c d
        using that \<open>f = fst \<or> f = snd\<close> all pairs_in_stats by (intro assms(3)) auto
    qed
    with True set show ?thesis by (simp add: pair_loop_fold list_all_iff)
  next
    case False
    with set have "\<not> list_all found (pairs stats ?reps')" by (simp add: list_all_iff)
    with False show ?thesis by (simp only: pair_loop_fold if_False)
  qed
  then show ?thesis by (auto simp: getCandidatePair_def split: sum.splits)
qed

definition one_pair :: "bytes \<rightharpoonup> report" where
  "one_pair =
     [''a'' \<mapsto> CandidateStats \<lparr>cs_priority = 7, cs_ip = ''::1'', cs_port = 9, cs_proto = ''udp'', cs_type = ''host''\<rparr>,
      ''b'' \<mapsto> PairStats True True ''a'' ''a'']"

definition shown_peer :: peer where
  "shown_peer = \<lparr>pr_FP = ''ABCDEF'', pr_LastRef = 0, pr_PC = True, pr_cdc = None, pr_Marker = - 1,
     pr_acks = Map.empty, pr_pending = [], pr_draining = False\<rparr>"

theorem candidate_pair_any_order_witness:
  "getCandidatePair shown_peer one_pair [''a'', ''b''] = getCandidatePair shown_peer one_pair [''b'', ''a''] \<and>
     (\<exists>cp. getCandidatePair shown_peer one_pair [''b'', ''a''] = Inr cp)"
proof -
  have ok: "\<exists>cp. getCandidatePair shown_peer one_pair [''b'', ''a''] = Inr cp"
    by (simp add: getCandidatePair_def shown_peer_def one_pair_def range_values_def as_candidate_def)
  have "getCandidatePair shown_peer one_pair [''a'', ''b''] = getCandidatePair shown_peer one_pair [''b'', ''a''] \<or>
    (\<exists>e e'. getCandidatePair shown_peer one_pair [''a'', ''b''] = Inl e \<and>
       getCandidatePair shown_peer one_pair [''b'', ''a''] = Inl e')"
    by (rule candidate_pair_any_order) (auto simp: one_pair_def range_order_def split: if_splits)
  with ok show ?thesis by auto
qed

subsection \<open>Candidates and offers\<close>

lemma named_offer_known:
  assumes "offers_ok s" and "sk_offers s h = Some l"
  obtains lo where "sk_at s l = Some lo" and "lo_id lo = h" and "\<not> lo_cancelled lo"
    and "live_ok (sk_agent s) lo"
  using offers_okD(1,3) [OF assms(1)] assms(2) by blast

text \<open>C40. A candidate for an offer is put in its channel, unless five are unread: then the request
  waits and nothing changes. In every run of the server a name in its table is that of a live
  offer, with a peer of the agent and at most five candidates in each direction.\<close>

theorem candidates_bounded:
  assumes "sock_reachable s" and "path_parts path = Some [x, h]" and "sk_offers s h = Some l"
  shows "\<exists>lo. sk_at s l = Some lo \<and> lo_id lo = h \<and> \<not> lo_cancelled lo \<and> has_peer (sk_agent s) (lo_p lo) \<and>
    length (lo_incoming lo) \<le> 5 \<and> length (lo_cs lo) \<le> 5 \<and>
    handleSockOffer E R candidate_json connected wrote True n ''PUT'' path body s =
      (if length (lo_incoming lo) = 5 then (s, SWaits)
       else (set_offer l (lo\<lparr>lo_incoming := lo_incoming lo @ [body]\<rparr>) s, SBody []))"
proof -
  obtain lo where lo: "sk_at s l = Some lo" "lo_id lo = h" "\<not> lo_cancelled lo" "live_ok (sk_agent s) lo"
    using sock_reachable_inv [OF assms(1)] assms(3) named_offer_known by blast
  then show ?thesis
    using assms(2,3)
    by (auto simp: live_ok_def channel_size_def handleSockOffer_def offer_put_def named_offer_def)
qed

definition demo_socket :: sock_server where
  "demo_socket = fst (handleSockOffer demo_env demo_rtc Some False True True ''h'' ''POST'' ''/offer/'' ''{}''
     (newSockServer initial_agent))"

lemma demo_socket_reachable: "sock_reachable demo_socket"
  unfolding demo_socket_def
  by (rule sock_reachable.step [OF sock_reachable.boot [OF agent_reachable.boot] sock_step.offers
      [OF surjective_pairing]])

lemma demo_socket_offers: "sk_offers demo_socket = [''h'' \<mapsto> 0]"
  "sk_at demo_socket = [0 \<mapsto> \<lparr>lo_incoming = [], lo_cs = [], lo_p = 0, lo_id = ''h'', lo_started = True,
     lo_cancelled = False\<rparr>]"
proof -
  have parts: "path_parts ''/offer/'' = Some [''offer'', []]" by code_simp
  obtain a where a: "newPeer demo_env ''CD'' initial_agent = (a, Some 0)"
    using newPeer_total [of demo_env "''CD''" initial_agent] by (auto simp: initial_agent_def)
  have ans: "offer_answer demo_rtc True ''h'' demo_description = (True, SAnswer 200 (d_sdp demo_description) ''h'', True)"
    and "rtc_unmarshal demo_rtc ''{}'' = Some demo_description"
    by (simp_all add: offer_answer_def demo_rtc_def)
  then show "sk_offers demo_socket = [''h'' \<mapsto> 0]"
    "sk_at demo_socket = [0 \<mapsto> \<lparr>lo_incoming = [], lo_cs = [], lo_p = 0, lo_id = ''h'', lo_started = True,
       lo_cancelled = False\<rparr>]"
    using a
    by (simp_all add: demo_socket_def handleSockOffer_def parts offer_post_def newSockServer_def
        demo_fingerprint Let_def)
qed

theorem candidates_bounded_witness:
  "\<exists>lo. sk_at demo_socket 0 = Some lo \<and> lo_id lo = ''h'' \<and> lo_incoming lo = [] \<and>
     handleSockOffer demo_env demo_rtc Some False True True [] ''PUT'' ''/offer/h'' ''c'' demo_socket =
       (set_offer 0 (lo\<lparr>lo_incoming := [''c'']\<rparr>) demo_socket, SBody [])"
proof -
  have parts: "path_parts ''/offer/h'' = Some [''offer'', ''h'']" by code_simp
  have "sk_offers demo_socket ''h'' = Some 0" by (simp add: demo_socket_offers)
  from candidates_bounded [OF demo_socket_reachable parts this, of demo_env demo_rtc Some False True "[]" "''c''"]
  show ?thesis by (auto simp: demo_socket_offers)
qed

lemma offer_answer_not_aborted: "offer_answer R wrote h offer = (started, rep, timer) \<Longrightarrow> rep \<noteq> SAborted"
  by (auto simp: offer_answer_def Let_def split: if_splits option.splits prod.splits)

lemma offer_post_aborts:
  "fst (snd (offer_post E R wrote n path body cs s)) = SAborted \<longleftrightarrow>
    length cs = 2 \<and> cs ! 1 = [] \<and>
    (\<exists>offer. rtc_unmarshal R body = Some offer \<and> offer_fingerprint R offer = None)"
  by (auto simp: offer_post_def Let_def dest: offer_answer_not_aborted
      split: option.splits sum.splits prod.splits)

lemma offer_get_not_aborted:
  assumes "offers_ok s"
  shows "snd (offer_get candidate_json connected cs s) \<noteq> SAborted"
proof (cases "named_offer ''GET path should be in the form `/accept/[hash]` '' ''request hash is unknown'' cs s")
  case (Inl rep)
  then show ?thesis by (auto simp: offer_get_def named_offer_def split: list.splits option.splits)
next
  case (Inr l)
  then obtain h where "sk_offers s h = Some l"
    by (auto simp: named_offer_def split: list.splits option.splits)
  with assms obtain lo where "sk_at s l = Some lo" "live_ok (sk_agent s) lo" by (rule named_offer_known)
  with Inr show ?thesis
    by (auto simp: offer_get_def get_candidate_def live_ok_def has_peer_def split: list.splits option.splits)
qed

lemma offer_put_not_aborted:
  assumes "offers_ok s"
  shows "snd (offer_put read_ok body cs s) \<noteq> SAborted"
proof (cases "named_offer ''PUT path should be in the form `/accept/[hash]` '' ''PUT hash is unknown'' cs s")
  case (Inl rep)
  then show ?thesis by (auto simp: offer_put_def named_offer_def split: list.splits option.splits)
next
  case (Inr l)
  then obtain h where "sk_offers s h = Some l"
    by (auto simp: named_offer_def split: list.splits option.splits)
  with assms obtain lo where "sk_at s l = Some lo" by (rule named_offer_known)
  with Inr show ?thesis by (auto simp: offer_put_def split: if_splits)
qed

text \<open>Which requests about offers panic: a POST of an offer whose fingerprint attribute
  \<open>GetFingerprint\<close> cannot take apart. Asking for candidates and adding them never does.\<close>

lemma offer_request_aborts:
  assumes "offers_ok s" and "path_parts path = Some cs"
  shows "snd (handleSockOffer E R candidate_json connected wrote read_ok n method path body s) = SAborted \<longleftrightarrow>
    method = ''POST'' \<and> length cs = 2 \<and> cs ! 1 = [] \<and>
    (\<exists>offer. rtc_unmarshal R body = Some offer \<and> offer_fingerprint R offer = None)"
  using offer_get_not_aborted [OF assms(1), of candidate_json connected cs]
    offer_put_not_aborted [OF assms(1), of read_ok body cs]
    offer_post_aborts [of E R wrote n path body cs s] assms(2)
  by (auto simp: handleSockOffer_def split: prod.splits)

end
