(* ===== verification/Json_Scan.thy ===== *)
theory Json_Scan
  imports Go_Strings
begin

section \<open>Is it JSON?\<close>

text \<open>
  The scanner of \<open>encoding/json\<close>, which \<open>json.Unmarshal\<close> runs over the whole text before anything
  else: one step per byte, with a stack of the objects and arrays that are open. Unmarshalling into
  a raw message fails exactly when the scanner does. (Its limit of 10000 open values is left out.)
\<close>

datatype jword = TrueWord | FalseWord | NullWord

definition word_text :: "jword \<Rightarrow> bytes" where
  "word_text w = (case w of TrueWord \<Rightarrow> ''true'' | FalseWord \<Rightarrow> ''false'' | NullWord \<Rightarrow> ''null'')"

datatype jmode =
    BeginValueOrEmpty | BeginValue | BeginStringOrEmpty | BeginString | EndValue | EndTop
  | InString | InEscape | InHex nat
  | Minus | Zero | Digits | Point | Fraction | Exponent | ExponentSign | ExponentDigits
  | Keyword jword nat

datatype jopen = ObjectKey | ObjectValue | ArrayValue

type_synonym jscan = "jmode \<times> jopen list"

definition jspace :: "char \<Rightarrow> bool" where
  "jspace c \<longleftrightarrow> (of_char c :: nat) \<in> {9, 10, 13, 32}"

definition jhex :: "char \<Rightarrow> bool" where
  "jhex c \<longleftrightarrow> is_digit c \<or> c \<in> set ''abcdefABCDEF''"

text \<open>A value has just ended and \<open>c\<close> follows it, or closes what it was in.\<close>

definition jpop :: "jopen list \<Rightarrow> jscan" where
  "jpop st = (if tl st = [] then EndTop else EndValue, tl st)"

definition end_value :: "jopen list \<Rightarrow> char \<Rightarrow> jscan option" where
  "end_value st c =
     (case st of
        [] \<Rightarrow> if jspace c then Some (EndTop, []) else None
      | t # ts \<Rightarrow>
          if jspace c then Some (EndValue, st)
          else (case t of
                  ObjectKey \<Rightarrow> if c = CHR '':'' then Some (BeginValue, ObjectValue # ts) else None
                | ObjectValue \<Rightarrow> if c = CHR '','' then Some (BeginString, ObjectKey # ts)
                                 else if c = CHR ''}'' then Some (jpop st) else None
                | ArrayValue \<Rightarrow> if c = CHR '','' then Some (BeginValue, st)
                                else if c = CHR '']'' then Some (jpop st) else None))"

definition begin_value :: "jopen list \<Rightarrow> char \<Rightarrow> jscan option" where
  "begin_value st c =
     (if jspace c then Some (BeginValue, st)
      else if c = CHR ''{'' then Some (BeginStringOrEmpty, ObjectKey # st)
      else if c = CHR ''['' then Some (BeginValueOrEmpty, ArrayValue # st)
      else if c = CHR 0x22 then Some (InString, st)
      else if c = CHR ''-'' then Some (Minus, st)
      else if c = CHR ''0'' then Some (Zero, st)
      else if is_digit c then Some (Digits, st)
      else if c = CHR ''t'' then Some (Keyword TrueWord 1, st)
      else if c = CHR ''f'' then Some (Keyword FalseWord 1, st)
      else if c = CHR ''n'' then Some (Keyword NullWord 1, st)
      else None)"

definition begin_string :: "jopen list \<Rightarrow> char \<Rightarrow> jmode \<Rightarrow> jscan option" where
  "begin_string st c m =
     (if jspace c then Some (m, st) else if c = CHR 0x22 then Some (InString, st) else None)"

definition number_end :: "jmode \<Rightarrow> jopen list \<Rightarrow> char \<Rightarrow> jscan option" where
  "number_end m st c =
     (if m \<in> {Zero, Digits} \<and> c = CHR ''.'' then Some (Point, st)
      else if m \<in> {Zero, Digits, Fraction} \<and> c \<in> {CHR ''e'', CHR ''E''} then Some (Exponent, st)
      else end_value st c)"

fun jstep :: "jscan \<Rightarrow> char \<Rightarrow> jscan option" where
  "jstep (BeginValueOrEmpty, st) c =
     (if jspace c then Some (BeginValueOrEmpty, st)
      else if c = CHR '']'' then end_value st c else begin_value st c)"
| "jstep (BeginValue, st) c = begin_value st c"
| "jstep (BeginStringOrEmpty, st) c =
     (if c = CHR ''}'' then end_value (ObjectValue # tl st) c else begin_string st c BeginStringOrEmpty)"
| "jstep (BeginString, st) c = begin_string st c BeginString"
| "jstep (EndValue, st) c = end_value st c"
| "jstep (EndTop, st) c = (if jspace c then Some (EndTop, st) else None)"
| "jstep (InString, st) c =
     (if c = CHR 0x22 then Some (EndValue, st)
      else if c = CHR 0x5C then Some (InEscape, st)
      else if (of_char c :: nat) < 32 then None else Some (InString, st))"
| "jstep (InEscape, st) c =
     (if c \<in> set (CHR 0x5C # CHR 0x22 # ''bfnrt/'') then Some (InString, st)
      else if c = CHR ''u'' then Some (InHex 4, st) else None)"
| "jstep (InHex n, st) c =
     (if jhex c then Some (if n \<le> 1 then InString else InHex (n - 1), st) else None)"
| "jstep (Minus, st) c =
     (if c = CHR ''0'' then Some (Zero, st) else if is_digit c then Some (Digits, st) else None)"
| "jstep (Zero, st) c = number_end Zero st c"
| "jstep (Digits, st) c = (if is_digit c then Some (Digits, st) else number_end Digits st c)"
| "jstep (Point, st) c = (if is_digit c then Some (Fraction, st) else None)"
| "jstep (Fraction, st) c = (if is_digit c then Some (Fraction, st) else number_end Fraction st c)"
| "jstep (Exponent, st) c =
     (if c \<in> {CHR ''+'', CHR ''-''} then Some (ExponentSign, st)
      else if is_digit c then Some (ExponentDigits, st) else None)"
| "jstep (ExponentSign, st) c = (if is_digit c then Some (ExponentDigits, st) else None)"
| "jstep (ExponentDigits, st) c =
     (if is_digit c then Some (ExponentDigits, st) else number_end ExponentDigits st c)"
| "jstep (Keyword w n, st) c =
     (if n < length (word_text w) \<and> c = word_text w ! n
      then Some (if Suc n = length (word_text w) then EndValue else Keyword w (Suc n), st) else None)"

fun jrun :: "jscan \<Rightarrow> bytes \<Rightarrow> jscan option" where
  "jrun s [] = Some s"
| "jrun s (c # cs) = (case jstep s c of None \<Rightarrow> None | Some t \<Rightarrow> jrun t cs)"

text \<open>At the end of the text a space is tried, which ends a number.\<close>

definition jeof :: "jscan \<Rightarrow> bool" where
  "jeof s \<longleftrightarrow> fst s = EndTop \<or> map_option fst (jstep s CHR '' '') = Some EndTop"

definition json_valid :: "bytes \<Rightarrow> bool" where
  "json_valid s \<longleftrightarrow> (case jrun (BeginValue, []) s of None \<Rightarrow> False | Some t \<Rightarrow> jeof t)"

subsection \<open>A text that ends in a brace\<close>

lemma jrun_append: "jrun s (xs @ ys) = Option.bind (jrun s xs) (\<lambda>t. jrun t ys)"
  by (induction xs arbitrary: s) (auto split: option.splits)

lemma jrun_end: "jrun (EndTop, st) xs = (if list_all jspace xs then Some (EndTop, st) else None)"
  by (induction xs) auto

lemma not_space_brace [simp]: "\<not> jspace CHR ''}''" "jspace CHR '' ''" "\<not> is_digit CHR ''}''"
  "\<not> is_digit CHR '' ''" "\<not> jhex CHR ''}''"
  by (simp_all add: jspace_def is_digit_def jhex_def)

lemma brace_not_in_word: "CHR ''}'' \<notin> set (word_text w)"
  by (simp add: word_text_def split: jword.split)

lemma keyword_brace [simp]:
  "\<not> (n < length (word_text w) \<and> CHR ''}'' = word_text w ! n)"
  using brace_not_in_word [of w] nth_mem [of n "word_text w"] by auto

lemma end_value_brace:
  "end_value st CHR ''}'' = Some t \<Longrightarrow> t = jpop st"
  by (auto simp: end_value_def split: list.splits jopen.splits if_splits)

lemma jeof_jpop: "jeof (jpop st) \<Longrightarrow> fst (jpop st) = EndTop"
  by (auto simp: jeof_def jpop_def end_value_def split: list.splits if_splits)

text \<open>A closing brace ends the text only by closing its one value.\<close>

lemma brace_ends:
  assumes "jstep (m, st) CHR ''}'' = Some t" and "jeof t"
  shows "fst t = EndTop"
proof (cases "t = jpop st \<or> t = jpop (ObjectValue # tl st)")
  case True
  with assms(2) jeof_jpop show ?thesis by auto
next
  case False
  with assms(1) end_value_brace have "m = InString \<and> t = (InString, st)"
    by (cases m) (auto simp: begin_value_def begin_string_def number_end_def
        dest: end_value_brace split: if_splits)
  with assms(2) show ?thesis by (simp add: jeof_def)
qed

lemma json_valid_brace:
  assumes "json_valid (xs @ [CHR ''}''])"
  shows "\<exists>st. jrun (BeginValue, []) (xs @ [CHR ''}'']) = Some (EndTop, st)"
proof -
  from assms obtain m st t where run: "jrun (BeginValue, []) xs = Some (m, st)"
    and step: "jstep (m, st) CHR ''}'' = Some t" and eof: "jeof t"
    by (auto simp: json_valid_def jrun_append split: option.splits bind_splits)
  have "fst t = EndTop" using step eof by (rule brace_ends)
  with run step show ?thesis by (cases t) (simp add: jrun_append)
qed

text \<open>Nothing but white space can follow, so a second text that ends in a brace cannot.\<close>

lemma json_valid_extended:
  assumes "json_valid (xs @ [CHR ''}''])"
  shows "\<not> json_valid ((xs @ [CHR ''}'']) @ ys @ [CHR ''}''])"
proof -
  obtain st where "jrun (BeginValue, []) (xs @ [CHR ''}'']) = Some (EndTop, st)"
    using json_valid_brace [OF assms] by blast
  then have "jrun (BeginValue, []) ((xs @ [CHR ''}'']) @ ys @ [CHR ''}'']) = None"
    by (simp only: jrun_append bind.bind_lunit jrun_end) simp
  then show ?thesis by (simp add: json_valid_def)
qed

end
