(* ===== verification/Client_Commands.thy ===== *)
theory Client_Commands
  imports Sock_Server Agent_Process Json_Scan Configuration Peerbook
begin

section \<open>The commands that talk to the agent: webexec.go\<close>

text \<open>
  \<open>accept\<close>, \<open>status\<close>, \<open>copy\<close>, \<open>paste\<close>, \<open>init\<close>, \<open>upgrade\<close> and the welcome note. An answer of the
  agent is a status code and a body, \<open>None\<close> when the request failed.
\<close>

type_synonym answer = "(nat \<times> bytes) option"

subsection \<open>Candidates of the agent\<close>

datatype poll_error = PollFailed | PollStatus nat

definition getCandidate :: "answer \<Rightarrow> poll_error + bytes" where
  "getCandidate r =
     (case r of
        None \<Rightarrow> Inl PollFailed
      | Some (status, body) \<Rightarrow>
          if status = 204 then Inr []
          else if status \<noteq> 200 then Inl (PollStatus status) else Inr body)"

text \<open>One turn of \<open>getAgentCandidates\<close>: the loop stops, prints and goes on, or ends the process.\<close>

datatype poll = Stops | Prints bytes | Exits

definition agent_candidates_turn :: "answer \<Rightarrow> poll" where
  "agent_candidates_turn r =
     (case getCandidate r of
        Inl _ \<Rightarrow> Stops
      | Inr can \<Rightarrow> if can \<noteq> [] then Prints can else Exits)"

subsection \<open>Candidates of the client\<close>

text \<open>\<open>TrickleCandidates\<close> reads lines. \<open>can\<close> is the text gathered so far; the assignment that would empty
  it stands after the endless loop. \<open>post\<close> is the agent's answer to an offer, with the decoded id.\<close>

datatype trickle_action =
    PostOffer bytes
  | PutCandidate bytes bytes
  | PrintAnswer bytes
  | ExitError

record trickle_state =
  t_id :: bytes
  t_can :: bytes
  t_over :: bool

definition trickle_start :: trickle_state where
  "trickle_start = \<lparr>t_id = [], t_can = [], t_over = False\<rparr>"

text \<open>\<open>post\<close>: the status and what is printed with the id; \<open>put\<close>: whether a PUT gets an answer.\<close>

definition trickle_line ::
  "(bytes \<Rightarrow> (nat \<times> bytes \<times> bytes) option) \<Rightarrow> bool \<Rightarrow> bytes \<Rightarrow> trickle_state \<Rightarrow>
   trickle_state \<times> trickle_action list" where
  "trickle_line post put line t =
     (let can = t_can t @ line; t1 = t\<lparr>t_can := can\<rparr>
      in if line = [] \<or> last line \<noteq> CHR ''}'' \<or> \<not> json_valid can then (t1, [])
         else if t_id t = []
         then (case post can of
                 None \<Rightarrow> (t1\<lparr>t_over := True\<rparr>, [PostOffer can, ExitError])
               | Some (status, shown, n) \<Rightarrow>
                   if status \<noteq> 200 then (t1\<lparr>t_over := True\<rparr>, [PostOffer can, ExitError])
                   else (t1\<lparr>t_id := n\<rparr>, [PostOffer can, PrintAnswer shown]))
         else (if put then (t1, [PutCandidate (t_id t) can])
               else (t1\<lparr>t_over := True\<rparr>, [PutCandidate (t_id t) can, ExitError])))"

fun trickle ::
  "(bytes \<Rightarrow> (nat \<times> bytes \<times> bytes) option) \<Rightarrow> (bytes \<times> bool) list \<Rightarrow> trickle_state \<Rightarrow> trickle_action list" where
  "trickle post [] t = []"
| "trickle post ((line, put) # lines) t =
     (if t_over t then []
      else case trickle_line post put line t of (t1, acts) \<Rightarrow> acts @ trickle post lines t1)"

subsection \<open>accept\<close>

fun first_answer :: "nat \<Rightarrow> (nat \<Rightarrow> 'a option) \<Rightarrow> 'a option" where
  "first_answer 0 f = None"
| "first_answer (Suc n) f = (case f 0 of Some x \<Rightarrow> Some x | None \<Rightarrow> first_answer n (\<lambda>i. f (Suc i)))"

datatype accept_result =
    AcceptFailed cli_error
  | NoAgentAnswer
  | NoAgentStatus
  | AgentStatus nat
  | Accepting bytes

text \<open>\<open>pid\<close> is the result of \<open>getAgentPid\<close>, \<open>fork\<close> that of \<open>forkAgent\<close>. \<open>newSocketClient\<close> gives nil while
  there is no socket, and using it panics (\<open>None\<close>). The agent is asked up to thirty times. The
  address of the configuration is not used.\<close>

definition accept ::
  "bool \<Rightarrow> bool \<Rightarrow> cli_error + int \<Rightarrow> bytes option \<Rightarrow> (bytes \<Rightarrow> cli_error + int) \<Rightarrow> bool \<Rightarrow>
   (nat \<Rightarrow> answer) \<Rightarrow> accept_result option" where
  "accept certs_ok conf_ok pid flag fork sock_missing status =
     (if \<not> certs_ok then Some (AcceptFailed CertsFailed)
      else if \<not> conf_ok then Some (AcceptFailed ConfFailed)
      else case pid of
        Inl e \<Rightarrow> Some (AcceptFailed e)
      | Inr n \<Rightarrow>
          let address = (case flag of None \<Rightarrow> ''127.0.0.1:7777'' | Some a \<Rightarrow> a)
          in case (if n = 0 then fork address else Inr n) of
               Inl _ \<Rightarrow> Some (AcceptFailed ForkFailed)
             | Inr _ \<Rightarrow>
                 if sock_missing then None
                 else Some (case first_answer 30 status of
                              None \<Rightarrow> NoAgentAnswer
                            | Some (st, body) \<Rightarrow>
                                if st = 204 then NoAgentStatus
                                else if st \<noteq> 200 then AgentStatus st else Accepting body))"

subsection \<open>status\<close>

datatype status_line =
    Uninitialized
  | ShowFP bytes
  | NotRunning
  | ShowPid int
  | OldAgent
  | Undecodable bytes
  | ShowVersion bytes
  | NoPeers
  | PeerLine bytes

datatype status_error = PidError cli_error | NoStatus | StatusRefused bytes | StatusUndecodable

text \<open>What is printed and the error, \<open>None\<close> for a panic. \<open>certs\<close> are the answers \<open>getFP\<close> gets, in a process
  without a logger; \<open>decode\<close> is the decoding of a \<open>StatusMessage\<close>.\<close>

definition statusCMD ::
  "bytes list option option \<Rightarrow> cli_error + int \<Rightarrow> bool \<Rightarrow> answer \<Rightarrow>
   (bytes \<Rightarrow> (bytes \<times> candidate_pair list) option) \<Rightarrow>
   (status_line list \<times> status_error option) option" where
  "statusCMD certs pid sock_missing resp decode = do {
     fp \<leftarrow> getFP False certs;
     let l1 = [if fp = [] then Uninitialized else ShowFP fp];
     (case pid of
        Inl e \<Rightarrow> Some (l1, Some (PidError e))
      | Inr n \<Rightarrow>
          let l2 = l1 @ [if n = 0 then NotRunning else ShowPid n]
          in if sock_missing then Some (l2, None)
             else case resp of
               None \<Rightarrow> Some (l2, Some NoStatus)
             | Some (status, body) \<Rightarrow>
                 if status \<noteq> 200 then Some (l2, Some (StatusRefused body))
                 else if body = ''READY'' then Some (l2 @ [OldAgent], None)
                 else case decode body of
                        None \<Rightarrow> Some (l2 @ [Undecodable body], Some StatusUndecodable)
                      | Some (version, pairs) \<Rightarrow>
                          if pairs = [] then Some (l2 @ [ShowVersion version, NoPeers], None)
                          else map_option (\<lambda>ls. (l2 @ ShowVersion version # map PeerLine ls, None))
                                 (those (map pair_write pairs)))
   }"

text \<open>Without a certificate \<open>status\<close> does not come to say that webexec is not initialized.\<close>

lemma statusCMD_no_certs: "statusCMD None pid sock_missing resp decode = None"
  by (simp add: statusCMD_def getFP_def)

subsection \<open>copy and paste\<close>

datatype clip_error = StdinFailed | NoAgentSocket | RequestFailed | ClipStatus nat bytes

definition copyCMD :: "bytes option \<Rightarrow> bool \<Rightarrow> (bytes \<Rightarrow> answer) \<Rightarrow> clip_error option" where
  "copyCMD stdin sock_missing post =
     (case stdin of
        None \<Rightarrow> Some StdinFailed
      | Some b \<Rightarrow>
          if sock_missing then Some NoAgentSocket
          else case post b of
                 None \<Rightarrow> Some RequestFailed
               | Some (status, _) \<Rightarrow> if status \<noteq> 200 then Some (ClipStatus status []) else None)"

text \<open>\<open>paste\<close> only prints a note when the socket is missing, and goes on.\<close>

definition pasteCMD :: "bool \<Rightarrow> answer \<Rightarrow> bytes list \<times> clip_error option" where
  "pasteCMD sock_missing get =
     (let note = (if sock_missing then [''Agent is not running. Please run `webexec start`''] else [])
      in case get of
           None \<Rightarrow> (note, Some RequestFailed)
         | Some (status, body) \<Rightarrow>
             if status \<noteq> 200 then (note, Some (ClipStatus status body)) else (note @ [body], None))"

subsection \<open>The welcome note and upgrade\<close>

text \<open>\<open>cachedVersion\<close>, over a type \<open>'v\<close> of semantic versions with the parser, order and printer of the
  semver library. \<open>release\<close> is the tag name in the answer of the release server, \<open>None\<close> when any step
  to it fails; \<open>now\<close> and \<open>expire\<close> are in nanoseconds. Every failure is logged: \<open>logger\<close> says whether there
  is a \<open>Logger\<close>, as in the agent, or none, as in \<open>upgrade\<close> and in the parent of a forked agent, where
  using it panics (\<open>None\<close>).\<close>

record 'v cached_version =
  cv_version :: "'v option"
  cv_expire :: int

definition needs_release :: "int \<Rightarrow> 'v cached_version \<Rightarrow> bool" where
  "needs_release now cv \<longleftrightarrow> cv_version cv = None \<or> now < cv_expire cv"

definition trim_prefix :: "bytes \<Rightarrow> bytes \<Rightarrow> bytes" where
  "trim_prefix p s = (if take (length p) s = p then drop (length p) s else s)"

definition getVersionNote ::
  "bool \<Rightarrow> (bytes \<Rightarrow> 'v option) \<Rightarrow> ('v \<Rightarrow> 'v \<Rightarrow> bool) \<Rightarrow> ('v \<Rightarrow> bytes) \<Rightarrow> bytes \<Rightarrow> int \<Rightarrow> bytes option \<Rightarrow>
   'v cached_version \<Rightarrow> ('v cached_version \<times> bytes) option" where
  "getVersionNote logger parse older show_version version now release cv =
     (let note = (\<lambda>latest. case parse version of
                    None \<Rightarrow> []
                  | Some current \<Rightarrow>
                      if older current latest
                      then ''webexec version '' @ show_version latest @
                           '' is available, please run `webexec upgrade`'' @ [newline]
                      else [])
      in if needs_release now cv
         then (case release of
                 None \<Rightarrow> if logger then Some (cv, []) else None
               | Some tag \<Rightarrow>
                   (case parse (trim_prefix ''v'' tag) of
                      None \<Rightarrow> if logger then Some (cv\<lparr>cv_version := None\<rparr>, []) else None
                    | Some latest \<Rightarrow>
                        Some (cv\<lparr>cv_version := Some latest, cv_expire := now + 3600000000000\<rparr>, note latest)))
         else Some (cv, note (the (cv_version cv))))"

text \<open>The box-drawing characters before the note are three bytes each.\<close>

definition getWelcome :: "bytes \<Rightarrow> bytes" where
  "getWelcome note =
     ''Connected over WebRTC'' @ [CHR 0x0D, newline] @
     (if note = [] then []
      else [CHR 0xE2, CHR 0x94, CHR 0x94, CHR 0xE2, CHR 0x94, CHR 0x80, CHR '' ''] @ note @
           [CHR 0x0D, newline])"

text \<open>\<open>noted\<close> is the result of \<open>getVersionNote\<close>, and \<open>script\<close> what the second server sends.\<close>

datatype upgrade_result = UpToDate | NoScript | RanScript bytes

definition upgrade :: "('v cached_version \<times> bytes) option \<Rightarrow> bytes option \<Rightarrow> upgrade_result option" where
  "upgrade noted script = do {
     (_, note) \<leftarrow> noted;
     Some (if note = [] then UpToDate else case script of None \<Rightarrow> NoScript | Some s \<Rightarrow> RanScript s)
   }"

text \<open>The lines the parent of a forked agent prints: the process, and the note if there is one. A panic
  there leaves the agent running. \<open>logger\<close> is true for a parent that ran \<open>init\<close> first.\<close>

definition forked_says :: "int \<Rightarrow> ('v cached_version \<times> bytes) option \<Rightarrow> bytes list \<times> bool" where
  "forked_says pid noted =
     (let first = ''Agent started as process #'' @ show_int pid
      in case noted of
           None \<Rightarrow> ([first], True)
         | Some (_, note) \<Rightarrow> (if note = [] then [first] else [first, note], False))"

subsection \<open>The certificate: key.go\<close>

text \<open>\<open>GetCerts\<close> reads the file once. \<open>from_pem\<close> is the library's parser; the code that would make a
  fresh certificate stands after a return.\<close>

datatype cert_error = NoCertificate | BadCertificate

definition getCerts ::
  "bytes \<Rightarrow> (bytes \<Rightarrow> 'c option) \<Rightarrow> files \<Rightarrow> 'c list option \<Rightarrow> 'c list option \<times> (cert_error + 'c list)" where
  "getCerts home from_pem fs certs =
     (case certs of
        Some cs \<Rightarrow> (certs, Inr cs)
      | None \<Rightarrow>
          (case fs (ConfPath home ''certnkey.pem'') of
             None \<Rightarrow> (None, Inl NoCertificate)
           | Some pb \<Rightarrow>
               (case from_pem pb of None \<Rightarrow> (None, Inl BadCertificate) | Some c \<Rightarrow> (Some [c], Inr [c]))))"

text \<open>\<open>save\<close>: the file is emptied before the certificate is encoded.\<close>

definition save_key :: "bytes \<Rightarrow> bool \<Rightarrow> bytes option \<Rightarrow> files \<Rightarrow> files \<times> bool" where
  "save_key path may_create pem fs =
     (if \<not> may_create then (fs, False)
      else case pem of None \<Rightarrow> (fs(path \<mapsto> []), False) | Some b \<Rightarrow> (fs(path \<mapsto> b), True))"

subsection \<open>init\<close>

text \<open>The name of the host: from the environment, or what the user enters, or the hostname.\<close>

definition init_name :: "bytes \<Rightarrow> bytes option \<Rightarrow> bytes \<Rightarrow> bytes option" where
  "init_name name hostname entered =
     (if name \<noteq> [] then Some name
      else case hostname of
             None \<Rightarrow> None
           | Some dn \<Rightarrow> Some (if trim_space entered \<noteq> [] then trim_space entered else dn))"

datatype init_result =
    DirFailed
  | AlreadyThere
  | KeyFailed
  | HostnameFailed
  | ConfNotCreated create_error
  | ConfNotLoaded
  | VerifyFailed verify_error
  | Initialized "bool option"

text \<open>\<open>dir_missing\<close>: the answer of \<open>Stat\<close> on the configuration directory; \<open>load\<close>: whether the created
  file can be loaded. The result has the files and, when the user is known, whether peerbook
  verified the fingerprint. A panic in \<open>verifyPeer\<close> is \<open>None\<close>.\<close>

definition initCMD ::
  "bytes \<Rightarrow> bool \<Rightarrow> bool \<Rightarrow> bytes option \<Rightarrow> bytes \<Rightarrow> bytes \<Rightarrow> bytes \<Rightarrow> bytes option \<Rightarrow> bytes \<Rightarrow>
   bool \<Rightarrow> bool \<Rightarrow> (bytes \<Rightarrow> bool) \<Rightarrow> http_answer option \<Rightarrow> files \<Rightarrow> (files \<times> init_result) option" where
  "initCMD home dir_missing mkdir_ok pem uid host name hostname entered may_create may_write load resp fs =
     (if \<not> dir_missing then Some (fs, AlreadyThere)
      else if \<not> mkdir_ok then Some (fs, DirFailed)
      else case pem of
        None \<Rightarrow> Some (fs, KeyFailed)
      | Some key \<Rightarrow>
          let fs1 = fst (save_key (ConfPath home ''certnkey.pem'') may_create (Some key) fs)
          in case init_name name hostname entered of
               None \<Rightarrow> Some (fs1, HostnameFailed)
             | Some nm \<Rightarrow>
                 (case createConf home may_create may_write uid host nm fs1 of
                    (fs2, Inl e) \<Rightarrow> Some (fs2, ConfNotCreated e)
                  | (fs2, Inr path) \<Rightarrow>
                      if \<not> load (the (fs2 path)) then Some (fs2, ConfNotLoaded)
                      else if uid = [] then Some (fs2, Initialized None)
                      else do {
                        v \<leftarrow> verifyPeer resp;
                        Some (fs2, case v of Inl e \<Rightarrow> VerifyFailed e | Inr b \<Rightarrow> Initialized (Some b))
                      }))"

end
