(* ===== verification/Accept_Properties.thy ===== *)
theory Accept_Properties
  imports Client_Commands
begin

section \<open>Accepting an offer by hand\<close>

text \<open>
  \<open>webexec accept\<close> passes an offer and its candidates from the terminal to the agent, and the
  agent's answer and candidates back. The two ends are \<open>trickle\<close> and \<open>getAgentCandidates\<close> in the
  command, and the handler of offers in the agent.
\<close>

subsection \<open>From the terminal to the agent\<close>

definition complete :: "bytes \<Rightarrow> bool" where
  "complete can \<longleftrightarrow> json_valid can \<and> can \<noteq> [] \<and> last can = CHR ''}''"

lemma complete_extended:
  assumes "complete can" and "line \<noteq> []" and "last line = CHR ''}''"
  shows "\<not> json_valid (can @ xs @ line)"
proof -
  obtain us where "can = us @ [CHR ''}'']"
    using assms(1) unfolding complete_def by (metis append_butlast_last_id)
  moreover obtain vs where "line = vs @ [CHR ''}'']"
    using assms(2,3) by (metis append_butlast_last_id)
  ultimately show ?thesis
    using json_valid_extended [of us "xs @ vs"] assms(1) by (simp add: complete_def)
qed

text \<open>Once the text holds a complete offer it only grows, and no line makes it complete again.\<close>

lemma trickle_silent:
  assumes "\<exists>can xs. complete can \<and> t_can t = can @ xs"
  shows "trickle post lines t = []"
  using assms
proof (induction lines arbitrary: t)
  case (Cons l lines)
  obtain line put where l: "l = (line, put)" by (cases l)
  from Cons.prems obtain can xs where c: "complete can" "t_can t = can @ xs" by blast
  let ?t = "t\<lparr>t_can := t_can t @ line\<rparr>"
  have "trickle_line post put line t = (?t, [])"
    using complete_extended [OF c(1), of line xs] c(2) by (auto simp: trickle_line_def Let_def)
  moreover have "trickle post lines ?t = []" using c by (intro Cons.IH) auto
  ultimately show ?case by (simp add: l)
qed simp

text \<open>\<open>typed_text pre lines k\<close>: what was typed up to line \<open>k\<close>, after \<open>pre\<close>. \<open>ends_offer\<close>: that line ends in
  a brace, and the text is JSON.\<close>

definition typed_text :: "bytes \<Rightarrow> (bytes \<times> bool) list \<Rightarrow> nat \<Rightarrow> bytes" where
  "typed_text pre lines k = pre @ concat (map fst (take (Suc k) lines))"

definition ends_offer :: "bytes \<Rightarrow> (bytes \<times> bool) list \<Rightarrow> nat \<Rightarrow> bool" where
  "ends_offer pre lines k \<longleftrightarrow> k < length lines \<and> fst (lines ! k) \<noteq> [] \<and> last (fst (lines ! k)) = CHR ''}'' \<and>
     json_valid (typed_text pre lines k)"

text \<open>What follows the posted offer, for each answer of the agent.\<close>

definition offer_reply :: "(nat \<times> bytes \<times> bytes) option \<Rightarrow> trickle_action" where
  "offer_reply r =
     (case r of None \<Rightarrow> ExitError
      | Some (status, shown, n) \<Rightarrow> if status \<noteq> 200 then ExitError else PrintAnswer shown)"

lemma typed_text_simps [simp]:
  "typed_text pre (l # ls) 0 = pre @ fst l"
  "typed_text pre (l # ls) (Suc k) = typed_text (pre @ fst l) ls k"
  by (simp_all add: typed_text_def)

lemma ends_offer_simps [simp]:
  "\<not> ends_offer pre [] k"
  "ends_offer pre (l # ls) 0 \<longleftrightarrow> fst l \<noteq> [] \<and> last (fst l) = CHR ''}'' \<and> json_valid (pre @ fst l)"
  "ends_offer pre (l # ls) (Suc k) \<longleftrightarrow> ends_offer (pre @ fst l) ls k"
  by (auto simp: ends_offer_def)

lemma trickle_quiet_line:
  assumes "\<not> ends_offer (t_can t) ((line, put) # ls) 0"
  shows "trickle_line post put line t = (t\<lparr>t_can := t_can t @ line\<rparr>, [])"
  using assms by (auto simp: trickle_line_def Let_def)

lemma trickle_offer_line:
  assumes "ends_offer (t_can t) ((line, put) # ls) 0" and "t_id t = []"
  shows "\<exists>t1. trickle_line post put line t =
      (t1, [PostOffer (t_can t @ line), offer_reply (post (t_can t @ line))]) \<and>
    complete (t_can t @ line) \<and> t_can t1 = t_can t @ line"
  using assms by (auto simp: trickle_line_def complete_def offer_reply_def Let_def split: option.split)

text \<open>The whole of what is sent, from any state without an id.\<close>

lemma trickle_first_offer:
  assumes "t_id t = []" and "\<not> t_over t"
  shows "trickle post lines t = [] \<and> (\<forall>k. \<not> ends_offer (t_can t) lines k) \<or>
    (\<exists>k. ends_offer (t_can t) lines k \<and> (\<forall>j < k. \<not> ends_offer (t_can t) lines j) \<and>
       trickle post lines t =
         [PostOffer (typed_text (t_can t) lines k), offer_reply (post (typed_text (t_can t) lines k))])"
  using assms
proof (induction lines arbitrary: t)
  case (Cons l lines)
  obtain line put where l: "l = (line, put)" by (cases l)
  show ?case
  proof (cases "ends_offer (t_can t) ((line, put) # lines) 0")
    case True
    obtain t1 where t1: "trickle_line post put line t =
        (t1, [PostOffer (t_can t @ line), offer_reply (post (t_can t @ line))])"
      "complete (t_can t @ line)" "t_can t1 = t_can t @ line"
      using trickle_offer_line [OF True Cons.prems(1), of post] by blast
    then have "trickle post lines t1 = []" by (intro trickle_silent) (auto intro: exI [of _ "[]"])
    with t1 True Cons.prems(2) show ?thesis unfolding l by (intro disjI2 exI [of _ 0]) simp
  next
    case False
    let ?t = "t\<lparr>t_can := t_can t @ line\<rparr>"
    have tr: "trickle post ((line, put) # lines) t = trickle post lines ?t"
      using trickle_quiet_line [OF False, of post] Cons.prems(2) by simp
    have none: "(\<forall>k. \<not> ends_offer (t_can ?t) lines k) \<longleftrightarrow> (\<forall>k. \<not> ends_offer (t_can t) ((line, put) # lines) k)"
    proof -
      have "ends_offer (t_can t) ((line, put) # lines) k \<longleftrightarrow>
          (\<exists>j. k = Suc j \<and> ends_offer (t_can ?t) lines j)" for k
        using False by (cases k) auto
      then show ?thesis by auto
    qed
    from Cons.IH [of ?t] Cons.prems have "trickle post lines ?t = [] \<and> (\<forall>k. \<not> ends_offer (t_can ?t) lines k) \<or>
      (\<exists>k. ends_offer (t_can ?t) lines k \<and> (\<forall>j < k. \<not> ends_offer (t_can ?t) lines j) \<and>
         trickle post lines ?t =
           [PostOffer (typed_text (t_can ?t) lines k), offer_reply (post (typed_text (t_can ?t) lines k))])"
      by simp
    then show ?thesis
    proof (elim disjE exE conjE)
      fix k assume k: "ends_offer (t_can ?t) lines k" "\<forall>j < k. \<not> ends_offer (t_can ?t) lines j"
        "trickle post lines ?t =
          [PostOffer (typed_text (t_can ?t) lines k), offer_reply (post (typed_text (t_can ?t) lines k))]"
      have "\<not> ends_offer (t_can t) ((line, put) # lines) j" if "j < Suc k" for j
        using that False k(2) by (cases j) simp_all
      with k tr show ?thesis unfolding l by (intro disjI2 exI [of _ "Suc k"]) simp
    qed (use none tr l in simp)
  qed
qed simp

text \<open>C38. Whatever is typed, \<open>accept\<close> sends the agent at most one thing: the offer, which is all that was
  typed up to the first line that ends in a brace and makes the whole text JSON. It is posted once,
  and its answer printed or the command ended. The text of the offer is kept in front of every later
  line, so no candidate is ever complete, and none is sent.\<close>

theorem accept_sends_only_the_offer:
  "trickle post lines trickle_start = [] \<and> (\<forall>k. \<not> ends_offer [] lines k) \<or>
   (\<exists>k offer. ends_offer [] lines k \<and> (\<forall>j < k. \<not> ends_offer [] lines j) \<and>
      offer = concat (map fst (take (Suc k) lines)) \<and> json_valid offer \<and>
      trickle post lines trickle_start = [PostOffer offer, offer_reply (post offer)])"
  using trickle_first_offer [of trickle_start post lines]
  by (auto simp: trickle_start_def typed_text_def ends_offer_def)

text \<open>Two lines, an offer and a candidate: only the offer leaves.\<close>

theorem accept_sends_only_the_offer_witness:
  "trickle (\<lambda>b. Some (200, ''{}'', ''x'')) [(''{'', True), (''}'', True), (''{}'', True)] trickle_start =
     [PostOffer ''{}'', PrintAnswer ''{}''] \<and> json_valid ''{}''"
proof -
  let ?post = "\<lambda>b. Some (200, ''{}'', ''x'')"
  let ?lines = "[(''{'', True), (''}'', True), (''{}'', True)] :: (bytes \<times> bool) list"
  have v: "json_valid ''{}''" by code_simp
  have e: "ends_offer [] ?lines 1" using v by (simp add: ends_offer_def typed_text_def)
  have n: "\<not> ends_offer [] ?lines 0" by (simp add: ends_offer_def)
  from accept_sends_only_the_offer [of ?post ?lines] e
  obtain k where k: "\<forall>j < k. \<not> ends_offer [] ?lines j" "ends_offer [] ?lines k"
    "trickle ?post ?lines trickle_start =
      [PostOffer (concat (map fst (take (Suc k) ?lines))), offer_reply (?post [])]"
    by blast
  have "k = 1" using k(1,2) e n by (metis less_one linorder_neqE_nat)
  with k(3) v show ?thesis by (simp add: offer_reply_def)
qed

subsection \<open>From the agent to the terminal\<close>

text \<open>An answer of the agent as the client of the socket sees it.\<close>

definition seen :: "sreply \<Rightarrow> answer" where
  "seen rep =
     (case rep of
        SError n m \<Rightarrow> Some (n, if n = 204 then [] else m @ [newline])
      | SBody b \<Rightarrow> Some (200, b)
      | _ \<Rightarrow> None)"

text \<open>What one poll for the agent's candidates does: it prints the next one if there is any;
  otherwise, after five seconds, it stops when the peer was closed and ends the command in every
  other case, whether the connection was established or is still being made.\<close>

lemma accept_poll:
  assumes "sk_offers s h = Some l" and "sk_at s l = Some lo" and "peer_at (sk_agent s) (lo_p lo) = Some pr"
    and "\<forall>c. \<exists>m. candidate_json c = Some m \<and> m \<noteq> []"
  shows "agent_candidates_turn (seen (snd (offer_get candidate_json connected [''offer'', h] s))) =
    (case lo_cs lo of
       c # _ \<Rightarrow> Prints (the (candidate_json c))
     | [] \<Rightarrow> if pr_PC pr then Exits else Stops)"
proof -
  obtain m where "candidate_json (hd (lo_cs lo)) = Some m" "m \<noteq> []" using assms(4) by blast
  with assms(1-3) show ?thesis
    by (auto simp: offer_get_def named_offer_def get_candidate_def seen_def agent_candidates_turn_def
        getCandidate_def split: list.splits)
qed

definition poll_peer :: peer where
  "poll_peer = \<lparr>pr_FP = ''AB'', pr_LastRef = 0, pr_PC = True, pr_cdc = None, pr_Marker = - 1,
     pr_acks = Map.empty, pr_pending = [], pr_draining = False\<rparr>"

definition poll_server :: sock_server where
  "poll_server =
     \<lparr>sk_agent = set_peer 0 poll_peer initial_agent, sk_offers = [''h'' \<mapsto> 0],
      sk_at = [0 \<mapsto> \<lparr>lo_incoming = [], lo_cs = [], lo_p = 0, lo_id = ''h'', lo_started = True,
                  lo_cancelled = False\<rparr>],
      sk_next = 1\<rparr>"

lemma accept_poll_example:
  "agent_candidates_turn (seen (snd (offer_get (\<lambda>c. Some (''c'' @ c)) False [''offer'', ''h''] poll_server))) = Exits"
proof -
  let ?lo = "\<lparr>lo_incoming = [], lo_cs = [], lo_p = 0, lo_id = ''h'', lo_started = True, lo_cancelled = False\<rparr>"
  have "agent_candidates_turn (seen (snd (offer_get (\<lambda>c. Some (''c'' @ c)) False [''offer'', ''h''] poll_server))) =
    (case lo_cs ?lo of c # _ \<Rightarrow> Prints (the (Some (''c'' @ c))) | [] \<Rightarrow> if pr_PC poll_peer then Exits else Stops)"
    by (rule accept_poll) (simp_all add: poll_server_def)
  then show ?thesis by (simp add: poll_peer_def)
qed

end
