(* ===== verification/Output_Pipe.thy ===== *)
theory Output_Pipe
  imports Quiet_Steps "HOL-Library.Multiset"
begin

section \<open>The way of the output: ReadLoop, outbuf and sender in peers/pane.go\<close>

text \<open>
  Each read loop of a pane reads chunks from the terminal and puts them on the channel \<open>outbuf\<close>,
  which has 4096 places and is shared by all of them; each started a sender that takes chunks from
  it and handles them. A loop that ends waits a tenth of a second, cancels its own sender and kills
  the pane. Here every goroutine goes its own way, one action at a time, around the agent; the
  steps \<open>chunk_sent\<close> and \<open>end_of_output\<close> of the agent are what is left of them when one looks at the
  agent alone.
\<close>

definition OutBufSize :: nat where
  "OutBufSize = 4096"

text \<open>A read loop reads, after some empty reads in a row; holds a chunk that it has to put on the
  channel; has ended and waits for its timer; or is gone. A sender waits for a chunk; handles one;
  waits with it for a mutex that is never released; or has returned.\<close>

datatype reader = Reads nat | Puts bytes | Winds | Gone

datatype sender = Takes | Handling bytes | Blocked bytes | Returned

record worker =
  wk_reader :: reader
  wk_sender :: sender
  wk_cancelled :: bool

definition new_worker :: worker where
  "new_worker = \<lparr>wk_reader = Reads 0, wk_sender = Takes, wk_cancelled = False\<rparr>"

text \<open>\<open>pp_read\<close> is kept for the statements only: the chunks that were read, in the order of the reads.\<close>

record piped =
  pp_agent :: agent
  pp_work :: "pane_ref \<Rightarrow> worker list"
  pp_chan :: "pane_ref \<Rightarrow> bytes list"
  pp_read :: "pane_ref \<Rightarrow> bytes list"

definition new_pipe :: piped where
  "new_pipe = \<lparr>pp_agent = initial_agent, pp_work = (\<lambda>r. []), pp_chan = (\<lambda>r. []), pp_read = (\<lambda>r. [])\<rparr>"

text \<open>One turn of a read loop: the test of the context and the result of \<open>Read\<close>.\<close>

definition read_turn :: "bool \<Rightarrow> bytes \<Rightarrow> read_error option \<Rightarrow> nat \<Rightarrow> reader" where
  "read_turn cancelled b rerr conNull =
     (if cancelled \<or> rerr \<noteq> None then Winds
      else if b = [] then (if Suc conNull \<le> 3 then Reads (Suc conNull) else Winds)
      else Puts b)"

text \<open>Taken one after the other, the turns are the loop \<open>readLoop\<close> of \<open>Pane_Ops\<close>.\<close>

fun read_turns :: "nat \<Rightarrow> (bool \<times> bytes \<times> read_error option) list \<Rightarrow> bytes list \<times> reader" where
  "read_turns n [] = ([], Reads n)"
| "read_turns n ((cancelled, b, rerr) # rs) =
     (case read_turn cancelled b rerr n of
        Reads m \<Rightarrow> read_turns m rs
      | Puts out \<Rightarrow> (case read_turns 0 rs of (outs, rd) \<Rightarrow> (out # outs, rd))
      | rd \<Rightarrow> ([], rd))"

lemma readLoop_turns: "readLoop n rs = (fst (read_turns n rs), snd (read_turns n rs) = Winds)"
  by (induction n rs rule: readLoop.induct) (auto simp: read_turn_def split: prod.splits)

fun held :: "reader \<Rightarrow> bytes list" where
  "held (Puts b) = [b]"
| "held _ = []"

fun handled_by :: "sender \<Rightarrow> bytes list" where
  "handled_by (Handling m) = [m]"
| "handled_by (Blocked m) = [m]"
| "handled_by _ = []"

definition set_worker :: "pane_ref \<Rightarrow> nat \<Rightarrow> worker \<Rightarrow> piped \<Rightarrow> piped" where
  "set_worker r i w s = s\<lparr>pp_work := (pp_work s)(r := (pp_work s r)[i := w])\<rparr>"

definition has_worker :: "piped \<Rightarrow> pane_ref \<Rightarrow> nat \<Rightarrow> worker \<Rightarrow> bool" where
  "has_worker s r i w \<longleftrightarrow> i < length (pp_work s r) \<and> pp_work s r ! i = w"

text \<open>The loops an operation of the agent has started begin.\<close>

definition start_workers :: "agent \<Rightarrow> piped \<Rightarrow> piped" where
  "start_workers b s =
     s\<lparr>pp_agent := b,
       pp_work := (\<lambda>r. pp_work s r @ replicate (readers b r - readers (pp_agent s) r) new_worker)\<rparr>"

definition reads :: "pane_ref \<Rightarrow> nat \<Rightarrow> worker \<Rightarrow> reader \<Rightarrow> piped \<Rightarrow> piped" where
  "reads r i w rd s =
     (set_worker r i (w\<lparr>wk_reader := rd\<rparr>) s)\<lparr>pp_read := (pp_read s)(r := pp_read s r @ held rd)\<rparr>"

definition puts :: "pane_ref \<Rightarrow> nat \<Rightarrow> worker \<Rightarrow> bytes \<Rightarrow> piped \<Rightarrow> piped" where
  "puts r i w b s =
     (set_worker r i (w\<lparr>wk_reader := Reads 0\<rparr>) s)\<lparr>pp_chan := (pp_chan s)(r := pp_chan s r @ [b])\<rparr>"

definition takes :: "pane_ref \<Rightarrow> nat \<Rightarrow> worker \<Rightarrow> bytes \<Rightarrow> bytes list \<Rightarrow> piped \<Rightarrow> piped" where
  "takes r i w m rest s =
     (set_worker r i (w\<lparr>wk_sender := Handling m\<rparr>) s)\<lparr>pp_chan := (pp_chan s)(r := rest)\<rparr>"

definition handles :: "pane_ref \<Rightarrow> nat \<Rightarrow> worker \<Rightarrow> bytes \<Rightarrow> bool \<Rightarrow> agent \<Rightarrow> piped \<Rightarrow> piped" where
  "handles r i w m stuck b s =
     (set_worker r i (w\<lparr>wk_sender := if stuck then Blocked m else Takes\<rparr>) s)\<lparr>pp_agent := b\<rparr>"

text \<open>\<open>Read\<close> is called on a terminal and returns at most \<open>OutBufSize\<close> bytes. The context may be cancelled
  between its test and the end of the read.\<close>

inductive piped_step :: "piped \<Rightarrow> piped \<Rightarrow> bool" where
  outer: "outer_step (pp_agent s) b \<Longrightarrow> piped_step s (start_workers b s)"
| read: "has_worker s r i w \<Longrightarrow> wk_reader w = Reads n \<Longrightarrow>
    pane_at (pp_agent s) r = Some pn \<Longrightarrow> p_TTY pn \<noteq> None \<Longrightarrow> (cancelled \<longrightarrow> p_cancelled pn) \<Longrightarrow>
    length b \<le> OutBufSize \<Longrightarrow> piped_step s (reads r i w (read_turn cancelled b rerr n) s)"
| put: "has_worker s r i w \<Longrightarrow> wk_reader w = Puts b \<Longrightarrow> length (pp_chan s r) < OutBufSize \<Longrightarrow>
    piped_step s (puts r i w b s)"
| take: "has_worker s r i w \<Longrightarrow> wk_sender w = Takes \<Longrightarrow> pp_chan s r = m # rest \<Longrightarrow>
    piped_step s (takes r i w m rest s)"
| handle: "has_worker s r i w \<Longrightarrow> wk_sender w = Handling m \<Longrightarrow> pane_at (pp_agent s) r = Some pn \<Longrightarrow>
    sender_turn E r m (pp_agent s) = Some b \<Longrightarrow> piped_step s (handles r i w m (p_stuck pn) b s)"
| return: "has_worker s r i w \<Longrightarrow> wk_sender w = Takes \<Longrightarrow> wk_cancelled w \<Longrightarrow>
    piped_step s (set_worker r i (w\<lparr>wk_sender := Returned\<rparr>) s)"
| wind_up: "has_worker s r i w \<Longrightarrow> wk_reader w = Winds \<Longrightarrow> reader_end E r (pp_agent s) = Some b \<Longrightarrow>
    piped_step s ((set_worker r i (w\<lparr>wk_reader := Gone, wk_cancelled := True\<rparr>) s)\<lparr>pp_agent := b\<rparr>)"

inductive piped_reachable :: "piped \<Rightarrow> bool" where
  boot: "piped_reachable new_pipe"
| step: "piped_reachable s \<Longrightarrow> piped_step s t \<Longrightarrow> piped_reachable t"

subsection \<open>What the steps do to the agent\<close>

lemma readers_set_pane:
  "pane_at a r = Some pn \<Longrightarrow> p_readers pn' = p_readers pn \<Longrightarrow> readers (set_pane r pn' a) = readers a"
  by (auto simp: readers_def fun_eq_iff)

lemma readers_same: "pane_at b = pane_at a \<Longrightarrow> readers b = readers a"
  by (simp add: readers_def fun_eq_iff)

lemma hushedD:
  assumes "hushed a b" and "panes_below a"
  shows "panes_below b" and "chunks r (sent b) = chunks r (sent a)" and "blocked b r = blocked a r"
    and "readers a r \<le> readers b r"
  using assms by (simp_all add: hushed_def)

text \<open>A turn of a sender prints its chunk, or blocks when the buffer's mutex is never released.\<close>

lemma sender_turn_prints:
  assumes "sender_turn E r m a = Some b" and "pane_at a r = Some pn" and "panes_below a"
  shows "panes_below b" and "readers b = readers a"
    and "chunks q (sent b) = chunks q (sent a) @ (if q = r \<and> \<not> p_stuck pn then [m] else [])"
    and "blocked b q = blocked a q + (if q = r \<and> p_stuck pn then 1 else 0)"
proof -
  let ?a1 = "deliver E m (clients_of E r a) a"
  have q: "hushed a ?a1" by (simp add: deliver_quiet quiet_hushed)
  have pn: "pane_at ?a1 r = Some pn" using assms(2) by simp
  let ?vt = "map_option (\<lambda>ops. ops @ [VtWrite m]) (p_vt pn)"
  obtain pn' where pn': "p_readers pn' = p_readers pn"
    "p_blocked pn' = p_blocked pn + (if p_stuck pn then 1 else 0)" and
    b: "b = (if p_stuck pn then set_pane r pn' ?a1 else emit (Printed r m) (set_pane r pn' ?a1))"
  proof (cases "p_stuck pn")
    case True
    with assms(1) pn show thesis
      by (intro that [of "pn\<lparr>p_vt := ?vt, p_blocked := Suc (p_blocked pn)\<rparr>"])
        (simp_all add: sender_turn_def Let_def)
  next
    case False
    with assms(1) pn obtain buf where "add m (p_Buffer pn) = Some buf"
      by (auto simp: sender_turn_def Let_def split: bind_splits)
    with False assms(1) pn show thesis
      by (intro that [of "pn\<lparr>p_vt := ?vt, p_Buffer := buf\<rparr>"]) (simp_all add: sender_turn_def Let_def)
  qed
  show "panes_below b" using hushedD(1) [OF q assms(3)] pn by (auto simp: b panes_below_def)
  have "readers (set_pane r pn' ?a1) = readers ?a1" using pn pn'(1) by (rule readers_set_pane)
  moreover have "readers ?a1 = readers a" "readers b = readers (set_pane r pn' ?a1)"
    by (rule readers_same, simp add: b)+
  ultimately show "readers b = readers a" by simp
  show "chunks q (sent b) = chunks q (sent a) @ (if q = r \<and> \<not> p_stuck pn then [m] else [])"
    using hushedD(2) [OF q assms(3)] by (simp add: b emit_def set_pane_def)
  show "blocked b q = blocked a q + (if q = r \<and> p_stuck pn then 1 else 0)"
    using hushedD(3) [OF q assms(3), of q] pn pn'(2) by (simp add: b blocked_def)
qed

lemma reader_end_readers:
  assumes "reader_end E r a = Some b"
  shows "readers b = readers a"
proof -
  from assms obtain q where "pane_kill E q a = Some b"
    by (auto simp: reader_end_def split: bind_splits)
  then obtain pn where pn: "pane_at a q = Some pn" and b: "pane_at b =
      pane_at (set_pane q (pn\<lparr>p_IsRunning := False, p_cancelled := p_cancelled pn \<or> p_IsRunning pn\<rparr>) a)"
    by (auto simp: pane_kill_def Let_def kill_process_def close_tty_def split: bind_splits option.splits if_splits)
  have "readers b = readers (set_pane q (pn\<lparr>p_IsRunning := False,
      p_cancelled := p_cancelled pn \<or> p_IsRunning pn\<rparr>) a)"
    using b by (rule readers_same)
  also have "\<dots> = readers a" using pn by (rule readers_set_pane) simp
  finally show ?thesis .
qed

subsection \<open>What is on the way\<close>

text \<open>\<open>hands f ws\<close>: what the workers \<open>ws\<close> hold, by \<open>f\<close>, in any order.\<close>

definition hands :: "(worker \<Rightarrow> bytes list) \<Rightarrow> worker list \<Rightarrow> bytes multiset" where
  "hands f ws = mset (concat (map f ws))"

lemma hands_append [simp]: "hands f (ws @ us) = hands f ws + hands f us"
  by (simp add: hands_def)

lemma hands_none [simp]: "f w = [] \<Longrightarrow> hands f (replicate n w) = {#}"
  by (induction n) (simp_all add: hands_def)

lemma hands_update:
  "i < length ws \<Longrightarrow> hands f (ws[i := w]) + mset (f (ws ! i)) = hands f ws + mset (f w)"
proof (induction ws arbitrary: i)
  case (Cons x ws)
  then show ?case by (cases i) (auto simp: hands_def ac_simps)
qed simp

fun is_blocked :: "sender \<Rightarrow> bool" where
  "is_blocked (Blocked m) \<longleftrightarrow> True"
| "is_blocked _ \<longleftrightarrow> False"

abbreviation blocks :: "worker \<Rightarrow> bytes list" where
  "blocks w \<equiv> (if is_blocked (wk_sender w) then [[]] else [])"

abbreviation handling :: "worker \<Rightarrow> bytes list" where
  "handling w \<equiv> handled_by (wk_sender w)"

abbreviation holding :: "worker \<Rightarrow> bytes list" where
  "holding w \<equiv> held (wk_reader w)"

text \<open>\<open>pipe_ok\<close>: one worker for each reader, one blocked sender for each that is counted; everything read
  is printed, being handled, on the channel, or held; and with at most one worker in this order.\<close>

definition pipe_ok :: "agent \<Rightarrow> pane_ref \<Rightarrow> worker list \<Rightarrow> bytes list \<Rightarrow> bytes list \<Rightarrow> bool" where
  "pipe_ok a r ws ch rd \<longleftrightarrow>
     length ws = readers a r \<and> size (hands blocks ws) = blocked a r \<and> length ch \<le> OutBufSize \<and>
     mset rd = mset (chunks r (sent a)) + hands handling ws + mset ch + hands holding ws \<and>
     (length ws \<le> 1 \<longrightarrow> rd = chunks r (sent a) @ concat (map handling ws) @ ch @ concat (map holding ws)) \<and>
     (\<forall>b \<in> set rd. b \<noteq> [] \<and> length b \<le> OutBufSize)"

definition pipe_inv :: "piped \<Rightarrow> bool" where
  "pipe_inv s \<longleftrightarrow> panes_below (pp_agent s) \<and>
     (\<forall>r. pipe_ok (pp_agent s) r (pp_work s r) (pp_chan s r) (pp_read s r))"

text \<open>One worker does something: what it takes is what it gives.\<close>

lemma pipe_ok_worker:
  assumes ok: "pipe_ok a r ws ch rd" and i: "i < length ws" "ws ! i = w"
    and agent: "readers b r = readers a r"
      "blocked b r + length (blocks w) = blocked a r + length (blocks w')"
    and ch': "length ch' \<le> OutBufSize"
    and balance: "mset rd' + mset (chunks r (sent a)) + mset (handling w) + mset ch + mset (holding w) =
      mset rd + mset (chunks r (sent b)) + mset (handling w') + mset ch' + mset (holding w')"
    and order: "rd = chunks r (sent a) @ handling w @ ch @ holding w \<Longrightarrow>
      rd' = chunks r (sent b) @ handling w' @ ch' @ holding w'"
    and sizes: "\<forall>b \<in> set rd'. b \<in> set rd \<or> b \<noteq> [] \<and> length b \<le> OutBufSize"
  shows "pipe_ok b r (ws[i := w']) ch' rd'"
proof -
  have upd: "hands f (ws[i := w']) + mset (f w) = hands f ws + mset (f w')" for f
    using hands_update [OF i(1), of f w'] i(2) by simp
  have "size (hands blocks (ws[i := w'])) + length (blocks w) = size (hands blocks ws) + length (blocks w')"
    using arg_cong [OF upd [of blocks], of size] by simp
  then have bl: "size (hands blocks (ws[i := w'])) = blocked b r"
    using ok agent(2) by (simp add: pipe_ok_def)
  have "count (mset rd') x = count (mset (chunks r (sent b)) + hands handling (ws[i := w']) + mset ch' +
      hands holding (ws[i := w'])) x" for x
    using arg_cong [OF upd [of handling], of "\<lambda>m. count m x"] arg_cong [OF upd [of holding], of "\<lambda>m. count m x"]
      arg_cong [OF balance, of "\<lambda>m. count m x"] ok by (simp add: pipe_ok_def)
  then have ms: "mset rd' = mset (chunks r (sent b)) + hands handling (ws[i := w']) + mset ch' +
      hands holding (ws[i := w'])"
    by (rule multiset_eqI)
  have one: "rd' = chunks r (sent b) @ concat (map handling (ws[i := w'])) @ ch' @
      concat (map holding (ws[i := w']))" if "length ws \<le> 1"
  proof -
    have "ws = [w]" "i = 0" using that i by (cases ws; simp)+
    with order ok show ?thesis by (simp add: pipe_ok_def)
  qed
  have "\<forall>b \<in> set rd'. b \<noteq> [] \<and> length b \<le> OutBufSize" using sizes ok by (auto simp: pipe_ok_def)
  with bl ms one ch' show ?thesis using ok agent(1) by (simp add: pipe_ok_def)
qed

lemma pipe_ok_same:
  assumes "pipe_ok a r ws ch rd" and "readers b r = readers a r" and "blocked b r = blocked a r"
    and "chunks r (sent b) = chunks r (sent a)"
  shows "pipe_ok b r ws ch rd"
  using assms by (simp add: pipe_ok_def)

lemma pipe_ok_start:
  assumes "pipe_ok a r ws ch rd" and "hushed a b" and "panes_below a"
  shows "pipe_ok b r (ws @ replicate (readers b r - readers a r) new_worker) ch rd"
proof -
  note q = hushedD [OF assms(2,3)]
  have [simp]: "handling new_worker = []" "holding new_worker = []" "blocks new_worker = []"
    by (simp_all add: new_worker_def)
  have [simp]: "concat (map f (replicate n new_worker)) = []" if "f new_worker = []" for f :: "worker \<Rightarrow> bytes list" and n
    using that by (induction n) simp_all
  have "readers a r \<le> Suc 0" if "readers b r \<le> Suc 0" using q(4) [of r] that by (rule order.trans)
  with assms(1) q show ?thesis by (simp add: pipe_ok_def)
qed

lemma pipe_inv_worker:
  assumes inv: "pipe_inv s" and "has_worker s r i w"
    and "pp_work t = (pp_work s)(r := (pp_work s r)[i := w'])"
    and "panes_below (pp_agent t)"
    and others: "\<And>q. q \<noteq> r \<Longrightarrow> pp_chan t q = pp_chan s q \<and> pp_read t q = pp_read s q \<and>
      readers (pp_agent t) q = readers (pp_agent s) q \<and> blocked (pp_agent t) q = blocked (pp_agent s) q \<and>
      chunks q (sent (pp_agent t)) = chunks q (sent (pp_agent s))"
    and this_one: "pipe_ok (pp_agent s) r (pp_work s r) (pp_chan s r) (pp_read s r) \<Longrightarrow>
      i < length (pp_work s r) \<Longrightarrow> pp_work s r ! i = w \<Longrightarrow>
      pipe_ok (pp_agent t) r ((pp_work s r)[i := w']) (pp_chan t r) (pp_read t r)"
  shows "pipe_inv t"
  unfolding pipe_inv_def
proof (intro conjI allI)
  fix q
  have ok: "pipe_ok (pp_agent s) q (pp_work s q) (pp_chan s q) (pp_read s q)" using inv by (simp add: pipe_inv_def)
  show "pipe_ok (pp_agent t) q (pp_work t q) (pp_chan t q) (pp_read t q)"
  proof (cases "q = r")
    case True
    with ok assms(2,3) this_one show ?thesis by (simp add: has_worker_def)
  next
    case False
    with ok others [OF False] assms(3) show ?thesis by (auto intro: pipe_ok_same)
  qed
qed (use assms(4) in simp)

lemma piped_step_inv:
  assumes "piped_step s t" and inv: "pipe_inv s"
  shows "pipe_inv t"
  using assms(1)
proof (cases rule: piped_step.cases)
  case (outer b)
  have pb: "panes_below (pp_agent s)" using inv by (simp add: pipe_inv_def)
  note q = outer_step_hushed [OF outer(2)]
  from inv pipe_ok_start [OF _ q pb] hushedD(1) [OF q pb] show ?thesis
    by (simp add: outer(1) pipe_inv_def start_workers_def)
next
  case (read r i w n pn cancelled b rerr)
  show ?thesis
  proof (rule pipe_inv_worker [OF inv read(2)])
    show "pp_work t = (pp_work s)(r := (pp_work s r)[i := w\<lparr>wk_reader := read_turn cancelled b rerr n\<rparr>])"
      by (simp add: read(1) reads_def set_worker_def)
    assume ok: "pipe_ok (pp_agent s) r (pp_work s r) (pp_chan s r) (pp_read s r)" "i < length (pp_work s r)"
      "pp_work s r ! i = w"
    then show "pipe_ok (pp_agent t) r ((pp_work s r)[i := w\<lparr>wk_reader := read_turn cancelled b rerr n\<rparr>])
        (pp_chan t r) (pp_read t r)"
      by (rule pipe_ok_worker)
        (use read ok(1) in \<open>auto simp: reads_def set_worker_def read_turn_def pipe_ok_def\<close>)
  qed (use inv in \<open>simp_all add: read(1) reads_def set_worker_def pipe_inv_def\<close>)
next
  case (put r i w b)
  show ?thesis
  proof (rule pipe_inv_worker [OF inv put(2)])
    show "pp_work t = (pp_work s)(r := (pp_work s r)[i := w\<lparr>wk_reader := Reads 0\<rparr>])"
      by (simp add: put(1) puts_def set_worker_def)
    assume "pipe_ok (pp_agent s) r (pp_work s r) (pp_chan s r) (pp_read s r)" "i < length (pp_work s r)"
      "pp_work s r ! i = w"
    then show "pipe_ok (pp_agent t) r ((pp_work s r)[i := w\<lparr>wk_reader := Reads 0\<rparr>]) (pp_chan t r) (pp_read t r)"
      by (rule pipe_ok_worker) (use put in \<open>simp_all add: puts_def set_worker_def\<close>)
  qed (use inv in \<open>simp_all add: put(1) puts_def set_worker_def pipe_inv_def\<close>)
next
  case (take r i w m rest)
  show ?thesis
  proof (rule pipe_inv_worker [OF inv take(2)])
    show "pp_work t = (pp_work s)(r := (pp_work s r)[i := w\<lparr>wk_sender := Handling m\<rparr>])"
      by (simp add: take(1) takes_def set_worker_def)
    assume ok: "pipe_ok (pp_agent s) r (pp_work s r) (pp_chan s r) (pp_read s r)" "i < length (pp_work s r)"
      "pp_work s r ! i = w"
    then show "pipe_ok (pp_agent t) r ((pp_work s r)[i := w\<lparr>wk_sender := Handling m\<rparr>]) (pp_chan t r) (pp_read t r)"
      by (rule pipe_ok_worker)
        (use take ok(1) in \<open>simp_all add: takes_def set_worker_def pipe_ok_def\<close>)
  qed (use inv in \<open>simp_all add: take(1) takes_def set_worker_def pipe_inv_def\<close>)
next
  case (handle r i w m pn E b)
  have pb: "panes_below (pp_agent s)" using inv by (simp add: pipe_inv_def)
  note p = sender_turn_prints [OF handle(5,4) pb]
  let ?w = "w\<lparr>wk_sender := if p_stuck pn then Blocked m else Takes\<rparr>"
  show ?thesis
  proof (rule pipe_inv_worker [OF inv handle(2)])
    show "pp_work t = (pp_work s)(r := (pp_work s r)[i := ?w])"
      by (simp add: handle(1) handles_def set_worker_def)
    assume ok: "pipe_ok (pp_agent s) r (pp_work s r) (pp_chan s r) (pp_read s r)" "i < length (pp_work s r)"
      "pp_work s r ! i = w"
    then show "pipe_ok (pp_agent t) r ((pp_work s r)[i := ?w]) (pp_chan t r) (pp_read t r)"
      by (rule pipe_ok_worker)
        (use handle(3) p ok(1) in \<open>simp_all add: handle(1) handles_def set_worker_def pipe_ok_def\<close>)
  qed (use p in \<open>simp_all add: handle(1) handles_def set_worker_def\<close>)
next
  case (return r i w)
  show ?thesis
  proof (rule pipe_inv_worker [OF inv return(2)])
    show "pp_work t = (pp_work s)(r := (pp_work s r)[i := w\<lparr>wk_sender := Returned\<rparr>])"
      by (simp add: return(1) set_worker_def)
    assume ok: "pipe_ok (pp_agent s) r (pp_work s r) (pp_chan s r) (pp_read s r)" "i < length (pp_work s r)"
      "pp_work s r ! i = w"
    then show "pipe_ok (pp_agent t) r ((pp_work s r)[i := w\<lparr>wk_sender := Returned\<rparr>]) (pp_chan t r) (pp_read t r)"
      by (rule pipe_ok_worker) (use return ok(1) in \<open>simp_all add: set_worker_def pipe_ok_def\<close>)
  qed (use inv in \<open>simp_all add: return(1) set_worker_def pipe_inv_def\<close>)
next
  case (wind_up r i w E b)
  have pb: "panes_below (pp_agent s)" using inv by (simp add: pipe_inv_def)
  note q = hushedD [OF quiet_hushed [OF reader_end_quiet [OF wind_up(4) quiet_refl]] pb]
  note rd = reader_end_readers [OF wind_up(4)]
  let ?w = "w\<lparr>wk_reader := Gone, wk_cancelled := True\<rparr>"
  show ?thesis
  proof (rule pipe_inv_worker [OF inv wind_up(2)])
    show "pp_work t = (pp_work s)(r := (pp_work s r)[i := ?w])"
      by (simp add: wind_up(1) set_worker_def)
    assume ok: "pipe_ok (pp_agent s) r (pp_work s r) (pp_chan s r) (pp_read s r)" "i < length (pp_work s r)"
      "pp_work s r ! i = w"
    then show "pipe_ok (pp_agent t) r ((pp_work s r)[i := ?w]) (pp_chan t r) (pp_read t r)"
      by (rule pipe_ok_worker)
        (use wind_up(3) q rd ok(1) in \<open>simp_all add: wind_up(1) set_worker_def pipe_ok_def\<close>)
  qed (use q rd in \<open>simp_all add: wind_up(1) set_worker_def\<close>)
qed

lemma new_pipe_inv: "pipe_inv new_pipe"
  by (simp add: pipe_inv_def new_pipe_def pipe_ok_def panes_below_def initial_agent_def readers_def
      blocked_def hands_def)

subsection \<open>The agent sees its own steps\<close>

lemma size_hands_blocks: "size (hands blocks ws) = length (filter (is_blocked \<circ> wk_sender) ws)"
  by (induction ws) (simp_all add: hands_def)

text \<open>Looked at from the agent, an action of a worker is a step of the agent or nothing.\<close>

lemma piped_step_agent:
  assumes "piped_step s t" and "pipe_inv s"
  shows "pp_agent t = pp_agent s \<or> agent_step (pp_agent s) (pp_agent t)"
  using assms(1)
proof (cases rule: piped_step.cases)
  case (outer b)
  then show ?thesis by (simp add: start_workers_def agent_step.outer)
next
  case (handle r i w m pn E b)
  have ok: "pipe_ok (pp_agent s) r (pp_work s r) (pp_chan s r) (pp_read s r)"
    using assms(2) by (simp add: pipe_inv_def)
  have "w \<in> set (pp_work s r)" "\<not> (is_blocked \<circ> wk_sender) w"
    using handle(2,3) by (auto simp: has_worker_def)
  then have "length (filter (is_blocked \<circ> wk_sender) (pp_work s r)) < length (pp_work s r)"
    by (rule length_filter_less)
  with ok handle(4) have "p_blocked pn < p_readers pn"
    by (simp add: pipe_ok_def size_hands_blocks blocked_def readers_def)
  with handle(4,5) have "agent_step (pp_agent s) b" by (intro agent_step.chunk_sent)
  then show ?thesis by (simp add: handle(1) handles_def)
next
  case (wind_up r i w E b)
  have ok: "pipe_ok (pp_agent s) r (pp_work s r) (pp_chan s r) (pp_read s r)"
    using assms(2) by (simp add: pipe_inv_def)
  obtain pn where "pane_at (pp_agent s) r = Some pn" using wind_up(4)
    by (auto simp: reader_end_def split: bind_splits)
  moreover from this ok wind_up(2) have "0 < p_readers pn"
    by (simp add: pipe_ok_def readers_def has_worker_def)
  ultimately have "agent_step (pp_agent s) b" using wind_up(4) by (rule agent_step.end_of_output)
  then show ?thesis by (simp add: wind_up(1))
qed (simp_all add: reads_def puts_def takes_def set_worker_def)

lemma piped_reachable_inv: "piped_reachable s \<Longrightarrow> pipe_inv s \<and> agent_reachable (pp_agent s)"
proof (induction rule: piped_reachable.induct)
  case boot
  show ?case using new_pipe_inv agent_reachable.boot by (simp add: new_pipe_def)
next
  case (step s t)
  then have inv: "pipe_inv s" "agent_reachable (pp_agent s)" by simp_all
  have "agent_reachable (pp_agent t)"
    using piped_step_agent [OF step(2) inv(1)] inv(2) by (auto intro: agent_reachable.step)
  with piped_step_inv [OF step(2) inv(1)] show ?case by simp
qed

lemma piped_pipe_ok:
  "piped_reachable s \<Longrightarrow> pipe_ok (pp_agent s) r (pp_work s r) (pp_chan s r) (pp_read s r)"
  using piped_reachable_inv by (auto simp: pipe_inv_def)

text \<open>Before anything is read, the agent may do anything that comes from outside.\<close>

lemma piped_start:
  assumes "outer_step\<^sup>*\<^sup>* initial_agent a"
  shows "piped_reachable \<lparr>pp_agent = a, pp_work = (\<lambda>r. replicate (readers a r) new_worker),
    pp_chan = (\<lambda>r. []), pp_read = (\<lambda>r. [])\<rparr>"
  using assms
proof (induction rule: rtranclp_induct)
  case base
  have "new_pipe = \<lparr>pp_agent = initial_agent, pp_work = (\<lambda>r. replicate (readers initial_agent r) new_worker),
      pp_chan = (\<lambda>r. []), pp_read = (\<lambda>r. [])\<rparr>"
    by (simp add: new_pipe_def readers_def initial_agent_def)
  then show ?case using piped_reachable.boot by simp
next
  case (step a b)
  let ?s = "\<lparr>pp_agent = a, pp_work = (\<lambda>r. replicate (readers a r) new_worker),
      pp_chan = (\<lambda>r. []), pp_read = (\<lambda>r. [])\<rparr> :: piped"
  have "panes_below a" using piped_reachable_inv [OF step.IH] by (simp add: pipe_inv_def)
  with outer_step_hushed [OF step(2)] have le: "readers a r \<le> readers b r" for r by (rule hushedD(4))
  have "piped_step ?s (start_workers b ?s)" using step(2) by (intro piped_step.outer) simp
  moreover have "start_workers b ?s = \<lparr>pp_agent = b, pp_work = (\<lambda>r. replicate (readers b r) new_worker),
      pp_chan = (\<lambda>r. []), pp_read = (\<lambda>r. [])\<rparr>"
    using le by (simp add: start_workers_def replicate_add [symmetric])
  ultimately show ?case using piped_reachable.step [OF step.IH] by simp
qed

end
