(* ===== verification/Output_Properties.thy ===== *)
theory Output_Properties
  imports Output_Pipe Run_Properties
begin

section \<open>From the terminal to the history\<close>

text \<open>
  What becomes of the bytes a terminal gives: with one read loop they are in the history in their
  order, all but those on the way; with the two loops \<open>GetOrCreatePane\<close> starts they may change
  places; and what is on the channel when the senders have returned is never printed.
\<close>

text \<open>C3. Output in order, from the terminal to the ring: a pane with one read loop has in its history
  a prefix of the chunks that were read, in the order of the reads, and at most 4098 chunks are on
  the way: a full channel, one held by the loop, one in the hands of the sender.\<close>

theorem output_in_order:
  assumes "piped_reachable s" and "pane_at (pp_agent s) r = Some pn" and "p_readers pn \<le> 1"
  shows "\<exists>way ps. pp_read s r = chunks r (sent (pp_agent s)) @ way \<and> length way \<le> 4098 \<and>
    buf_rel 100000 (p_Buffer pn) (blank 100000 @ concat (chunks r (sent (pp_agent s)))) ps"
proof -
  have ok: "pipe_ok (pp_agent s) r (pp_work s r) (pp_chan s r) (pp_read s r)"
    using assms(1) by (rule piped_pipe_ok)
  have one: "length (pp_work s r) \<le> 1" using ok assms(2,3) by (simp add: pipe_ok_def readers_def)
  let ?way = "concat (map handling (pp_work s r)) @ pp_chan s r @ concat (map holding (pp_work s r))"
  have few: "length (concat (map f (pp_work s r))) \<le> 1" if "\<And>w. length (f w) \<le> 1" for f :: "worker \<Rightarrow> bytes list"
    using one that by (cases "pp_work s r") auto
  have "length (concat (map handling (pp_work s r))) \<le> 1"
    by (rule few, case_tac "wk_sender w"; simp)
  moreover have "length (concat (map holding (pp_work s r))) \<le> 1"
    by (rule few, case_tac "wk_reader w"; simp)
  ultimately have "length ?way \<le> 4098" using ok by (simp add: pipe_ok_def OutBufSize_def)
  moreover have "pp_read s r = chunks r (sent (pp_agent s)) @ ?way"
    using ok one by (simp add: pipe_ok_def)
  moreover obtain ps where "buf_rel 100000 (p_Buffer pn) (blank 100000 @ printed r (sent (pp_agent s))) ps"
    using history_ok_rel piped_reachable_inv reachable_inv assms(1,2) by blast
  ultimately show ?thesis unfolding printed_chunks by blast
qed

text \<open>C10. Nothing is lost and nothing made up on the way: whatever the number of loops, the chunks
  read of a pane are those printed, those in the hands of its senders, those on its channel and
  those its loops hold. The channel has at most 4096 chunks, each of 1 to 4096 bytes.\<close>

theorem output_conserved:
  assumes "piped_reachable s"
  shows "mset (pp_read s r) = mset (chunks r (sent (pp_agent s))) + hands handling (pp_work s r) +
      mset (pp_chan s r) + hands holding (pp_work s r) \<and>
    length (pp_chan s r) \<le> 4096 \<and> (\<forall>b \<in> set (pp_chan s r). 1 \<le> length b \<and> length b \<le> 4096)"
proof -
  have ok: "pipe_ok (pp_agent s) r (pp_work s r) (pp_chan s r) (pp_read s r)"
    using assms by (rule piped_pipe_ok)
  then have "mset (pp_chan s r) \<subseteq># mset (pp_read s r)"
    by (simp add: pipe_ok_def ac_simps)
  then have "set (pp_chan s r) \<subseteq> set (pp_read s r)" using set_mset_mono by fastforce
  with ok show ?thesis by (auto simp: pipe_ok_def OutBufSize_def Suc_le_eq)
qed

subsection \<open>A run of two loops\<close>

text \<open>The demo pane has the two read loops of \<open>GetOrCreatePane\<close>.\<close>

definition demo_pipe :: "agent \<Rightarrow> worker list \<Rightarrow> bytes list \<Rightarrow> bytes list \<Rightarrow> piped" where
  "demo_pipe a ws ch rd =
     \<lparr>pp_agent = a, pp_work = (\<lambda>r. if r = 0 then ws else []),
      pp_chan = (\<lambda>r. if r = 0 then ch else []), pp_read = (\<lambda>r. if r = 0 then rd else [])\<rparr>"

lemmas demo_pipe_simps = demo_pipe_def reads_def puts_def takes_def handles_def set_worker_def has_worker_def

lemma demo_pipe_step:
  assumes "piped_reachable (demo_pipe a ws ch rd)" and "piped_step (demo_pipe a ws ch rd) t"
    and "t = demo_pipe b ws' ch' rd'"
  shows "piped_reachable (demo_pipe b ws' ch' rd')"
  using piped_reachable.step [OF assms(1,2)] assms(3) by simp

lemma demo_pipe_starts: "piped_reachable (demo_pipe demo_running [new_worker, new_worker] [] [])"
proof -
  have "readers demo_running r = (if r = 0 then 2 else 0)" for r
    by (simp add: readers_def demo_running_def demo_pane_def)
  then have "(\<lambda>r. replicate (readers demo_running r) new_worker) = (\<lambda>r. if r = 0 then [new_worker, new_worker] else [])"
    by (simp add: fun_eq_iff numeral_2_eq_2)
  with piped_start [OF demo_running_run] show ?thesis by (simp add: demo_pipe_def)
qed

lemma demo_reads:
  assumes "piped_reachable (demo_pipe a ws ch rd)" and "i < length ws"
    and "wk_reader (ws ! i) = Reads n" and "length b \<le> 4096"
    and "pane_at a 0 = Some pn" and "p_TTY pn \<noteq> None"
  shows "piped_reachable (demo_pipe a (ws[i := (ws ! i)\<lparr>wk_reader := read_turn False b rerr n\<rparr>]) ch
    (rd @ held (read_turn False b rerr n)))"
proof (rule demo_pipe_step [OF assms(1)], rule piped_step.read)
  show "pane_at (pp_agent (demo_pipe a ws ch rd)) 0 = Some pn" using assms(5) by (simp add: demo_pipe_def)
  show "has_worker (demo_pipe a ws ch rd) 0 i (ws ! i)" using assms(2) by (simp add: demo_pipe_simps)
  show "wk_reader (ws ! i) = Reads n" by (rule assms(3))
qed (use assms(4,6) in \<open>simp_all add: demo_pipe_simps OutBufSize_def fun_eq_iff\<close>)

lemma demo_puts:
  assumes "piped_reachable (demo_pipe a ws ch rd)" and "i < length ws"
    and "wk_reader (ws ! i) = Puts b" and "length ch < 4096"
  shows "piped_reachable (demo_pipe a (ws[i := (ws ! i)\<lparr>wk_reader := Reads 0\<rparr>]) (ch @ [b]) rd)"
proof (rule demo_pipe_step [OF assms(1)], rule piped_step.put)
  show "has_worker (demo_pipe a ws ch rd) 0 i (ws ! i)" using assms(2) by (simp add: demo_pipe_simps)
  show "wk_reader (ws ! i) = Puts b" by (rule assms(3))
qed (use assms(4) in \<open>simp_all add: demo_pipe_simps OutBufSize_def fun_eq_iff\<close>)

lemma demo_takes:
  assumes "piped_reachable (demo_pipe a ws (m # ch) rd)" and "i < length ws" and "wk_sender (ws ! i) = Takes"
  shows "piped_reachable (demo_pipe a (ws[i := (ws ! i)\<lparr>wk_sender := Handling m\<rparr>]) ch rd)"
proof (rule demo_pipe_step [OF assms(1)], rule piped_step.take)
  show "has_worker (demo_pipe a ws (m # ch) rd) 0 i (ws ! i)" using assms(2) by (simp add: demo_pipe_simps)
  show "wk_sender (ws ! i) = Takes" by (rule assms(3))
  show "pp_chan (demo_pipe a ws (m # ch) rd) 0 = m # ch" by (simp add: demo_pipe_simps)
qed (simp add: demo_pipe_simps fun_eq_iff)

lemma demo_handles:
  assumes "piped_reachable (demo_pipe a ws ch rd)" and "i < length ws" and "wk_sender (ws ! i) = Handling m"
    and "pane_at a 0 = Some pn" and "\<not> p_stuck pn"
  obtains b where "piped_reachable (demo_pipe b (ws[i := (ws ! i)\<lparr>wk_sender := Takes\<rparr>]) ch rd)"
    and "chunks 0 (sent b) = chunks 0 (sent a) @ [m]"
proof -
  have a: "pp_agent (demo_pipe a ws ch rd) = a" by (simp add: demo_pipe_def)
  have inv: "agent_inv a" "panes_below a"
    using piped_reachable_inv [OF assms(1)] reachable_inv by (auto simp: a pipe_inv_def)
  then obtain b where b: "sender_turn demo_env 0 m a = Some b" using sender_turn_total assms(4) by blast
  have "piped_step (demo_pipe a ws ch rd) (handles 0 i (ws ! i) m (p_stuck pn) b (demo_pipe a ws ch rd))"
    by (rule piped_step.handle) (use assms b in \<open>simp_all add: demo_pipe_simps\<close>)
  with assms(1) have "piped_reachable (demo_pipe b (ws[i := (ws ! i)\<lparr>wk_sender := Takes\<rparr>]) ch rd)"
    by (rule demo_pipe_step) (simp add: demo_pipe_simps fun_eq_iff assms(5))
  then show thesis using sender_turn_prints(3) [OF b assms(4) inv(2), of 0] assms(5) that by simp
qed

subsection \<open>Two loops\<close>

text \<open>A pane that its channel's label starts: \<open>Run\<close> starts a loop, and \<open>GetOrCreatePane\<close> another.\<close>

lemma execute_started:
  assumes "execute E p d ws cmd a = Some (b, res)" and "pane_at b (next_pane a) = Some pn" and "p_IsRunning pn"
  shows "res = Inr (Some (next_pane a)) \<and> p_readers pn = 2 \<and> p_TTY pn \<noteq> None \<and> \<not> p_stuck pn"
proof -
  from assms(1) obtain a1 nres where new: "newPane p ws 0 a = Some (a1, nres)"
    by (auto simp: execute_def split: bind_splits)
  obtain buf i where a1: "nres = Some (next_pane a)" "pane_at a1 (next_pane a) = Some (fresh_pane p ws 0 buf i)"
    using new by (auto simp: newPane_def parent_pid_def Let_def split: bind_splits prod.splits)
  obtain a2 where a2: "sendFirstMessage E (next_pane a) d a1 = Some a2"
    using assms(1) new a1(1) by (auto simp: execute_def split: bind_splits)
  then have at: "pane_at a2 = pane_at a1" by (auto simp: sendFirstMessage_def split: bind_splits)
  obtain a3 ok where a3: "pane_run E (next_pane a) cmd a2 = Some (a3, ok)"
    using assms(1) new a1(1) a2 by (auto simp: execute_def split: bind_splits)
  show ?thesis
  proof (cases ok)
    case True
    with a3 at a1(2) obtain cmd' t where "pane_at a3 (next_pane a) = Some ((fresh_pane p ws 0 buf i)\<lparr>p_C := cmd',
        p_IsRunning := True, p_TTY := Some t, p_readers := 1\<rparr>)"
      by (auto simp: pane_run_def fresh_pane_def split: bind_splits option.splits)
    moreover have "start_reader (next_pane a) a3 = Some b" "res = Inr (Some (next_pane a))"
      using assms(1) new a1(1) a2 a3 True by (auto simp: execute_def split: bind_splits)
    ultimately show ?thesis using assms(2) by (auto simp: start_reader_def fresh_pane_def)
  next
    case False
    have "a3 = a2" using a3 False by (auto simp: pane_run_def split: bind_splits option.splits)
    moreover have "b = a3" using assms(1) new a1(1) a2 a3 False by (auto simp: execute_def split: bind_splits)
    ultimately show ?thesis using assms(2,3) at a1(2) by (auto simp: fresh_pane_def)
  qed
qed

lemma labelled_started:
  assumes "on_open a d = Some (OpenLabelled p)" and "parse_label (e_label E d) = Some (Execute ws cmd)"
    and "channel_opens E d a = Some b" and "pane_at b (next_pane a) = Some pn" and "p_IsRunning pn"
  shows "p_readers pn = 2 \<and> p_TTY pn \<noteq> None \<and> \<not> p_stuck pn"
proof -
  let ?a = "a\<lparr>on_open := (on_open a)(d := None)\<rparr>"
  from assms(1-3) obtain a1 res where ex: "execute E p d ws cmd ?a = Some (a1, res)" and
    b: "b = (case res of Inl e \<Rightarrow> if e_send_ok E d then emit (SentError d e) a1 else a1
           | Inr None \<Rightarrow> a1 | Inr (Some r) \<Rightarrow> attach d p r a1)"
    by (auto simp: channel_opens_def opened_labelled_def getOrCreatePane_def bind_Some_iff)
  have "pane_at b = pane_at a1"
    by (auto simp: b attach_def add_client_def split: sum.split option.split prod.split)
  with execute_started [OF ex, of pn] assms(4,5) show ?thesis by simp
qed

text \<open>Before a pane is there, nothing was read for it.\<close>

lemma unborn_unread:
  assumes "piped_reachable s" and "pane_at (pp_agent s) r = None"
  shows "pp_read s r = [] \<and> pp_chan s r = [] \<and> pp_work s r = [] \<and> chunks r (sent (pp_agent s)) = []"
proof -
  have "pane_at (pp_agent s) r = None \<longrightarrow> pp_read s r = []"
    using assms(1)
  proof (induction rule: piped_reachable.induct)
    case (step s t)
    have grows: "pane_at (pp_agent t) r = None \<Longrightarrow> pane_at (pp_agent s) r = None"
    proof -
      have "pp_agent t = pp_agent s \<or> agent_step (pp_agent s) (pp_agent t)"
        using piped_step_agent [OF step(2)] piped_reachable_inv [OF step(1)] by blast
      moreover have "agent_inv (pp_agent s)" using piped_reachable_inv [OF step(1)] reachable_inv by blast
      ultimately have "has_pane (pp_agent s) r \<Longrightarrow> has_pane (pp_agent t) r"
        by (metis agent_step_inv has_pane_grows)
      then show "pane_at (pp_agent t) r = None \<Longrightarrow> pane_at (pp_agent s) r = None"
        by (cases "pane_at (pp_agent s) r") (auto simp: has_pane_def)
    qed
    from step(2) show ?case
    proof (cases rule: piped_step.cases)
      case (read q i w n pn cancelled b rerr)
      then show ?thesis using step.IH grows by (auto simp: reads_def set_worker_def)
    qed (use step.IH grows in \<open>auto simp: start_workers_def puts_def takes_def handles_def set_worker_def\<close>)
  qed (simp add: new_pipe_def)
  then have none: "pp_read s r = []" using assms(2) by blast
  have ok: "pipe_ok (pp_agent s) r (pp_work s r) (pp_chan s r) (pp_read s r)"
    using assms(1) by (rule piped_pipe_ok)
  then have "pp_work s r = []" using assms(2) by (simp add: pipe_ok_def readers_def)
  with ok none show ?thesis by (simp add: pipe_ok_def)
qed

text \<open>\<open>at_pane\<close>: the workers, channel and reads of one pane; one action of one of its workers.\<close>

definition at_pane :: "piped \<Rightarrow> pane_ref \<Rightarrow> worker list \<Rightarrow> bytes list \<Rightarrow> bytes list \<Rightarrow> bytes list \<Rightarrow> bool" where
  "at_pane s r ws ch rd pr \<longleftrightarrow> piped_reachable s \<and> pp_work s r = ws \<and> pp_chan s r = ch \<and> pp_read s r = rd \<and>
     chunks r (sent (pp_agent s)) = pr \<and> (\<exists>pn. pane_at (pp_agent s) r = Some pn \<and> p_TTY pn \<noteq> None \<and> \<not> p_stuck pn)"

lemma at_pane_reads:
  assumes "at_pane s r ws ch rd pr" and "i < length ws" and "wk_reader (ws ! i) = Reads n"
    and "b \<noteq> []" and "length b \<le> 4096"
  shows "\<exists>t. piped_step s t \<and> at_pane t r (ws[i := (ws ! i)\<lparr>wk_reader := Puts b\<rparr>]) ch (rd @ [b]) pr"
proof -
  obtain pn where pn: "pane_at (pp_agent s) r = Some pn" "p_TTY pn \<noteq> None"
    using assms(1) by (auto simp: at_pane_def)
  have "piped_step s (reads r i (ws ! i) (read_turn False b None n) s)"
    using assms by (intro piped_step.read [OF _ assms(3) pn]) (simp_all add: at_pane_def has_worker_def OutBufSize_def)
  moreover have "read_turn False b None n = Puts b" using assms(4) by (simp add: read_turn_def)
  ultimately show ?thesis
    using assms(1) piped_reachable.step
    by (intro exI [of _ "reads r i (ws ! i) (Puts b) s"]) (auto simp: at_pane_def reads_def set_worker_def)
qed

lemma at_pane_puts:
  assumes "at_pane s r ws ch rd pr" and "i < length ws" and "wk_reader (ws ! i) = Puts b" and "length ch < 4096"
  shows "\<exists>t. piped_step s t \<and> at_pane t r (ws[i := (ws ! i)\<lparr>wk_reader := Reads 0\<rparr>]) (ch @ [b]) rd pr"
proof -
  have "piped_step s (puts r i (ws ! i) b s)"
    using assms by (intro piped_step.put) (simp_all add: at_pane_def has_worker_def OutBufSize_def)
  then show ?thesis
    using assms(1) piped_reachable.step
    by (intro exI [of _ "puts r i (ws ! i) b s"]) (auto simp: at_pane_def puts_def set_worker_def)
qed

lemma at_pane_takes:
  assumes "at_pane s r ws (m # ch) rd pr" and "i < length ws" and "wk_sender (ws ! i) = Takes"
  shows "\<exists>t. piped_step s t \<and> at_pane t r (ws[i := (ws ! i)\<lparr>wk_sender := Handling m\<rparr>]) ch rd pr"
proof -
  have "piped_step s (takes r i (ws ! i) m ch s)"
    using assms by (intro piped_step.take) (simp_all add: at_pane_def has_worker_def)
  then show ?thesis
    using assms(1) piped_reachable.step
    by (intro exI [of _ "takes r i (ws ! i) m ch s"]) (auto simp: at_pane_def takes_def set_worker_def)
qed

lemma at_pane_handles:
  fixes E :: env
  assumes "at_pane s r ws ch rd pr" and "i < length ws" and "wk_sender (ws ! i) = Handling m"
  shows "\<exists>t. piped_step s t \<and> at_pane t r (ws[i := (ws ! i)\<lparr>wk_sender := Takes\<rparr>]) ch rd (pr @ [m])"
proof -
  obtain pn where pn: "pane_at (pp_agent s) r = Some pn" "p_TTY pn \<noteq> None" "\<not> p_stuck pn"
    using assms(1) by (auto simp: at_pane_def)
  have reach: "piped_reachable s" using assms(1) by (simp add: at_pane_def)
  have inv: "agent_inv (pp_agent s)" "panes_below (pp_agent s)"
    using piped_reachable_inv [OF reach] reachable_inv by (auto simp: pipe_inv_def)
  obtain b where b: "sender_turn E r m (pp_agent s) = Some b" using sender_turn_total [OF inv(1) pn(1)] by blast
  then have "\<exists>qn. pane_at b r = Some qn \<and> p_TTY qn \<noteq> None \<and> \<not> p_stuck qn"
    using pn by (auto simp: sender_turn_def Let_def split: bind_splits)
  moreover have st: "piped_step s (handles r i (ws ! i) m (p_stuck pn) b s)"
    using assms by (intro piped_step.handle [OF _ assms(3) pn(1) b]) (simp add: at_pane_def has_worker_def)
  moreover have "chunks r (sent b) = pr @ [m]"
    using sender_turn_prints(3) [OF b pn(1) inv(2), of r] pn(3) assms(1) by (simp add: at_pane_def)
  ultimately show ?thesis
    using assms(1) piped_reachable.step [OF reach st] pn(3)
    by (intro exI [of _ "handles r i (ws ! i) m (p_stuck pn) b s"] conjI [OF st])
      (auto simp: at_pane_def handles_def set_worker_def)
qed

text \<open>What two loops can do: the second to read is the first to put its chunk on the channel.\<close>

lemma two_workers_swap:
  assumes "at_pane s r [new_worker, new_worker] [] [] []"
    and "x \<noteq> []" "length x \<le> 4096" and "y \<noteq> []" "length y \<le> 4096"
  shows "\<exists>t. piped_step\<^sup>*\<^sup>* s t \<and> pp_read t r = [x, y] \<and> chunks r (sent (pp_agent t)) = [y, x]"
proof -
  let ?w = "\<lambda>rd sn. new_worker\<lparr>wk_reader := rd, wk_sender := sn\<rparr>"
  obtain s1 where s1: "piped_step s s1" "at_pane s1 r [?w (Puts x) Takes, new_worker] [] [x] []"
    using at_pane_reads [OF assms(1), of 0 0 x] assms(2,3) by (auto simp: new_worker_def)
  obtain s2 where s2: "piped_step s1 s2" "at_pane s2 r [?w (Puts x) Takes, ?w (Puts y) Takes] [] [x, y] []"
    using at_pane_reads [OF s1(2), of 1 0 y] assms(4,5) by (auto simp: new_worker_def)
  obtain s3 where s3: "piped_step s2 s3" "at_pane s3 r [?w (Puts x) Takes, new_worker] [y] [x, y] []"
    using at_pane_puts [OF s2(2), of 1 y] by (auto simp: new_worker_def)
  obtain s4 where s4: "piped_step s3 s4" "at_pane s4 r [?w (Puts x) (Handling y), new_worker] [] [x, y] []"
    using at_pane_takes [OF s3(2), of 0] by (auto simp: new_worker_def)
  obtain s5 where s5: "piped_step s4 s5" "at_pane s5 r [?w (Puts x) Takes, new_worker] [] [x, y] [y]"
    using at_pane_handles [OF s4(2), of 0 y] by (auto simp: new_worker_def)
  obtain s6 where s6: "piped_step s5 s6" "at_pane s6 r [new_worker, new_worker] [x] [x, y] [y]"
    using at_pane_puts [OF s5(2), of 0 x] by (auto simp: new_worker_def)
  obtain s7 where s7: "piped_step s6 s7" "at_pane s7 r [?w (Reads 0) (Handling x), new_worker] [] [x, y] [y]"
    using at_pane_takes [OF s6(2), of 0] by (auto simp: new_worker_def)
  obtain s8 where s8: "piped_step s7 s8" "at_pane s8 r [new_worker, new_worker] [] [x, y] [y, x]"
    using at_pane_handles [OF s7(2), of 0 x] by (auto simp: new_worker_def)
  have "piped_step\<^sup>*\<^sup>* s s8"
    using s1(1) s2(1) s3(1) s4(1) s5(1) s6(1) s7(1) s8(1) by (meson rtranclp.intros)
  with s8(2) show ?thesis by (auto simp: at_pane_def)
qed

text \<open>C13. Two read loops can change the order: whenever a channel opens whose label asks for a command,
  and the command starts, the new pane has two loops, and from there two chunks, whatever they are, can
  be read one after the other and be printed in the opposite order.\<close>

theorem two_loops_reorder:
  assumes "piped_reachable s" and "room (pp_agent s)" and "on_open (pp_agent s) d = Some (OpenLabelled p)"
    and "parse_label (e_label E d) = Some (Execute ws cmd)" and "channel_opens E d (pp_agent s) = Some b"
    and "pane_at b (next_pane (pp_agent s)) = Some pn" and "p_IsRunning pn"
    and "x \<noteq> []" "length x \<le> 4096" and "y \<noteq> []" "length y \<le> 4096"
  shows "p_readers pn = 2 \<and> piped_step s (start_workers b s) \<and>
    (\<exists>t. piped_step\<^sup>*\<^sup>* (start_workers b s) t \<and> pp_read t (next_pane (pp_agent s)) = [x, y] \<and>
       chunks (next_pane (pp_agent s)) (sent (pp_agent t)) = [y, x])"
proof -
  let ?r = "next_pane (pp_agent s)" and ?s = "start_workers b s"
  note started = labelled_started [OF assms(3-7)]
  have below: "panes_below (pp_agent s)" using piped_reachable_inv [OF assms(1)] by (simp add: pipe_inv_def)
  then have unborn: "pane_at (pp_agent s) ?r = None" by (simp add: panes_below_def)
  have outer: "outer_step (pp_agent s) b" using assms(2,5) by (rule outer_step_open_channel)
  then have st: "piped_step s ?s" by (rule piped_step.outer)
  have "chunks ?r (sent b) = chunks ?r (sent (pp_agent s))"
    using hushedD(2) [OF outer_step_hushed [OF outer] below] .
  moreover have "replicate (readers b ?r - readers (pp_agent s) ?r) new_worker = [new_worker, new_worker]"
    using started assms(6) unborn by (simp add: readers_def numeral_2_eq_2)
  ultimately have "at_pane ?s ?r [new_worker, new_worker] [] [] []"
    using unborn_unread [OF assms(1) unborn] piped_reachable.step [OF assms(1) st] started assms(6)
    by (simp add: at_pane_def start_workers_def)
  from two_workers_swap [OF this assms(8-11)] started st show ?thesis by blast
qed

theorem two_loops_reorder_witness:
  "\<exists>t. piped_reachable t \<and> pp_read t 0 = [''a'', ''b''] \<and> chunks 0 (sent (pp_agent t)) = [''b'', ''a'']"
proof -
  let ?a = "onChannelReq demo_env 0 1 demo_control"
  have step: "outer_step demo_control ?a"
    by (rule outer_step_channel_request) (simp add: has_peer_def demo_control_def)
  have run: "outer_step\<^sup>*\<^sup>* initial_agent ?a" by (rule rtranclp.rtrancl_into_rtrancl [OF demo_control_run step])
  define s where "s = \<lparr>pp_agent = ?a, pp_work = (\<lambda>r. replicate (readers ?a r) new_worker),
    pp_chan = (\<lambda>r. []), pp_read = (\<lambda>r. [])\<rparr>"
  have s: "piped_reachable s" unfolding s_def by (rule piped_start [OF run])
  have a: "pp_agent s = ?a" "room ?a" "on_open ?a 1 = Some (OpenLabelled 0)" "next_pane ?a = 0"
    by (simp_all add: s_def room_def onChannelReq_def demo_control_def
        newPanesDB_def newClientsDB_def panes_left_def clients_left_def max_int_def)
  have "p_readers demo_pane = 2 \<and> piped_step s (start_workers demo_running s) \<and>
    (\<exists>t. piped_step\<^sup>*\<^sup>* (start_workers demo_running s) t \<and> pp_read t (next_pane (pp_agent s)) = [''a'', ''b''] \<and>
       chunks (next_pane (pp_agent s)) (sent (pp_agent t)) = [''b'', ''a''])"
    by (rule two_loops_reorder [OF s, of 1 0 demo_env "Some demo_size" "[''bash'']"])
      (use a demo_label demo_opens_pane in \<open>simp_all add: demo_running_def demo_pane_def\<close>)
  then obtain t where t: "piped_step s (start_workers demo_running s)" "piped_step\<^sup>*\<^sup>* (start_workers demo_running s) t"
    "pp_read t 0 = [''a'', ''b'']" "chunks 0 (sent (pp_agent t)) = [''b'', ''a'']"
    using a(1,4) by auto
  have "piped_reachable t"
    using t(2) piped_reachable.step [OF s t(1)] by (induction rule: rtranclp_induct) (auto intro: piped_reachable.step)
  with t(3,4) show ?thesis by blast
qed

subsection \<open>A run of one loop\<close>

lemma demo_opened:
  obtains b pn where "outer_step\<^sup>*\<^sup>* initial_agent b" and "pane_at b 0 = Some pn" and "p_TTY pn \<noteq> None"
    and "p_readers pn = 1" and "\<not> p_stuck pn" and "chunks 0 (sent b) = []"
    and "\<forall>r. r \<noteq> 0 \<longrightarrow> pane_at b r = None"
proof -
  have run: "pane_run demo_env 0 [''nosuch''] a =
      Some (set_pane 0 (demo_new_pane\<lparr>p_C := Some 42, p_IsRunning := True, p_TTY := Some (TtyFile 7),
        p_readers := 1\<rparr>) a, True)" if "pane_at a = pane_at demo_added" "peer_at a = peer_at demo_added" for a
    using that by (simp add: pane_run_def demo_added_def demo_control_def demo_new_pane_def fresh_pane_def
        run_command_def execCommand_def exec_dir_def)
  obtain b where b: "channel_opens demo_env 2 demo_added = Some b"
    and "\<exists>pn. pane_at b 0 = Some pn \<and> p_TTY pn \<noteq> None \<and> p_readers pn = 1 \<and> \<not> p_stuck pn"
    "chunks 0 (sent b) = []" "\<forall>r. r \<noteq> 0 \<longrightarrow> pane_at b r = None"
    by (simp add: channel_opens_def demo_added_def opened_add_pane_def run Let_def add_client_def
        clients_add_def sendAck_def sendControlMessage_def newCTRLMessage_def sendMessage_def
        demo_control_def demo_peer_def emit_def set_peer_def set_pane_def demo_new_pane_def fresh_pane_def
        newClientsDB_def)
  moreover have "outer_step demo_added b" using demo_added_room b by (rule outer_step_open_channel)
  then have "outer_step\<^sup>*\<^sup>* initial_agent b" by (rule rtranclp.rtrancl_into_rtrancl [OF demo_added_run])
  ultimately show thesis using that by blast
qed

text \<open>The pane of \<open>add_pane\<close> reads a chunk, which goes all the way.\<close>

lemma demo_single:
  obtains s0 s pn where "piped_reachable s0" and "piped_step s0 s" and "piped_reachable s"
    and "pane_at (pp_agent s) 0 = Some pn" and "p_readers pn = 1"
    and "pp_read s 0 = [''hi'']" and "chunks 0 (sent (pp_agent s0)) = []" and "chunks 0 (sent (pp_agent s)) = [''hi'']"
proof -
  obtain b pn where b: "outer_step\<^sup>*\<^sup>* initial_agent b" "pane_at b 0 = Some pn" "p_TTY pn \<noteq> None"
    "p_readers pn = 1" "\<not> p_stuck pn" "chunks 0 (sent b) = []" "\<forall>r. r \<noteq> 0 \<longrightarrow> pane_at b r = None"
    by (rule demo_opened)
  let ?w = "\<lambda>rd sn. new_worker\<lparr>wk_reader := rd, wk_sender := sn\<rparr>"
  have "(\<lambda>r. replicate (readers b r) new_worker) = (\<lambda>r. if r = 0 then [new_worker] else [])"
    using b(2,4,7) by (auto simp: readers_def fun_eq_iff split: option.split)
  with piped_start [OF b(1)] have s1: "piped_reachable (demo_pipe b [new_worker] [] [])"
    by (simp add: demo_pipe_def)
  have s2: "piped_reachable (demo_pipe b [?w (Puts ''hi'') Takes] [] [''hi''])"
    using demo_reads [OF s1 _ _ _ b(2,3), of 0 0 "''hi''" None] by (simp add: new_worker_def read_turn_def)
  have s3: "piped_reachable (demo_pipe b [new_worker] [''hi''] [''hi''])"
    using demo_puts [OF s2, of 0 "''hi''"] by (simp add: new_worker_def)
  have s4: "piped_reachable (demo_pipe b [?w (Reads 0) (Handling ''hi'')] [] [''hi''])"
    using demo_takes [OF s3, of 0] by (simp add: new_worker_def)
  let ?s4 = "demo_pipe b [?w (Reads 0) (Handling ''hi'')] [] [''hi'']"
  have inv: "agent_inv b" "panes_below b"
    using piped_reachable_inv [OF s4] reachable_inv by (auto simp: demo_pipe_def pipe_inv_def)
  obtain c where c: "sender_turn demo_env 0 ''hi'' b = Some c" using sender_turn_total [OF inv(1) b(2)] by blast
  have st: "piped_step ?s4 (handles 0 0 (?w (Reads 0) (Handling ''hi'')) ''hi'' (p_stuck pn) c ?s4)"
    by (rule piped_step.handle) (use b(2) c in \<open>simp_all add: demo_pipe_simps\<close>)
  have rc: "readers c 0 = 1" "chunks 0 (sent c) = [''hi'']"
    using sender_turn_prints(2,3) [OF c b(2) inv(2)] b(2,4,5,6) by (simp_all add: readers_def)
  then obtain pn' where "pane_at c 0 = Some pn'" "p_readers pn' = 1"
    by (auto simp: readers_def split: option.splits)
  with that [OF s4 st piped_reachable.step [OF s4 st], of pn'] rc b(6) show thesis
    by (simp add: demo_pipe_simps)
qed

theorem output_in_order_witness:
  "\<exists>s pn ps. piped_reachable s \<and> pane_at (pp_agent s) 0 = Some pn \<and> p_readers pn = 1 \<and>
     buf_rel 100000 (p_Buffer pn) (blank 100000 @ ''hi'') ps"
proof -
  obtain s pn where s: "piped_reachable s" "pane_at (pp_agent s) 0 = Some pn" "p_readers pn = 1"
    "chunks 0 (sent (pp_agent s)) = [''hi'']" by (rule demo_single)
  from output_in_order [OF s(1,2)] s(3,4) have "\<exists>ps. buf_rel 100000 (p_Buffer pn) (blank 100000 @ ''hi'') ps"
    by auto
  with s show ?thesis by blast
qed

theorem output_conserved_witness:
  "\<exists>s. piped_reachable s \<and> pp_read s 0 = [''hi''] \<and> {#''hi''#} = mset (chunks 0 (sent (pp_agent s))) +
     hands handling (pp_work s 0) + mset (pp_chan s 0) + hands holding (pp_work s 0)"
proof -
  obtain s where s: "piped_reachable s" "pp_read s 0 = [''hi'']" by (rule demo_single)
  with output_conserved [OF s(1), of 0] show ?thesis by (intro exI [of _ s]) simp
qed

subsection \<open>When the senders have returned\<close>

definition done_sending :: "worker \<Rightarrow> bool" where
  "done_sending w \<longleftrightarrow> wk_sender w = Returned \<or> is_blocked (wk_sender w)"

lemma readers_grow:
  assumes "piped_step s t" and "piped_reachable s"
  shows "readers (pp_agent s) r \<le> readers (pp_agent t) r"
proof -
  have pb: "panes_below (pp_agent s)" using piped_reachable_inv [OF assms(2)] by (simp add: pipe_inv_def)
  from assms(1) show ?thesis
  proof (cases rule: piped_step.cases)
    case (outer b)
    then show ?thesis using hushedD(4) [OF outer_step_hushed [OF outer(2)] pb] by (simp add: start_workers_def)
  next
    case (handle q i w m pn E b)
    then show ?thesis using sender_turn_prints(2) [OF handle(5,4) pb] by (simp add: handles_def)
  next
    case (wind_up q i w E b)
    then show ?thesis using reader_end_readers by simp
  qed (simp_all add: reads_def puts_def takes_def set_worker_def)
qed

lemma done_step:
  assumes "piped_step s t" and "piped_reachable s" and "\<forall>w \<in> set (pp_work s r). done_sending w"
    and "readers (pp_agent t) r = readers (pp_agent s) r"
  shows "(\<forall>w \<in> set (pp_work t r). done_sending w) \<and>
    chunks r (sent (pp_agent t)) = chunks r (sent (pp_agent s)) \<and> (\<exists>more. pp_chan t r = pp_chan s r @ more)"
proof -
  have pb: "panes_below (pp_agent s)" using piped_reachable_inv [OF assms(2)] by (simp add: pipe_inv_def)
  have upd: "\<forall>w \<in> set ((pp_work s q)[i := w']). done_sending w"
    if "q = r" "has_worker s q i w" "wk_sender w' = wk_sender w \<or> done_sending w'" for q i w w'
  proof -
    have "w \<in> set (pp_work s r)" using that(1,2) by (auto simp: has_worker_def)
    then have "done_sending w'" using that(3) assms(3) by (auto simp: done_sending_def)
    then show ?thesis using assms(3) that(1) set_update_subset_insert [of "pp_work s q" i w'] by blast
  qed
  have other: "q \<noteq> r" if "has_worker s q i w" "\<not> done_sending w" for q i w
    using that assms(3) by (auto simp: has_worker_def)
  from assms(1) show ?thesis
  proof (cases rule: piped_step.cases)
    case (outer b)
    then show ?thesis using assms(3,4) hushedD(2) [OF outer_step_hushed [OF outer(2)] pb]
      by (simp add: start_workers_def)
  next
    case (read q i w n pn cancelled b rerr)
    then show ?thesis using assms(3) upd [of q i w "w\<lparr>wk_reader := read_turn cancelled b rerr n\<rparr>"]
      by (cases "q = r") (simp_all add: reads_def set_worker_def)
  next
    case (put q i w b)
    then show ?thesis using assms(3) upd [of q i w "w\<lparr>wk_reader := Reads 0\<rparr>"]
      by (cases "q = r") (simp_all add: puts_def set_worker_def)
  next
    case (take q i w m rest)
    then have "q \<noteq> r" by (intro other [of q i w]) (simp_all add: done_sending_def)
    then show ?thesis using assms(3) by (simp add: take(1) takes_def set_worker_def)
  next
    case (handle q i w m pn E b)
    then have "q \<noteq> r" by (intro other [of q i w]) (simp_all add: done_sending_def)
    then show ?thesis using assms(3) sender_turn_prints(3) [OF handle(5,4) pb, of r]
      by (simp add: handle(1) handles_def set_worker_def)
  next
    case (return q i w)
    then show ?thesis using assms(3) upd [of q i w "w\<lparr>wk_sender := Returned\<rparr>"]
      by (cases "q = r") (simp_all add: done_sending_def set_worker_def)
  next
    case (wind_up q i w E b)
    then show ?thesis
      using assms(3) upd [of q i w "w\<lparr>wk_reader := Gone, wk_cancelled := True\<rparr>"]
        hushedD(2) [OF quiet_hushed [OF reader_end_quiet [OF wind_up(4) quiet_refl]] pb]
      by (cases "q = r") (simp_all add: set_worker_def)
  qed
qed

text \<open>C12. Output that comes too late is lost: once all senders of a pane have returned, or wait for a
  mutex that is never released, nothing more of it is printed, whatever happens, unless a new read
  loop is started for it; what is on its channel stays there.\<close>

theorem late_output_lost:
  assumes "piped_reachable s" and "\<forall>w \<in> set (pp_work s r). done_sending w"
    and "piped_step\<^sup>*\<^sup>* s t" and "readers (pp_agent t) r = readers (pp_agent s) r"
  shows "chunks r (sent (pp_agent t)) = chunks r (sent (pp_agent s)) \<and>
    (\<exists>more. pp_chan t r = pp_chan s r @ more)"
proof -
  have "piped_reachable t \<and> readers (pp_agent s) r \<le> readers (pp_agent t) r \<and>
    (readers (pp_agent t) r = readers (pp_agent s) r \<longrightarrow> (\<forall>w \<in> set (pp_work t r). done_sending w) \<and>
      chunks r (sent (pp_agent t)) = chunks r (sent (pp_agent s)) \<and> (\<exists>more. pp_chan t r = pp_chan s r @ more))"
    using assms(3)
  proof (induction rule: rtranclp_induct)
    case (step t u)
    then have t: "piped_reachable t" "readers (pp_agent s) r \<le> readers (pp_agent t) r" by simp_all
    note le = readers_grow [OF step(2) t(1), of r]
    have "(\<forall>w \<in> set (pp_work u r). done_sending w) \<and>
      chunks r (sent (pp_agent u)) = chunks r (sent (pp_agent s)) \<and> (\<exists>more. pp_chan u r = pp_chan s r @ more)"
      if "readers (pp_agent u) r = readers (pp_agent s) r"
    proof -
      have eq: "readers (pp_agent t) r = readers (pp_agent s) r" using that t(2) le by simp
      with step.IH done_step [OF step(2) t(1), of r] that show ?thesis by auto
    qed
    with piped_reachable.step [OF t(1) step(2)] t(2) le show ?case by simp
  qed (use assms(1,2) in simp)
  with assms(4) show ?thesis by simp
qed

text \<open>The shortest such run: the loop puts a chunk on the channel and finds the end of the output, and
  its sender has not taken the chunk when the tenth of a second is over.\<close>

lemma demo_late:
  obtains s where "piped_reachable s" and "\<forall>w \<in> set (pp_work s 0). done_sending w" and "pp_chan s 0 = [''hi'']"
    and "chunks 0 (sent (pp_agent s)) = []"
proof -
  obtain b pn where b: "outer_step\<^sup>*\<^sup>* initial_agent b" "pane_at b 0 = Some pn" "p_TTY pn \<noteq> None"
    "p_readers pn = 1" "chunks 0 (sent b) = []" "\<forall>r. r \<noteq> 0 \<longrightarrow> pane_at b r = None"
    by (rule demo_opened)
  let ?w = "\<lambda>rd sn. new_worker\<lparr>wk_reader := rd, wk_sender := sn\<rparr>"
  have "(\<lambda>r. replicate (readers b r) new_worker) = (\<lambda>r. if r = 0 then [new_worker] else [])"
    using b(2,4,6) by (auto simp: readers_def fun_eq_iff split: option.split)
  with piped_start [OF b(1)] have s1: "piped_reachable (demo_pipe b [new_worker] [] [])"
    by (simp add: demo_pipe_def)
  have s2: "piped_reachable (demo_pipe b [?w (Puts ''hi'') Takes] [] [''hi''])"
    using demo_reads [OF s1 _ _ _ b(2,3), of 0 0 "''hi''" None] by (simp add: new_worker_def read_turn_def)
  have s3: "piped_reachable (demo_pipe b [new_worker] [''hi''] [''hi''])"
    using demo_puts [OF s2, of 0 "''hi''"] by (simp add: new_worker_def)
  have s4: "piped_reachable (demo_pipe b [?w Winds Takes] [''hi''] [''hi''])"
    using demo_reads [OF s3 _ _ _ b(2,3), of 0 0 "[]" "Some ReadEOF"] by (simp add: new_worker_def read_turn_def)
  have rb: "agent_reachable b" and pb: "panes_below b"
    using piped_reachable_inv [OF s4] by (auto simp: demo_pipe_def pipe_inv_def)
  obtain c where c: "reader_end demo_env 0 b = Some c"
    using reader_end_total [OF reachable_inv [OF rb] b(2)] by blast
  let ?w5 = "new_worker\<lparr>wk_reader := Gone, wk_cancelled := True\<rparr>"
  have s5: "piped_reachable (demo_pipe c [?w5] [''hi''] [''hi''])"
  proof (rule demo_pipe_step [OF s4], rule piped_step.wind_up)
    show "has_worker (demo_pipe b [?w Winds Takes] [''hi''] [''hi'']) 0 0 (?w Winds Takes)"
      by (simp add: demo_pipe_simps)
    show "reader_end demo_env 0 (pp_agent (demo_pipe b [?w Winds Takes] [''hi''] [''hi''])) = Some c"
      using c by (simp add: demo_pipe_simps)
  qed (simp_all add: demo_pipe_simps fun_eq_iff new_worker_def)
  have s6: "piped_reachable (demo_pipe c [?w5\<lparr>wk_sender := Returned\<rparr>] [''hi''] [''hi''])"
  proof (rule demo_pipe_step [OF s5], rule piped_step.return)
    show "has_worker (demo_pipe c [?w5] [''hi''] [''hi'']) 0 0 ?w5" by (simp add: demo_pipe_simps)
  qed (simp_all add: demo_pipe_simps fun_eq_iff new_worker_def)
  have "chunks 0 (sent c) = []"
    using hushedD(2) [OF quiet_hushed [OF reader_end_quiet [OF c quiet_refl]] pb] b(5) by simp
  with that [OF s6] show thesis by (simp add: demo_pipe_simps done_sending_def)
qed

theorem late_output_lost_witness:
  "\<exists>s. piped_reachable s \<and> pp_chan s 0 = [''hi''] \<and> (\<exists>more. pp_chan s 0 = pp_chan s 0 @ more) \<and>
     chunks 0 (sent (pp_agent s)) = [] \<and> (\<forall>w \<in> set (pp_work s 0). done_sending w)"
proof -
  obtain s where s: "piped_reachable s" "\<forall>w \<in> set (pp_work s 0). done_sending w" "pp_chan s 0 = [''hi'']"
    "chunks 0 (sent (pp_agent s)) = []" by (rule demo_late)
  from late_output_lost [OF s(1,2), of s] s show ?thesis by (intro exI [of _ s]) simp
qed

subsection \<open>A loop that waits goes on\<close>

text \<open>C11. A read loop that holds a chunk gets rid of it: as long as one sender of its pane waits for a
  chunk, or handles one while the buffer's mutex is free, there is a run in which the loop goes on
  to its next read, even when the channel is full.\<close>

theorem reader_goes_on:
  assumes "piped_reachable s" and "has_worker s r i w" and "wk_reader w = Puts b"
    and "has_worker s r j v" and "pane_at (pp_agent s) r = Some pn"
    and "wk_sender v = Takes \<or> (\<exists>m. wk_sender v = Handling m) \<and> \<not> p_stuck pn"
  shows "\<exists>t w'. piped_step\<^sup>*\<^sup>* s t \<and> has_worker t r i w' \<and> wk_reader w' = Reads 0"
proof -
  have puts: "\<exists>t w'. piped_step\<^sup>*\<^sup>* u t \<and> has_worker t r i w' \<and> wk_reader w' = Reads 0"
    if u: "has_worker u r i x" "wk_reader x = Puts b" "length (pp_chan u r) < OutBufSize" for u x
  proof (intro exI conjI)
    show "piped_step\<^sup>*\<^sup>* u (puts r i x b u)" using piped_step.put [OF u] by (rule r_into_rtranclp)
    show "has_worker (puts r i x b u) r i (x\<lparr>wk_reader := Reads 0\<rparr>)"
      using u(1) by (simp add: puts_def set_worker_def has_worker_def)
  qed simp
  have takes: "\<exists>t w'. piped_step\<^sup>*\<^sup>* u t \<and> has_worker t r i w' \<and> wk_reader w' = Reads 0"
    if u: "has_worker u r i x" "wk_reader x = Puts b" "has_worker u r j y" "wk_sender y = Takes"
      "length (pp_chan u r) \<le> OutBufSize" for u x y
  proof (cases "pp_chan u r")
    case Nil
    with u(1,2) show ?thesis by (intro puts) (simp_all add: OutBufSize_def)
  next
    case (Cons m rest)
    let ?u = "takes r j y m rest u"
    have st: "piped_step u ?u" using u(3,4) Cons by (rule piped_step.take)
    obtain x' where "has_worker ?u r i x'" "wk_reader x' = Puts b"
      using u(1-3) by (cases "i = j") (auto simp: takes_def set_worker_def has_worker_def)
    then obtain t w' where "piped_step\<^sup>*\<^sup>* ?u t" "has_worker t r i w'" "wk_reader w' = Reads 0"
      using puts [of ?u x'] u(5) Cons by (auto simp: takes_def set_worker_def)
    with st show ?thesis by (meson converse_rtranclp_into_rtranclp)
  qed
  have inv: "agent_inv (pp_agent s)" using piped_reachable_inv [OF assms(1)] reachable_inv by blast
  have ch: "length (pp_chan s r) \<le> OutBufSize" using piped_pipe_ok [OF assms(1)] by (simp add: pipe_ok_def)
  show ?thesis
  proof (cases "wk_sender v = Takes")
    case True
    with assms(2-4) ch show ?thesis by (intro takes)
  next
    case False
    with assms(6) obtain m where m: "wk_sender v = Handling m" "\<not> p_stuck pn" by blast
    obtain c where c: "sender_turn demo_env r m (pp_agent s) = Some c"
      using sender_turn_total [OF inv assms(5)] by blast
    let ?u = "handles r j v m (p_stuck pn) c s"
    have st: "piped_step s ?u" using assms(4) m(1) assms(5) c by (rule piped_step.handle)
    obtain x' y' where "has_worker ?u r i x'" "wk_reader x' = Puts b" "has_worker ?u r j y'" "wk_sender y' = Takes"
      using assms(2-4) m(2) by (cases "i = j") (auto simp: handles_def set_worker_def has_worker_def)
    then obtain t w' where "piped_step\<^sup>*\<^sup>* ?u t" "has_worker t r i w'" "wk_reader w' = Reads 0"
      using takes [of ?u x' y'] ch by (auto simp: handles_def set_worker_def)
    with st show ?thesis by (meson converse_rtranclp_into_rtranclp)
  qed
qed

theorem reader_goes_on_witness:
  "\<exists>s t w'. piped_reachable s \<and> holding (hd (pp_work s 0)) = [''a''] \<and>
     piped_step\<^sup>*\<^sup>* s t \<and> has_worker t 0 0 w' \<and> wk_reader w' = Reads 0"
proof -
  have pn: "pane_at demo_running 0 = Some demo_pane" "p_TTY demo_pane \<noteq> None"
    by (simp_all add: demo_running_def demo_pane_def)
  let ?w = "new_worker\<lparr>wk_reader := Puts ''a''\<rparr>"
  let ?s = "demo_pipe demo_running [?w, new_worker] [] [''a'']"
  have s: "piped_reachable ?s"
    using demo_reads [OF demo_pipe_starts _ _ _ pn, of 0 0 "''a''" None] by (simp add: new_worker_def read_turn_def)
  have "\<exists>t w'. piped_step\<^sup>*\<^sup>* ?s t \<and> has_worker t 0 0 w' \<and> wk_reader w' = Reads 0"
    by (rule reader_goes_on [OF s, of 0 0 ?w "''a''" 1 new_worker demo_pane])
      (simp_all add: demo_pipe_simps pn new_worker_def)
  moreover have "holding (hd (pp_work ?s 0)) = [''a'']" by (simp add: demo_pipe_def)
  ultimately show ?thesis using s by blast
qed

end
