(* ===== verification/Webexec_Runs.thy ===== *)
theory Webexec_Runs
  imports Web_Properties Peerbook_Loop Sock_Runs
begin

section \<open>The whole agent: three ways in, one table of peers\<close>

text \<open>
  The process that \<open>start\<close> (webexec.go) builds: the HTTP server, the server of the unix socket and the
  peerbook client share the package variables of \<open>peers\<close>. Here their models run around one agent.
  A step is one request, one message or one turn of a goroutine; nothing brings in a peer but the
  handlers of these three. A step that panics outside the HTTP servers, which recover, ends the
  process and has no successor.
\<close>

record webexec =
  wx_agent :: agent
  wx_web :: server
  wx_sock :: sock_server
  wx_pb :: pb_client

definition newWebexec :: webexec where
  "newWebexec = \<lparr>wx_agent = initial_agent, wx_web = newConnectHandler initial_agent,
     wx_sock = newSockServer initial_agent, wx_pb = newPeerbookClient initial_agent\<rparr>"

text \<open>Each part with the shared agent in place of the one it saw last, and the state after its turn.\<close>

definition web_of :: "webexec \<Rightarrow> server" where
  "web_of s = (wx_web s)\<lparr>sv_agent := wx_agent s\<rparr>"

definition sock_of :: "webexec \<Rightarrow> sock_server" where
  "sock_of s = (wx_sock s)\<lparr>sk_agent := wx_agent s\<rparr>"

definition pb_of :: "webexec \<Rightarrow> pb_client" where
  "pb_of s = (wx_pb s)\<lparr>pb_agent := wx_agent s\<rparr>"

definition set_web :: "server \<Rightarrow> webexec \<Rightarrow> webexec" where
  "set_web t s = s\<lparr>wx_web := t, wx_agent := sv_agent t\<rparr>"

definition set_sock :: "sock_server \<Rightarrow> webexec \<Rightarrow> webexec" where
  "set_sock t s = s\<lparr>wx_sock := t, wx_agent := sk_agent t\<rparr>"

definition set_pb :: "pb_client \<Rightarrow> webexec \<Rightarrow> webexec" where
  "set_pb t s = s\<lparr>wx_pb := t, wx_agent := pb_agent t\<rparr>"

lemmas webexec_views = web_of_def sock_of_def pb_of_def set_web_def set_sock_def set_pb_def

text \<open>What happened, as far as it can bring in a peer.\<close>

datatype wx_event =
    WebRequest web_env request
  | SockRequest rtc bytes bytes
  | PbMessage rtc "raw option"
  | OtherEvent

inductive wx_step :: "webexec \<Rightarrow> wx_event \<Rightarrow> webexec \<Rightarrow> bool" where
  web: "serve W r (web_of s) = (t, rep) \<Longrightarrow> wx_step s (WebRequest W r) (set_web t s)"
| session_ends: "wx_step s OtherEvent (set_web (expire sid (web_of s)) s)"
| sock: "handleSockOffer E R candidate_json connected wrote read_ok h method path body (sock_of s) = (t, rep) \<Longrightarrow>
    wx_step s (SockRequest R method body) (set_sock t s)"
| sock_own: "sock_own (sock_of s) t \<Longrightarrow> wx_step s OtherEvent (set_sock t s)"
| pb: "reader_free (pb_of s) \<Longrightarrow> pb_ws (pb_of s) \<noteq> None \<Longrightarrow> reader_turn E R message (pb_of s) = Some t \<Longrightarrow>
    wx_step s (PbMessage R message) (set_pb t s)"
| pb_own: "pb_own (pb_of s) t \<Longrightarrow> wx_step s OtherEvent (set_pb t s)"
| callback: "callback_step (wx_agent s) b \<Longrightarrow> wx_step s OtherEvent (s\<lparr>wx_agent := b\<rparr>)"
| chunk_sent: "pane_at (wx_agent s) r = Some pn \<Longrightarrow> p_blocked pn < p_readers pn \<Longrightarrow>
    sender_turn E r m (wx_agent s) = Some b \<Longrightarrow> wx_step s OtherEvent (s\<lparr>wx_agent := b\<rparr>)"
| end_of_output: "pane_at (wx_agent s) r = Some pn \<Longrightarrow> 0 < p_readers pn \<Longrightarrow>
    reader_end E r (wx_agent s) = Some b \<Longrightarrow> wx_step s OtherEvent (s\<lparr>wx_agent := b\<rparr>)"

inductive wx_run :: "wx_event list \<Rightarrow> webexec \<Rightarrow> bool" where
  boot: "wx_run [] newWebexec"
| step: "wx_run es s \<Longrightarrow> wx_step s e t \<Longrightarrow> wx_run (es @ [e]) t"

subsection \<open>The parts hold together\<close>

definition put_web :: "agent \<Rightarrow> server \<Rightarrow> server" where
  "put_web a s = s\<lparr>sv_agent := a\<rparr>"

definition put_sock :: "agent \<Rightarrow> sock_server \<Rightarrow> sock_server" where
  "put_sock a s = s\<lparr>sk_agent := a\<rparr>"

definition put_pb :: "agent \<Rightarrow> pb_client \<Rightarrow> pb_client" where
  "put_pb a s = s\<lparr>pb_agent := a\<rparr>"

lemma sessions_ok_grows:
  "sessions_ok s \<Longrightarrow> grows_but X (sv_agent s) b \<Longrightarrow> sessions_ok (s\<lparr>sv_agent := b\<rparr>)"
  by (auto simp: sessions_ok_def intro: has_peer_grows)

lemma web_step_sessions_ok:
  assumes "web_step s t" and inv: "agent_inv (sv_agent s)" and ok: "sessions_ok s"
  shows "sessions_ok t"
proof -
  have g: "grows_but UNIV (sv_agent s) (sv_agent t)"
    using web_host.step_carries_agent [OF assms(1)] inv by (simp add: carries_def)
  have same: "sessions_ok t"
    if "\<And>sid p. sv_sessions t sid = Some p \<Longrightarrow> sv_sessions s sid = Some p"
    using ok g that unfolding sessions_ok_def by (blast intro: has_peer_grows)
  from assms(1) show ?thesis
  proof (cases rule: web_step.cases)
    case (request W r rep)
    from request show ?thesis
    proof (cases rule: handled_agent)
      case (admitted offer fp p)
      have "has_peer (sv_agent t) p" using joinsD(2) [OF admitted(3)] .
      with ok g admitted(4) show ?thesis unfolding sessions_ok_def by (blast intro: has_peer_grows)
    qed (auto intro: same)
  qed (rule same; simp add: expire_def split: if_splits)+
qed

interpretation web_part: agent_part sv_agent web_step put_web sessions_ok
  by unfold_locales (auto simp: put_web_def intro: web_step_sessions_ok sessions_ok_grows)

interpretation sock_part: agent_part sk_agent sock_step put_sock offers_ok
  by unfold_locales (auto simp: put_sock_def intro: offers_ok_agent dest: sock_step_inv)

interpretation pb_part: agent_part pb_agent pb_step put_pb queue_ok
  by unfold_locales (auto simp: put_pb_def queue_ok_def reader_waits_def dest: pb_step_queue_ok [unfolded queue_ok_def reader_waits_def])

lemma put_views:
  "web_of s = put_web (wx_agent s) (wx_web s)" "sock_of s = put_sock (wx_agent s) (wx_sock s)"
  "pb_of s = put_pb (wx_agent s) (wx_pb s)"
  by (simp_all add: webexec_views put_web_def put_sock_def put_pb_def)

definition wx_inv :: "webexec \<Rightarrow> bool" where
  "wx_inv s \<longleftrightarrow> agent_inv (wx_agent s) \<and> sessions_ok (web_of s) \<and> offers_ok (sock_of s) \<and> queue_ok (pb_of s)"

text \<open>A turn of one part is a turn of the others in which they do nothing.\<close>

lemma web_turn:
  assumes "web_step (web_of s) t" and "wx_inv s"
  shows "wx_inv (set_web t s)" and "carries (wx_agent s) (wx_agent (set_web t s))"
  using web_part.turn [OF assms(1) [unfolded put_views]] assms(2)
    sock_part.others_turn [of "wx_agent s" "wx_sock s" "sv_agent t"] pb_part.others_turn [of "wx_agent s" "wx_pb s" "sv_agent t"]
  by (simp_all add: wx_inv_def put_views set_web_def carries_def)

lemma sock_turn:
  assumes "sock_step (sock_of s) t" and "wx_inv s"
  shows "wx_inv (set_sock t s)" and "carries (wx_agent s) (wx_agent (set_sock t s))"
  using sock_part.turn [OF assms(1) [unfolded put_views]] assms(2)
    web_part.others_turn [of "wx_agent s" "wx_web s" "sk_agent t"] pb_part.others_turn [of "wx_agent s" "wx_pb s" "sk_agent t"]
  by (simp_all add: wx_inv_def put_views set_sock_def carries_def)

lemma pb_turn:
  assumes "pb_step (pb_of s) t" and "wx_inv s"
  shows "wx_inv (set_pb t s)" and "carries (wx_agent s) (wx_agent (set_pb t s))"
  using pb_part.turn [OF assms(1) [unfolded put_views]] assms(2)
    web_part.others_turn [of "wx_agent s" "wx_web s" "pb_agent t"] sock_part.others_turn [of "wx_agent s" "wx_sock s" "pb_agent t"]
  by (simp_all add: wx_inv_def put_views set_pb_def carries_def)

lemma agent_turn:
  assumes "agent_step (wx_agent s) b" and "wx_inv s"
  shows "wx_inv (s\<lparr>wx_agent := b\<rparr>)" and "carries (wx_agent s) b"
  using agent_step_inv [OF assms(1)] assms(2) web_part.others_turn [of "wx_agent s" "wx_web s" b]
    sock_part.others_turn [of "wx_agent s" "wx_sock s" b] pb_part.others_turn [of "wx_agent s" "wx_pb s" b]
  by (simp_all add: wx_inv_def put_views carries_def)

lemma serve_step: "serve W r s = (t, rep) \<Longrightarrow> t = s \<or> web_step s t"
  using serve_handled web_step.request by blast

lemma set_web_same: "set_web (web_of s) s = s\<lparr>wx_web := web_of s\<rparr>"
  by (simp add: webexec_views)

lemma wx_step_inv:
  assumes "wx_step s e t" and inv: "wx_inv s"
  shows "wx_inv t" and "carries (wx_agent s) (wx_agent t)"
proof -
  have "wx_inv t \<and> carries (wx_agent s) (wx_agent t)"
    using assms(1)
  proof (cases rule: wx_step.cases)
    case (web W r u rep)
    from serve_step [OF web(3)] show ?thesis
    proof
      assume "u = web_of s"
      with inv show ?thesis by (simp add: web(2) set_web_same wx_inv_def webexec_views)
    qed (use web_turn [OF _ inv] web(2) in blast)
  next
    case (session_ends sid)
    then show ?thesis using web_turn [OF web_step.expiry inv] by simp
  next
    case (sock E R candidate_json connected wrote read_ok h meth path body u rep)
    then show ?thesis using sock_turn [OF sock_step.offers [OF sock(3)] inv] by simp
  next
    case (sock_own u)
    then show ?thesis using sock_turn [OF sock_step.own [OF sock_own(3)] inv] by simp
  next
    case (pb E R message u)
    then show ?thesis using pb_turn [OF pb_step.read [OF pb(3-5)] inv] by simp
  next
    case (pb_own u)
    then show ?thesis using pb_turn [OF pb_step.own [OF pb_own(3)] inv] by simp
  next
    case (callback b)
    then show ?thesis using agent_turn [OF agent_step.outer [OF outer_step.callback [OF callback(3)]] inv] by simp
  next
    case (chunk_sent r pn E m b)
    then show ?thesis using agent_turn [OF agent_step.chunk_sent [OF chunk_sent(3-5)] inv] by simp
  next
    case (end_of_output r pn E b)
    then show ?thesis using agent_turn [OF agent_step.end_of_output [OF end_of_output(3-5)] inv] by simp
  qed
  then show "wx_inv t" and "carries (wx_agent s) (wx_agent t)" by simp_all
qed

lemma newWebexec_inv: "wx_inv newWebexec"
  using initial_agent_inv
  by (simp add: wx_inv_def newWebexec_def webexec_views newConnectHandler_def newSockServer_def
      newPeerbookClient_def sessions_ok_def offers_ok_def queue_ok_def reader_waits_def)

lemma wx_run_inv: "wx_run es s \<Longrightarrow> wx_inv s"
  by (induction rule: wx_run.induct) (use newWebexec_inv wx_step_inv(1) in auto)

text \<open>So the process is, like each of its parts, a host of its agent.\<close>

definition wx_moves :: "webexec \<Rightarrow> webexec \<Rightarrow> bool" where
  "wx_moves s t \<longleftrightarrow> wx_inv s \<and> (\<exists>e. wx_step s e t)"

interpretation webexec_host: agent_host wx_agent wx_moves
  by unfold_locales (auto simp: wx_moves_def intro: wx_step_inv(2))

end
