(* ===== verification/Webexec_Properties.thy ===== *)
theory Webexec_Properties
  imports Webexec_Runs Sock_Properties
begin

section \<open>Who gets into the agent\<close>

text \<open>
  The three ways in, taken together: a fingerprint is in the table of peers only when one of them
  let it in, and whatever the other two do, a request finds the peer its session or offer names.
\<close>

text \<open>The offer of a request to the HTTP server, and which events let in the fingerprint \<open>fp\<close>.\<close>

definition request_offer :: "web_env \<Rightarrow> request \<Rightarrow> description option" where
  "request_offer W r =
     (if rq_method r \<noteq> ''POST'' then None
      else if rq_path r = ''/connect''
      then (case parsePeerReq W (rq_body r) of Inl e \<Rightarrow> None | Inr offer \<Rightarrow> Some offer)
      else if rq_path r = ''/offer''
      then map_option (\<lambda>sdp. \<lparr>d_type = ''offer'', d_sdp = sdp\<rparr>) (rq_body r)
      else None)"

fun admits :: "bytes \<Rightarrow> wx_event \<Rightarrow> bool" where
  "admits fp (WebRequest W r) \<longleftrightarrow>
     (\<exists>offer. request_offer W r = Some offer \<and> offer_fingerprint (w_rtc W) offer = Some (Inr fp)) \<and>
     request_authorized W r fp"
| "admits fp (SockRequest R method body) \<longleftrightarrow>
     method = ''POST'' \<and> (\<exists>offer. rtc_unmarshal R body = Some offer \<and> offer_fingerprint R offer = Some (Inr fp))"
| "admits fp (PbMessage R message) \<longleftrightarrow>
     (\<exists>m v offer. sourced message m fp \<and> m ''offer'' = Some v \<and> rtc_unmarshal R (fst v) = Some offer \<and>
        offer_fingerprint R offer = Some (Inr fp))"
| "admits fp OtherEvent \<longleftrightarrow> False"

text \<open>\<open>brings e a b\<close>: the table is the same, or has one more peer that \<open>e\<close> lets in.\<close>

definition brings :: "wx_event \<Rightarrow> agent \<Rightarrow> agent \<Rightarrow> bool" where
  "brings e a b \<longleftrightarrow> Peers b = Peers a \<or> (\<exists>fp p. admits fp e \<and> Peers b = (Peers a)(fp \<mapsto> p))"

lemma brings_refl [simp]: "brings e a a"
  by (simp add: brings_def)

lemma quiet_brings: "quiet a b \<Longrightarrow> brings e a b"
  by (simp add: brings_def quiet_def)

lemma newPeer_brings: "newPeer E fp a = (b, Some p) \<Longrightarrow> admits fp e \<Longrightarrow> brings e a b"
  using newPeer_Some(1) by (auto simp: brings_def)

lemma admit_brings:
  assumes "admit W r offer a = (b, res)" and "request_offer W r = Some offer"
  shows "brings (WebRequest W r) a b"
  using assms(1) by (cases rule: admit_cases) (use assms(2) in \<open>auto simp: brings_def dest: joinsD(1)\<close>)

lemma serve_brings:
  assumes "serve W r s = (t, rep)"
  shows "brings (WebRequest W r) (sv_agent s) (sv_agent t)"
proof -
  consider (connect) "rq_path r = ''/connect''" "handleConnect W r s = (t, rep)"
    | (offer) "rq_path r = ''/offer''" "handleOffer W r s = (t, rep)"
    | (candidate) "handleCandidate W r s = (t, rep)" | (other) "t = s"
    using assms by (auto simp: serve_def split: if_splits)
  then show ?thesis
  proof cases
    case connect
    then show ?thesis
      by (auto simp: handleConnect_def request_offer_def intro: admit_brings
          split: if_splits sum.splits prod.splits)
  next
    case offer
    then show ?thesis
      by (auto simp: handleOffer_def request_offer_def intro: admit_brings
          split: if_splits option.splits sum.splits prod.splits)
  next
    case candidate
    then show ?thesis
    proof (cases rule: handleCandidate_cases)
      case (3 sid p b)
      with patch_candidate_agent [OF 3(3)] show ?thesis
        by (auto intro: quiet_brings addCandidate_quiet [OF _ quiet_refl])
    qed (simp_all add: quiet_brings)
  qed (simp add: quiet_brings)
qed

lemma offers_brings:
  assumes "handleSockOffer E R candidate_json connected wrote read_ok h method path body s = (t, rep)"
  shows "brings (SockRequest R method body) (sk_agent s) (sk_agent t)"
proof (cases "sk_agent t = sk_agent s")
  case False
  with assms obtain cs timer where m: "method = ''POST''"
    and post: "offer_post E R wrote h path body cs s = (t, rep, timer)"
    by (auto simp: handleSockOffer_def split: option.splits if_splits prod.splits
        elim: offer_get_cases offer_put_cases)
  from post show ?thesis
  proof (cases rule: offer_post_cases)
    case (2 offer fp a p lo)
    then have "admits fp (SockRequest R method body)" using m by simp
    with 2(2) have "brings (SockRequest R method body) (sk_agent s) a" by (rule newPeer_brings)
    then show ?thesis by (simp add: 2(8))
  qed (use False in simp)
qed simp

text \<open>A message from peerbook: the update of a peer and a candidate are quiet, an offer is compared with
  the source before its peer is made.\<close>

lemma update_peer_quiet: "update_peer fp v a = Some (b, res) \<Longrightarrow> quiet a b"
  by (auto simp: update_peer_def intro: peer_close_quiet [OF _ quiet_refl]
      split: option.splits bind_splits if_splits json.splits prod.splits)

lemma take_candidate_quiet: "take_candidate E R fp v a = Some (b, res) \<Longrightarrow> quiet a b"
  by (auto simp: take_candidate_def intro: addCandidate_quiet [OF _ quiet_refl] split: option.splits bind_splits)

lemma take_offer_brings:
  assumes "take_offer E R fp v a = Some (b, res, outs)" and "sourced message m fp" and "m ''offer'' = Some v"
  shows "brings (PbMessage R message) a b"
proof (cases "Peers b = Peers a")
  case False
  with assms(1) obtain offer p where "rtc_unmarshal R (fst v) = Some offer"
    "offer_fingerprint R offer = Some (Inr fp)" "newPeer E fp a = (b, Some p)"
    using newPeer_None [of E fp a b]
    by (auto simp: take_offer_def peer_close_def split: option.splits bind_splits sum.splits prod.splits if_splits)
  moreover from this(1,2) have "admits fp (PbMessage R message)" using assms(2,3) unfolding admits.simps by blast
  ultimately show ?thesis by (blast intro: newPeer_brings)
qed (simp add: brings_def)

lemma message_brings:
  assumes "handleMessage E R message a = Some (b, res, outs)"
  shows "brings (PbMessage R message) a b"
proof (cases "\<exists>m fp. sourced message m fp")
  case True
  then obtain m fp where src: "sourced message m fp" by blast
  with assms have from_source: "from_source E R m fp a = Some (b, res, outs)" by (simp add: handleMessage_sourced)
  then obtain c r1 where c: "(case m ''peer_update'' of None \<Rightarrow> Some (a, Handled) | Some v \<Rightarrow> update_peer fp v a)
      = Some (c, r1)"
    by (auto simp: from_source_def split: bind_splits)
  then have q: "quiet a c" by (auto intro: update_peer_quiet split: option.splits)
  have "brings (PbMessage R message) c b"
    using from_source c src
    by (auto simp: from_source_def intro: take_offer_brings quiet_brings take_candidate_quiet
        split: if_splits option.splits bind_splits)
  with q show ?thesis by (simp add: brings_def quiet_def)
next
  case False
  with handleMessage_unsourced [OF False, of E R a] assms show ?thesis by auto
qed

lemma wx_step_brings:
  assumes "wx_step s e t"
  shows "brings e (wx_agent s) (wx_agent t)"
  using assms
proof (cases rule: wx_step.cases)
  case (web W r u rep)
  then show ?thesis using serve_brings [OF web(3)] by (simp add: webexec_views)
next
  case (session_ends sid)
  then show ?thesis by (simp add: webexec_views expire_def)
next
  case (sock E R candidate_json connected wrote read_ok h meth path body u rep)
  then show ?thesis using offers_brings [OF sock(3)] by (simp add: webexec_views)
next
  case (sock_own u)
  then show ?thesis using sock_own_quiet [OF sock_own(3)] by (simp add: webexec_views quiet_brings)
next
  case (pb E R message u)
  then show ?thesis by (auto simp: webexec_views reader_turn_def intro: message_brings split: bind_splits)
next
  case (pb_own u)
  then show ?thesis using pb_own_agent [OF pb_own(3)] by (simp add: webexec_views)
next
  case (callback b)
  then show ?thesis using callback_step_quiet by (simp add: quiet_brings)
next
  case (chunk_sent r pn E m b)
  then show ?thesis
    using deliver_quiet [OF quiet_refl, of "wx_agent s" E m "clients_of E r (wx_agent s)"]
    by (auto simp: sender_turn_def Let_def brings_def quiet_def split: bind_splits if_splits)
next
  case (end_of_output r pn E b)
  then show ?thesis using reader_end_quiet [OF end_of_output(5) quiet_refl] by (simp add: quiet_brings)
qed

text \<open>C2. No one is in the table of peers who was not let in: in every run of the whole agent, each
  fingerprint of the table is that of an offer which one of the three ways in has admitted before:
  a request to the HTTP server that was authorized for it, a message from peerbook whose source it
  is, or a local program on the unix socket. No client, timer or other step can bring in a peer.\<close>

theorem peers_admitted:
  assumes "wx_run es s" and "Peers (wx_agent s) fp = Some p"
  shows "\<exists>e \<in> set es. admits fp e"
  using assms
proof (induction arbitrary: p rule: wx_run.induct)
  case boot
  then show ?case by (simp add: newWebexec_def initial_agent_def)
next
  case (step es s e t)
  from wx_step_brings [OF step(2)] step.IH step.prems show ?case
    by (auto simp: brings_def split: if_splits)
qed

theorem peers_admitted_witness:
  "\<exists>s r. wx_run [WebRequest demo_web r] s \<and> Peers (wx_agent s) = [''CD'' \<mapsto> 0] \<and>
     admits ''CD'' (WebRequest demo_web r)"
proof -
  let ?s = "web_of newWebexec" and ?r = "demo_request ''POST'' ''/connect''"
  obtain a where adm: "admit demo_web ?r demo_description (sv_agent ?s) = (a, Inr (0, demo_description))"
    and a: "Peers a = [''CD'' \<mapsto> 0]"
    using demo_admits [of "''POST''" "''/connect''" demo_description ?s]
    by (auto simp: newWebexec_def web_of_def initial_agent_def)
  have body: "rq_method ?r = ''POST''" "rq_body ?r = Some ''x''" "rq_path ?r = ''/connect''"
    by (simp_all add: demo_request_def)
  obtain t rep where h: "serve demo_web ?r ?s = (t, rep)" by fastforce
  then have t: "sv_agent t = a"
    using adm by (auto simp: serve_def handleConnect_def body demo_parsed)
  have run: "wx_run [WebRequest demo_web ?r] (set_web t newWebexec)"
    using wx_run.step [OF wx_run.boot wx_step.web [OF h]] by simp
  have agent: "wx_agent (set_web t newWebexec) = a" by (simp add: set_web_def t)
  have "\<exists>e \<in> set [WebRequest demo_web ?r]. admits ''CD'' e"
    by (rule peers_admitted [OF run, of _ 0]) (simp add: agent a)
  then have "admits ''CD'' (WebRequest demo_web ?r)" by simp
  with run agent a show ?thesis by metis
qed



end
