(* ===== verification/Life_Cycle.thy ===== *)
theory Life_Cycle
  imports Client_Commands
begin

section \<open>What an agent leaves behind: the end of start and the socket's hooks\<close>

text \<open>
  The processes of a user as in \<open>Agent_Process\<close>, with the file of the unix socket. An agent makes its
  socket some time after it has taken the PID file, removing a file that is there
  (\<open>StartSocketServer\<close>). An agent in the background ends with the last lines of \<open>start\<close>, which
  remove the PID file and run no hook; one in the foreground (\<open>--debug\<close>) is ended by \<open>app.Run\<close>, whose
  hooks remove the socket and nothing else. \<open>h_listens\<close> is the process that accepts connections on
  the socket: connecting to a file nobody listens on is refused. The runs are calm in the sense of
  \<open>Agent_Process\<close>: two processes do not work on the PID file at the same time.
\<close>

subsection \<open>The socket\<close>

text \<open>The \<open>ServeMux\<close> of the socket, for a path in its clean form.\<close>

datatype sock_route = RouteStatus | RouteLayout | RouteOffer | RouteClipboard | RouteRedirect bytes | NoRoute

definition sock_route :: "bytes \<Rightarrow> sock_route" where
  "sock_route path =
     (if path = ''/status'' then RouteStatus
      else if path = ''/layout'' then RouteLayout
      else if take 7 path = ''/offer/'' then RouteOffer
      else if path = ''/clipboard'' then RouteClipboard
      else if path = ''/offer'' then RouteRedirect ''/offer/''
      else NoRoute)"

text \<open>\<open>StartSocketServer\<close> with its \<open>OnStart\<close> hook: whether it listens, and whether the file is there
  afterwards. \<open>listen_ok\<close> is the answer of \<open>net.Listen\<close>, which makes the file.\<close>

definition open_socket ::
  "(bytes \<Rightarrow> stat_answer) \<Rightarrow> (bytes \<Rightarrow> bool) \<Rightarrow> (bytes \<Rightarrow> bool) \<Rightarrow> bool \<Rightarrow> bytes \<Rightarrow> bool \<times> bool" where
  "open_socket stat can_remove can_mkdir listen_ok fp =
     (case prepareSocket stat can_remove can_mkdir fp of
        (acts, ok) \<Rightarrow>
          let there = (stat fp = StatOk \<and> RemovedFile fp \<notin> set acts)
          in if ok \<and> listen_ok then (True, True) else (False, there))"

text \<open>\<open>newSocketClient\<close> and a request with the client: \<open>None\<close> is the nil client, \<open>Some None\<close> a request
  that fails.\<close>

definition newSocketClient :: "bool \<Rightarrow> bool \<Rightarrow> 'a \<Rightarrow> 'a option option" where
  "newSocketClient sock_missing listening reply =
     (if sock_missing then None else Some (if listening then Some reply else None))"

subsection \<open>The machine\<close>

record machine =
  m_host :: host
  m_sock :: bool
  m_listens :: "int option"

text \<open>The end of \<open>start\<close> for an agent in the background, and of \<open>app.Run\<close> for one in the foreground; the
  process is gone afterwards.\<close>

definition agent_ends :: "bytes \<Rightarrow> int \<Rightarrow> machine \<Rightarrow> machine" where
  "agent_ends path p m =
     (let h = m_host m;
          left = h\<lparr>h_files := fst (pid_remove \<lparr>pf_path = path, pf_pid = p\<rparr> (h_files h)), agents := agents h - {p}\<rparr>
      in m\<lparr>m_host := host_die p left, m_listens := (if m_listens m = Some p then None else m_listens m)\<rparr>)"

definition debug_ends :: "int \<Rightarrow> machine \<Rightarrow> machine" where
  "debug_ends p m =
     m\<lparr>m_host := host_die p (m_host m), m_sock := False,
       m_listens := (if m_listens m = Some p then None else m_listens m)\<rparr>"

inductive machine_step :: "bytes \<Rightarrow> machine \<Rightarrow> machine \<Rightarrow> bool" for path where
  process: "calm_step path (m_host m) h \<Longrightarrow> machine_step path m (m\<lparr>m_host := h\<rparr>)"
| opens: "p \<in> agents (m_host m) \<Longrightarrow> m_listens m = None \<Longrightarrow> (stat fp = StatOk \<longleftrightarrow> m_sock m) \<Longrightarrow>
    open_socket stat can_remove can_mkdir listen_ok fp = (listening, there) \<Longrightarrow>
    machine_step path m (m\<lparr>m_sock := there, m_listens := (if listening then Some p else None)\<rparr>)"
| ends: "p \<in> agents (m_host m) \<Longrightarrow> machine_step path m (agent_ends path p m)"
| debug_ends: "p \<in> agents (m_host m) \<Longrightarrow> machine_step path m (debug_ends p m)"
| killed: "p \<in> live (m_host m) \<Longrightarrow> machine_step path m
    (m\<lparr>m_host := host_die p (m_host m), m_listens := (if m_listens m = Some p then None else m_listens m)\<rparr>)"

inductive machine_reachable :: "bytes \<Rightarrow> machine \<Rightarrow> bool" for path where
  boot: "machine_reachable path \<lparr>m_host = no_process fs, m_sock = sock, m_listens = None\<rparr>"
| step: "machine_reachable path m \<Longrightarrow> machine_step path m m' \<Longrightarrow> machine_reachable path m'"

definition machine_inv :: "bytes \<Rightarrow> machine \<Rightarrow> bool" where
  "machine_inv path m \<longleftrightarrow> host_inv path (m_host m) \<and>
     (\<forall>p. m_listens m = Some p \<longrightarrow> p \<in> agents (m_host m) \<and> m_sock m)"

lemma host_die_agents [simp]: "agents (host_die p h) = agents h - {p}"
  by (simp add: host_die_def)

lemma host_die_inv: "host_inv path h \<Longrightarrow> host_inv path (host_die p h)"
  by (rule host_inv_shrink) (auto simp: host_die_def host_inv_def split: if_splits)

lemma host_leave_inv:
  assumes "host_inv path h" and "p \<in> agents h"
  shows "host_inv path (h\<lparr>h_files := fst (pid_remove \<lparr>pf_path = path, pf_pid = p\<rparr> (h_files h)),
    agents := agents h - {p}\<rparr>)"
  by (rule host_step_inv [OF host_step.leave [OF assms(2)] _ assms(1)]) (simp add: calm_def busy_def)

lemma machine_step_inv: "machine_step path m m' \<Longrightarrow> machine_inv path m \<Longrightarrow> machine_inv path m'"
proof (induction rule: machine_step.induct)
  case (process m h)
  then show ?case using host_step_inv by (auto simp: machine_inv_def calm_step_def)
next
  case (ends p m)
  have "host_inv path (m_host (agent_ends path p m))"
    using ends.prems host_die_inv [OF host_leave_inv [OF _ ends.hyps]]
    by (simp add: machine_inv_def agent_ends_def Let_def)
  with ends show ?case by (auto simp: machine_inv_def agent_ends_def Let_def)
next
  case (debug_ends p m)
  have "m_listens m = None \<or> m_listens m = Some p"
    using debug_ends host_inv_unique [of path "m_host m" p] by (cases "m_listens m") (auto simp: machine_inv_def)
  then show ?case
    using debug_ends.prems host_die_inv by (auto simp: machine_inv_def debug_ends_def)
next
  case (opens p m stat fp can_remove can_mkdir listen_ok listening there)
  then show ?case by (auto simp: machine_inv_def open_socket_def Let_def split: prod.splits if_splits)
next
  case (killed p m)
  then show ?case using host_die_inv by (auto simp: machine_inv_def)
qed

lemma machine_reachable_inv: "machine_reachable path m \<Longrightarrow> machine_inv path m"
proof (induction rule: machine_reachable.induct)
  case (boot fs sock)
  show ?case by (simp add: machine_inv_def no_process_inv)
qed (rule machine_step_inv)

lemma machine_process_run:
  assumes "(calm_step path)\<^sup>*\<^sup>* h h'" and "machine_reachable path m" and "m_host m = h"
  shows "machine_reachable path (m\<lparr>m_host := h'\<rparr>)"
  using assms
proof (induction rule: rtranclp_induct)
  case (step h1 h2)
  then have "machine_reachable path (m\<lparr>m_host := h1\<rparr>)" by simp
  from machine_reachable.step [OF this machine_step.process [of path "m\<lparr>m_host := h1\<rparr>"]] step.hyps(2)
  show ?case by simp
next
  case base
  then show ?case by (cases m) simp
qed

subsection \<open>What status says afterwards\<close>

text \<open>\<open>status\<close> on the machine: what the PID file and the socket tell it. \<open>reply\<close> is what an agent that
  listens answers.\<close>

definition machine_status ::
  "bytes \<Rightarrow> bytes list option option \<Rightarrow> nat \<times> bytes \<Rightarrow> (bytes \<Rightarrow> (bytes \<times> candidate_pair list) option) \<Rightarrow>
   machine \<Rightarrow> (status_line list \<times> status_error option) option" where
  "machine_status path certs reply decode m =
     statusCMD certs (snd (getAgentPid (proc_stat (live (m_host m))) path (h_files (m_host m)))) (\<not> m_sock m)
       (case newSocketClient (\<not> m_sock m) (m_listens m \<noteq> None) reply of None \<Rightarrow> None | Some r \<Rightarrow> r) decode"

text \<open>The first lines of \<open>status\<close>, when no agent is found.\<close>

definition no_agent_lines :: "bytes \<Rightarrow> status_line list" where
  "no_agent_lines fp = [if fp = [] then Uninitialized else ShowFP fp, NotRunning]"

lemma machine_status_no_agent:
  assumes "snd (getAgentPid (proc_stat (live (m_host m))) path (h_files (m_host m))) = Inr 0"
    and "m_listens m = None"
  shows "machine_status path certs reply decode m =
    map_option (\<lambda>fp. (no_agent_lines fp, if m_sock m then Some NoStatus else None)) (getFP False certs)"
  using assms
  by (cases "getFP False certs")
    (simp_all add: machine_status_def statusCMD_def newSocketClient_def no_agent_lines_def Let_def)

text \<open>C29. The two ways an agent ends leave opposite things behind: one in the background removes its PID
  file and leaves its socket, one in the foreground removes the socket and leaves the file, which
  still names it. So when the agent that listens was stopped, \<open>status\<close> finds in both cases that none is
  running, but after an agent in the background it fails, because nobody answers on the socket. Where
  \<open>getFP\<close> fails \<open>status\<close> panics in both cases, there being no logger. The runs are those in which starts
  do not overlap.\<close>

theorem status_after_end:
  assumes "machine_reachable path m" and "m_listens m = Some p"
  shows "h_files (m_host (agent_ends path p m)) path = None \<and> m_sock (agent_ends path p m) \<and>
    machine_status path certs reply decode (agent_ends path p m) =
      map_option (\<lambda>fp. (no_agent_lines fp, Some NoStatus)) (getFP False certs) \<and>
    pid_open (h_files (m_host (debug_ends p m))) path = Inr \<lparr>pf_path = path, pf_pid = p\<rparr> \<and>
    \<not> m_sock (debug_ends p m) \<and>
    machine_status path certs reply decode (debug_ends p m) =
      map_option (\<lambda>fp. (no_agent_lines fp, None)) (getFP False certs)"
proof -
  note inv = machine_reachable_inv [OF assms(1), unfolded machine_inv_def]
  have p: "p \<in> agents (m_host m)" "m_sock m" using inv assms(2) by simp_all
  have open_p: "pid_open (h_files (m_host m)) path = Inr \<lparr>pf_path = path, pf_pid = p\<rparr>"
    using inv p(1) by (simp add: host_inv_def)
  have "snd (getAgentPid (proc_stat (live (m_host (debug_ends p m)))) path (h_files (m_host (debug_ends p m)))) = Inr 0"
    by (simp add: getAgentPid_def debug_ends_def host_die_def open_p pid_running_def)
  moreover have gone: "fst (pid_remove \<lparr>pf_path = path, pf_pid = p\<rparr> (h_files (m_host m))) path = None"
    by (simp add: pid_remove_def)
  then have "snd (getAgentPid (proc_stat (live (m_host (agent_ends path p m)))) path
      (h_files (m_host (agent_ends path p m)))) = Inr 0"
    by (simp add: getAgentPid_def agent_ends_def host_die_def Let_def pid_open_def pid_read_def)
  ultimately show ?thesis using assms(2) p(2) open_p gone
    by (simp add: machine_status_no_agent agent_ends_def debug_ends_def host_die_def Let_def)
qed

definition demo_machine :: machine where
  "demo_machine = \<lparr>m_host = one_agent_host, m_sock = True, m_listens = Some 7\<rparr>"

lemma demo_machine_reachable: "machine_reachable ''run'' demo_machine"
proof -
  let ?m = "\<lambda>h. \<lparr>m_host = h, m_sock = False, m_listens = None\<rparr>"
  have "calm_step ''run'' (no_process Map.empty) (one_process 7)"
    using host_step.spawn [of 7 "no_process Map.empty" "''run''"]
    by (simp add: no_process_def one_process_def calm_step_def calm_def busy_def int_ok_def min_int_def max_int_def)
  with one_agent_run have "(calm_step ''run'')\<^sup>*\<^sup>* (no_process Map.empty) one_agent_host"
    by (rule_tac converse_rtranclp_into_rtranclp)
  from machine_process_run [OF this machine_reachable.boot]
  have m: "machine_reachable ''run'' (?m one_agent_host)" by simp
  let ?stat = "\<lambda>f. if f = ''s'' then StatMissing else StatOk"
  have "open_socket ?stat (\<lambda>_. True) (\<lambda>_. True) True ''s'' = (True, True)"
    by (simp add: open_socket_def prepareSocket_def Let_def split: stat_answer.splits)
  from machine_reachable.step [OF m machine_step.opens [OF _ _ _ this, of 7]]
  show ?thesis by (simp add: demo_machine_def one_agent_host_def)
qed

theorem status_after_end_witness:
  "machine_status ''run'' (Some (Some [''ab:cd''])) (200, ''READY'') (\<lambda>_. None) (agent_ends ''run'' 7 demo_machine) =
     Some ([ShowFP ''ABCD'', NotRunning], Some NoStatus) \<and>
   pid_open (h_files (m_host (debug_ends 7 demo_machine))) ''run'' = Inr \<lparr>pf_path = ''run'', pf_pid = 7\<rparr>"
proof -
  have "getFP False (Some (Some [''ab:cd''])) = Some ''ABCD''" by code_simp
  with status_after_end [OF demo_machine_reachable, of 7 "Some (Some [''ab:cd''])" "(200, ''READY'')" "\<lambda>_. None"]
  show ?thesis by (simp add: demo_machine_def no_agent_lines_def)
qed

end
