(* ===== verification/Command_Line.thy ===== *)
theory Command_Line
  imports Client_Commands
begin

section \<open>The command line: main in webexec.go\<close>

text \<open>
  The table of commands that \<open>main\<close> gives to the library \<open>cli\<close>, and what a command finds in its
  context. Of the library this uses what it documents: a command is found by its name or an alias;
  \<open>IsSet\<close> tells whether a flag of the command was given, \<open>String\<close> gives its value or else its
  default, \<open>Bool\<close> whether it was given; a flag the command does not have is not set.
\<close>

datatype cli_action =
    ClientSubcommands
  | VersionCMD
  | Restart
  | Start
  | StatusCMD
  | Stop
  | InitCMD
  | Accept
  | Upgrade
  | CopyCMD
  | PasteCMD

text \<open>A flag with its default; a boolean one has none.\<close>

record cli_flag =
  fl_name :: bytes
  fl_aliases :: "bytes list"
  fl_default :: "bytes option"

record cli_command =
  cm_name :: bytes
  cm_aliases :: "bytes list"
  cm_flags :: "cli_flag list"
  cm_action :: cli_action

definition plain_command :: "bytes \<Rightarrow> cli_action \<Rightarrow> cli_command" where
  "plain_command n act = \<lparr>cm_name = n, cm_aliases = [], cm_flags = [], cm_action = act\<rparr>"

definition address_flag :: "bytes \<Rightarrow> cli_flag" where
  "address_flag value = \<lparr>fl_name = ''address'', fl_aliases = [''a''], fl_default = Some value\<rparr>"

definition bool_flag :: "bytes \<Rightarrow> cli_flag" where
  "bool_flag n = \<lparr>fl_name = n, fl_aliases = [], fl_default = None\<rparr>"

definition main_commands :: "cli_command list" where
  "main_commands =
     [plain_command ''client'' ClientSubcommands,
      plain_command ''version'' VersionCMD,
      \<lparr>cm_name = ''restart'', cm_aliases = [], cm_flags = [address_flag ''0.0.0.0:7777''], cm_action = Restart\<rparr>,
      \<lparr>cm_name = ''start'', cm_aliases = [''l''],
       cm_flags = [address_flag [], bool_flag ''debug'', bool_flag ''agent''], cm_action = Start\<rparr>,
      plain_command ''status'' StatusCMD,
      plain_command ''stop'' Stop,
      plain_command ''init'' InitCMD,
      plain_command ''accept'' Accept,
      plain_command ''upgrade'' Upgrade,
      plain_command ''copy'' CopyCMD,
      plain_command ''paste'' PasteCMD]"

definition find_command :: "bytes \<Rightarrow> cli_command option" where
  "find_command n = find (\<lambda>c. cm_name c = n \<or> n \<in> set (cm_aliases c)) main_commands"

text \<open>The context: the flags that were given, under the names they were given by.\<close>

type_synonym given = "bytes \<rightharpoonup> bytes"

definition flag_of :: "cli_command \<Rightarrow> bytes \<Rightarrow> cli_flag option" where
  "flag_of c n = find (\<lambda>f. n = fl_name f \<or> n \<in> set (fl_aliases f)) (cm_flags c)"

definition given_value :: "cli_flag \<Rightarrow> given \<Rightarrow> bytes option" where
  "given_value f g = (case List.map_filter g (fl_name f # fl_aliases f) of [] \<Rightarrow> None | v # _ \<Rightarrow> Some v)"

definition is_set :: "cli_command \<Rightarrow> given \<Rightarrow> bytes \<Rightarrow> bool" where
  "is_set c g n = (case flag_of c n of None \<Rightarrow> False | Some f \<Rightarrow> given_value f g \<noteq> None)"

definition flag_string :: "cli_command \<Rightarrow> given \<Rightarrow> bytes \<Rightarrow> bytes" where
  "flag_string c g n =
     (case flag_of c n of
        None \<Rightarrow> []
      | Some f \<Rightarrow> (case given_value f g of
                     Some v \<Rightarrow> v | None \<Rightarrow> (case fl_default f of None \<Rightarrow> [] | Some d \<Rightarrow> d)))"

text \<open>How \<open>start\<close> and \<open>accept\<close> read their address, and the boolean flags.\<close>

definition address_given :: "cli_command \<Rightarrow> given \<Rightarrow> bytes option" where
  "address_given c g = (if is_set c g ''address'' then Some (flag_string c g ''address'') else None)"

text \<open>\<open>restart\<close>: \<open>stop\<close>, a second, and \<open>start\<close> with the same context. \<open>fs'\<close> are the files that \<open>start\<close>
  finds when the second is over, and what it learns of the system then.\<close>

definition restart ::
  "cli_command \<Rightarrow> given \<Rightarrow> bool \<Rightarrow> bytes option \<Rightarrow> (bytes \<Rightarrow> bool) \<Rightarrow> (int \<Rightarrow> bool) \<Rightarrow> bytes \<Rightarrow> files \<Rightarrow>
   (bytes \<Rightarrow> bool) \<Rightarrow> int \<Rightarrow> (bytes \<Rightarrow> bool) \<Rightarrow> bytes option \<Rightarrow> (bytes \<Rightarrow> int option) \<Rightarrow> bytes \<Rightarrow> files \<Rightarrow>
   int list \<times> files \<times> start_result" where
  "restart c g certs_ok conf stat_ok can_signal path fs stat_ok' self mkdir_ok exec_path started log fs' =
     (case stop certs_ok (conf \<noteq> None) stat_ok can_signal path fs of
        (pids, err) \<Rightarrow>
          if restart_starts err
          then (pids, start certs_ok conf (address_given c g) (is_set c g ''debug'') (is_set c g ''agent'')
                        stat_ok' self mkdir_ok exec_path started path log fs')
          else (pids, fs', StartFailed (the err)))"

definition versionCMD :: "bytes \<Rightarrow> bytes \<Rightarrow> bytes \<Rightarrow> bytes" where
  "versionCMD version commit date =
     ''Version: '' @ version @ newline # ''Git Commit Hash: '' @ commit @ newline #
     ''Build Date: '' @ date @ [newline]"

subsection \<open>Which flags count\<close>

lemma command_table:
  "find_command ''restart'' = Some \<lparr>cm_name = ''restart'', cm_aliases = [],
     cm_flags = [address_flag ''0.0.0.0:7777''], cm_action = Restart\<rparr>"
  "find_command ''accept'' = Some (plain_command ''accept'' Accept)"
  "find_command ''l'' = find_command ''start''"
  by code_simp+

lemma restart_flags:
  assumes "find_command ''restart'' = Some c"
  shows "\<not> is_set c g ''debug''" and "\<not> is_set c g ''agent''"
    and "address_given c g = (case g ''address'' of Some a \<Rightarrow> Some a | None \<Rightarrow> g ''a'')"
  using assms
  by (auto simp: command_table is_set_def flag_of_def address_flag_def address_given_def flag_string_def
      given_value_def List.map_filter_simps split: option.splits)

text \<open>What the address given on the command line is worth: \<open>restart\<close> never runs in the foreground,
  and the agent it forks, when it forks one, is told the address that was given or else the one of
  the configuration; its declared default is never used. \<open>accept\<close> has no such flag: the agent it
  starts is always told the built-in default.\<close>

lemma restart_address:
  assumes "find_command ''restart'' = Some c" and "find_command ''accept'' = Some c'"
  shows "snd (snd (restart c g certs_ok (Some conf) stat_ok sig path fs stat_ok' self mkdir_ok (Some exec)
      started log fs')) \<in> insert (Forked None 0) (range StartFailed \<union>
        range (Forked (Some (fork_command exec
          (case g ''address'' of Some a \<Rightarrow> a | None \<Rightarrow> (case g ''a'' of Some a \<Rightarrow> a | None \<Rightarrow> conf)) log)))) \<and>
    address_given c' g = None"
proof -
  have "address_given c' g = None"
    using assms(2) by (auto simp: command_table plain_command_def address_given_def is_set_def flag_of_def)
  moreover have "start_address (address_given c g) conf =
      (case g ''address'' of Some a \<Rightarrow> a | None \<Rightarrow> (case g ''a'' of Some a \<Rightarrow> a | None \<Rightarrow> conf))"
    by (simp add: restart_flags(3) [OF assms(1)] start_address_def split: option.splits)
  ultimately show ?thesis
    using restart_flags(1,2) [OF assms(1), of g]
    by (auto simp: restart_def start_def forkAgent_def launch_def Let_def split: prod.splits sum.splits option.splits)
qed

lemma restart_address_example:
  "\<exists>c. find_command ''restart'' = Some c \<and>
     snd (snd (restart c Map.empty True (Some ''c:1'') (\<lambda>_. False) (\<lambda>_. True) ''pid'' Map.empty (\<lambda>_. False) 1
       (\<lambda>_. True) (Some ''webexec'') (\<lambda>_. Some 9) ''log'' Map.empty)) =
     Forked (Some (fork_command ''webexec'' ''c:1'' ''log'')) 9"
proof -
  obtain c where c: "find_command ''restart'' = Some c" by (simp add: command_table)
  let ?res = "snd (snd (restart c Map.empty True (Some ''c:1'') (\<lambda>_. False) (\<lambda>_. True) ''pid'' Map.empty
    (\<lambda>_. False) 1 (\<lambda>_. True) (Some ''webexec'') (\<lambda>_. Some 9) ''log'' Map.empty))"
  have "pid_open Map.empty ''pid'' = Inl NotExist" by (simp add: pid_open_def pid_read_def)
  then have "\<exists>cmd. ?res = Forked (Some cmd) 9"
    by (simp add: restart_def stop_def restart_starts_def start_def restart_flags(1,2) [OF c] forkAgent_def
        launch_def Let_def)
  moreover from restart_address [OF c command_table(2), of Map.empty True "''c:1''" "\<lambda>_. False" "\<lambda>_. True"
      "''pid''" Map.empty "\<lambda>_. False" 1 "\<lambda>_. True" "''webexec''" "\<lambda>_. Some 9" "''log''" Map.empty]
  have "?res \<in> insert (Forked None 0) (range StartFailed \<union>
      range (Forked (Some (fork_command ''webexec'' ''c:1'' ''log''))))" by simp
  ultimately have "?res = Forked (Some (fork_command ''webexec'' ''c:1'' ''log'')) 9" by auto
  with c show ?thesis by blast
qed

end
