(* ===== verification/Cert_Key.thy ===== *)
theory Cert_Key
  imports Client_Commands
begin

section \<open>A fresh certificate: generate in key.go\<close>

text \<open>
  The template \<open>generate\<close> gives to the library that signs it. The key, the random bytes and the random
  number come from outside; \<open>rand.Int\<close> answers a number from 0 up to its bound, not included.
\<close>

definition hex_lower :: "nat \<Rightarrow> char" where
  "hex_lower n = ''0123456789abcdef'' ! n"

definition hex_encode :: "bytes \<Rightarrow> bytes" where
  "hex_encode bs = concat (map (\<lambda>c. [hex_lower (of_char c div 16), hex_lower (of_char c mod 16)]) bs)"

datatype key_usage = KeyEncipherment | DigitalSignature

datatype ext_key_usage = ClientAuth | ServerAuth

record certificate_template =
  ct_ExtKeyUsage :: "ext_key_usage list"
  ct_BasicConstraintsValid :: bool
  ct_NotBefore :: int
  ct_KeyUsage :: "key_usage set"
  ct_NotAfter :: int
  ct_SerialNumber :: int
  ct_Version :: nat
  ct_CommonName :: bytes
  ct_IsCA :: bool

definition max_serial :: int where
  "max_serial = 2 ^ 130 - 1"

text \<open>\<open>add_date\<close> is \<open>AddDate\<close> with years, months and days; the clock is read twice.\<close>

definition generate ::
  "'k option \<Rightarrow> (nat \<Rightarrow> bytes option) \<Rightarrow> (int \<Rightarrow> int option) \<Rightarrow> int \<Rightarrow> int \<Rightarrow> (nat \<Rightarrow> nat \<Rightarrow> nat \<Rightarrow> int \<Rightarrow> int) \<Rightarrow>
   ('k \<Rightarrow> certificate_template \<Rightarrow> 'c option) \<Rightarrow> 'c option" where
  "generate secretKey rand_read rand_int now now' add_date newCertificate = do {
     k \<leftarrow> secretKey;
     origin \<leftarrow> rand_read 16;
     serialNumber \<leftarrow> rand_int max_serial;
     newCertificate k
       \<lparr>ct_ExtKeyUsage = [ClientAuth, ServerAuth], ct_BasicConstraintsValid = True, ct_NotBefore = now,
        ct_KeyUsage = {KeyEncipherment, DigitalSignature}, ct_NotAfter = add_date 10 0 0 now',
        ct_SerialNumber = serialNumber, ct_Version = 2, ct_CommonName = hex_encode origin, ct_IsCA = True\<rparr>
   }"

text \<open>Two certificates with the same name were made from the same random bytes.\<close>

lemma hex_lower_inject: "m < 16 \<Longrightarrow> n < 16 \<Longrightarrow> hex_lower m = hex_lower n \<longleftrightarrow> m = n"
  by (simp add: hex_lower_def nth_eq_iff_index_eq)

lemma hex_encode_length [simp]: "length (hex_encode bs) = 2 * length bs"
  by (induction bs) (simp_all add: hex_encode_def)

lemma hex_byte_inject:
  "of_char c div 16 = (of_char d div 16 :: nat) \<Longrightarrow> of_char c mod 16 = (of_char d mod 16 :: nat) \<Longrightarrow> c = d"
  by (metis div_mult_mod_eq of_char_eq_iff)

lemma hex_encode_inject: "hex_encode bs = hex_encode cs \<Longrightarrow> bs = cs"
proof (induction bs arbitrary: cs)
  case Nil
  then show ?case by (cases cs) (simp_all add: hex_encode_def)
next
  case (Cons b bs)
  then obtain c cs' where cs: "cs = c # cs'" by (cases cs) (auto simp: hex_encode_def)
  have lt: "of_char x div 16 < (16 :: nat)" "of_char x mod 16 < (16 :: nat)" for x
    using nat_of_char_less_256 [of x] less_mult_imp_div_less [of "of_char x" 16 16] by simp_all
  from Cons.prems cs have "hex_lower (of_char b div 16) = hex_lower (of_char c div 16)"
    "hex_lower (of_char b mod 16) = hex_lower (of_char c mod 16)" "hex_encode bs = hex_encode cs'"
    by (simp_all add: hex_encode_def)
  with Cons.IH hex_byte_inject [of b c] lt hex_lower_inject cs show ?case by simp
qed

text \<open>What is in every certificate: a name of 32 hexadecimal digits, a serial number that is not negative
  and fits the twenty octets X.509 allows.\<close>

lemma generate_template:
  assumes "generate k rand_read rand_int now now' add_date newCertificate = Some cert"
    and "\<And>n bs. rand_read n = Some bs \<Longrightarrow> length bs = n"
    and "\<And>m i. rand_int m = Some i \<Longrightarrow> 0 \<le> i \<and> i < m"
  obtains k' t where "newCertificate k' t = Some cert" and "length (ct_CommonName t) = 32"
    and "0 \<le> ct_SerialNumber t" and "ct_SerialNumber t < 2 ^ 159" and "ct_NotAfter t = add_date 10 0 0 now'"
proof -
  from assms(1) obtain k' origin i where o: "rand_read 16 = Some origin" and i: "rand_int max_serial = Some i"
    and c: "newCertificate k' \<lparr>ct_ExtKeyUsage = [ClientAuth, ServerAuth], ct_BasicConstraintsValid = True,
      ct_NotBefore = now, ct_KeyUsage = {KeyEncipherment, DigitalSignature}, ct_NotAfter = add_date 10 0 0 now',
      ct_SerialNumber = i, ct_Version = 2, ct_CommonName = hex_encode origin, ct_IsCA = True\<rparr> = Some cert"
    by (auto simp: generate_def split: bind_splits)
  have "max_serial < 2 ^ 159" by (simp add: max_serial_def)
  with assms(2) [OF o] assms(3) [OF i] c show thesis by (intro that [OF c]) simp_all
qed

end
