(* ===== verification/Spec2Isabelle.thy ===== *)
theory Spec2Isabelle
  imports Ring_Buffer Registries File_Auth Pidfile Agent_Process Control_Args Labels Offers
    Restore_Properties Web_Properties Peerbook_Loop Peerbook_Url Configuration
    Sock_Properties Accept_Properties Output_Properties Webexec_Properties Life_Cycle
    Command_Line Cert_Key
begin

text \<open>
  A model of webexec, a terminal server over WebRTC, with the theorems about it.

  \<^bold>\<open>The program.\<close> An agent runs in the background, at most one per user. Clients reach it over HTTP
  (\<open>httpserver/http.go\<close>), through a signaling server called peerbook (\<open>peerbook.go\<close>), or from the same
  machine over a unix socket (\<open>sock.go\<close>); all three bring a session description, whose certificate
  fingerprint names the peer. A peer (\<open>peers/peer.go\<close>) opens data channels: their label asks for a
  new pane, for one to come back to, or is \<open>%\<close>, the control channel, whose JSON messages
  (\<open>peers/cdc.go\<close>, \<open>handlers.go\<close>) resize panes, add them, keep a layout and set markers. A pane
  (\<open>peers/pane.go\<close>) is a command with its terminal; what it prints goes to every channel registered
  for it (\<open>peers/clients_db.go\<close>) and into a ring of 100000 bytes (\<open>peers/buffer.go\<close>), from which a
  returning client gets what was printed since a marker. The commands of \<open>webexec.go\<close> start, stop and
  ask the agent, \<open>clients.go\<close> edits the list of clients, \<open>conf.go\<close> reads the configuration.

  \<^bold>\<open>How Go is read.\<close> Bytes and strings are \<open>string\<close>s of bytes; an \<open>int\<close> is an \<open>int\<close> that wraps at 64
  bits where the code adds (\<open>go_inc\<close>, \<open>wrap64\<close>), a \<open>uint16\<close> is a \<open>16 word\<close>. Pointers are references
  into stores of the state (\<open>pane_ref\<close>, \<open>peer_ref\<close>, \<open>lo_ref\<close>), so that shared values stay shared. A
  panic is \<open>None\<close>, an error is the left side of a sum or a value of an error datatype. The order in
  which Go ranges over a map is an argument, with the hypothesis that it is some order of the keys
  (\<open>range_order\<close>). A function that returns closures or waits is cut where it does: the closure or
  the rest is a definition of its own, and the state has what is pending. The loop that may not
  return, in \<open>GetSinceMarker\<close>, is a \<open>partial_function\<close>; \<open>restore_hangs_iff\<close> says exactly when it
  has no value. Every other recursion is structural.

  \<^bold>\<open>The theories.\<close>
  \<^item> \<open>Prelude\<close>, \<open>Go_Strings\<close>: Go's values, ranges over maps, and the functions of \<open>strings\<close>, \<open>strconv\<close>,
    \<open>fmt\<close> and \<open>bufio\<close> the code calls. \<open>Json_Scan\<close>: the scanner of \<open>encoding/json\<close>, with the lemma
    that a text ending an object is no longer valid when anything ending in a brace follows.
  \<^item> \<open>Ring_Buffer\<close> (\<open>buffer.go\<close>): the ring refines a history, a list of bytes with positions in it. The
    locale \<open>output_history\<close> states that contract, its interpretation \<open>ring\<close> discharges it.
  \<^item> \<open>Registries\<close> (\<open>panes_db.go\<close>, \<open>clients_db.go\<close>): the two tables; the locale \<open>id_registry\<close> is what both
    promise about the ids they give out.
  \<^item> \<open>Control_Args\<close> (\<open>cdc.go\<close>): the message structs and what \<open>json.Unmarshal\<close> makes of a tree.
    \<open>Labels\<close>: \<open>ParseWinsize\<close>, the labels of \<open>GetOrCreatePane\<close> and the first message on a channel.
    \<open>Screen_Dump\<close>: \<open>dumpVT\<close>. \<open>Offers\<close>: \<open>EncodeOffer\<close> and \<open>DecodeOffer\<close> with their base64.
  \<^item> \<open>Agent_State\<close>: the package variables as the record \<open>agent\<close>, the structs \<open>pane\<close> and \<open>peer\<close>, pending
    closures and timers, and \<open>env\<close>, the answers of everything outside. \<open>Agent_Inv\<close>: the invariant
    \<open>agent_inv\<close>, and \<open>keeps\<close>, what an operation does to it. \<open>Pane_Ops\<close> (\<open>pane.go\<close>), \<open>Peer_Ops\<close>
    (\<open>peer.go\<close>), \<open>Handlers\<close> (\<open>handlers.go\<close>, \<open>handleCTRLMsg\<close>): one definition per function, each
    followed by its preservation lemma.
  \<^item> \<open>Agent_Steps\<close>: \<open>callback_step\<close>, the callbacks of the library and the timers; \<open>outer_step\<close>, with the
    calls of the servers; \<open>agent_step\<close>, with the turns of the agent's own senders and read loops; in
    any order, and \<open>agent_reachable\<close>. \<open>Example_Run\<close> is a concrete run for the witnesses.
    \<open>Run_Properties\<close>, \<open>Client_Properties\<close>, \<open>Message_Properties\<close> and \<open>Restore_Properties\<close> hold the
    properties of the runs.
  \<^item> \<open>Quiet_Steps\<close>: what comes from outside prints nothing, and only \<open>NewPeer\<close> changes the table of
    peers, one lemma per operation. \<open>Output_Pipe\<close>: the read loops, the channel \<open>outbuf\<close> and the senders
    of \<open>pane.go\<close> as goroutines around the agent (\<open>piped_step\<close>), with the invariant \<open>pipe_inv\<close> that
    accounts for every chunk and the lemma \<open>piped_step_agent\<close> that the agent takes only steps of its own;
    \<open>Output_Properties\<close>: what the goroutines do to the order, and what they lose.
  \<^item> \<open>Agent_Hosts\<close>: the locale \<open>agent_host\<close>, what a program around an agent owes it, with what follows
    for panes and peers; interpreted on the agent itself, the HTTP server, the unix socket and the
    peerbook client. \<open>agent_part\<close> extends it for parts that share one agent.
  \<^item> \<open>Signaling\<close>: \<open>Listen\<close> and the description, shared by the three servers. \<open>Web_Server\<close> (\<open>http.go\<close>)
    and \<open>Web_Properties\<close>: who is let in, what is answered, how long a session's path lives. A connection that fails while
    \<open>Listen\<close> waits is in it (\<open>rtc_lost\<close>).
    \<open>Peerbook\<close>, \<open>Peerbook_Properties\<close>, \<open>Peerbook_Loop\<close>, \<open>Peerbook_Url\<close> (\<open>peerbook.go\<close>): its messages,
    which of them panic, the reader and writer goroutines as \<open>pb_step\<close>, the URL of \<open>Dial\<close>. \<open>Sock_Server\<close>, \<open>Sock_Runs\<close>,
    \<open>Sock_Properties\<close> (\<open>sock.go\<close>): status, layout, clipboard and offers, the runs \<open>sock_step\<close> of the
    server, the bounds of its channels.
  \<^item> \<open>Webexec_Runs\<close>: the three servers around one agent, as \<open>start\<close> puts them together (\<open>wx_step\<close>, each
    step with its event); each is an \<open>agent_part\<close>, so what it owns survives the others.
    \<open>Webexec_Properties\<close>: who is let in, and what requests find, in the runs of the whole.
  \<^item> \<open>File_Auth\<close> (\<open>auth.go\<close>, \<open>clients.go\<close>): reading and editing the list; the locale \<open>auth_backend\<close> is the
    interface the HTTP server asks. \<open>Pidfile\<close> (\<open>pidfile/\<close>) and \<open>Agent_Process\<close> (\<open>start\<close>, \<open>stop\<close>,
    \<open>restart\<close>, \<open>forkAgent\<close>): who is the agent, with \<open>pidfile.New\<close> and \<open>getAgentPid\<close> call by call
    (\<open>new_turn\<close>, \<open>look_turn\<close>) between other processes. \<open>Configuration\<close> (\<open>conf.go\<close>): \<open>parseConf\<close> with its type
    assertions and numbers. \<open>Client_Commands\<close> (the other commands, \<open>key.go\<close>) and \<open>Accept_Properties\<close>:
    \<open>webexec accept\<close> against the agent it talks to. \<open>Command_Line\<close>: the table of commands with their
    flags. \<open>Life_Cycle\<close>: the socket file beside the PID file, from the start of an agent to its end.
    \<open>Cert_Key\<close>: the certificate \<open>generate\<close> asks for.

  \<^bold>\<open>What is shown.\<close> In every run the ring of a pane stands for exactly what the pane printed; with
  one read loop that is a prefix of what its terminal gave, at most 4098 chunks behind, with the two
  the code starts for a labelled channel the order can change; a marker brings back exactly what came after it, with the cases where it does not; output never
  panics; panes keep their ids and never come back from the dead. Exactly which control messages,
  peerbook messages, requests about offers and configurations panic. Nobody gets in by HTTP who is
  not in the file, and in the runs of the whole agent everybody in the table of peers came in by an
  authorized request, by a message of peerbook from themselves, or by a local program. At most one
  process is the agent as long as the calls of two processes on the PID file do not overlap, and two
  starts that do can both become it; what \<open>status\<close> says when the agent has ended. Round trips of offers, first messages,
  answers to questions, the URL for peerbook, and adding and removing clients. Some properties state behaviour the code does not seem to intend (an output
  history that never returns, candidates that \<open>accept\<close> never sends); they are exact statements of
  what the code does.

  \<^bold>\<open>Bounds.\<close> The ring has the size the code gives it in each pane (\<open>newBuffer 100000\<close>) and its
  theorems hold for every size. Channels hold five candidates in \<open>sock.go\<close> and eight in
  \<open>peer.go\<close>, and 4096 chunks of at most 4096 bytes in \<open>pane.go\<close>; \<open>accept\<close> asks thirty times. A step that opens a pane assumes \<open>room\<close>: fewer than
  \<open>2 ^ 63\<close> panes and clients so far.

  \<^bold>\<open>Not modelled.\<close> The WebRTC, websocket, TOML, terminal, semver and certificate libraries, the
  operating system and the lexing of JSON values are arguments, with the answers the code reads.
  The loggers, \<open>dup2\<close> of the error log and the fx container have no decisions of their own to verify; that
  the package variable \<open>Logger\<close> is still nil, and logging panics, is an argument (\<open>logger\<close>) of what a
  command can reach before it is set. \<open>WriteFile\<close> of the PID file is one step.
  A mutex makes the section it guards one step; the sections without one (the sessions of \<open>http.go\<close>)
  are taken as steps too, so data races are outside.

  \<^bold>\<open>Planned.\<close> Replaying a screen dump on a terminal, the goroutines of the output inside the runs of the
  whole agent, and the commands of a second process against it.
\<close>

end
